(* ===== verification/Agent_Prelude.thy ===== *)
theory Agent_Prelude
  imports Complex_Main "HOL-Library.Word"
begin

text \<open>
  Shared vocabulary of the development: the outcome types every component returns, the
  error chain of the \<open>anyhow\<close> crate, the hint collections, and generic lemmas on
  options, sums and lists.

  \<^item> a fallible Rust function returns \<open>error + 'a\<close>, with \<open>Inl\<close> for \<open>Err\<close>;
  \<^item> a computation that may panic (overflow of a \<open>Duration\<close>, a slice off a character
    boundary, a remainder by zero) returns \<open>'a exec\<close>;
  \<^item> an effectful Rust function takes its state and returns it changed, next to its result.
\<close>

section \<open>Hint collections\<close>

named_theorems text_simps \<open>equations that evaluate the string operations\<close>
named_theorems time_simps \<open>equations of the duration arithmetic\<close>
named_theorems state_simps \<open>definitions of the small state-passing operations\<close>

section \<open>Machine integers\<close>

type_synonym u64 = "64 word"

section \<open>Panics\<close>

datatype 'a exec = Done 'a | Panic

fun exec_bind :: "'a exec \<Rightarrow> ('a \<Rightarrow> 'b exec) \<Rightarrow> 'b exec" where
  "exec_bind (Done a) f = f a"
| "exec_bind Panic f = Panic"

lemma exec_bind_Done [simp]: "exec_bind m f = Done b \<longleftrightarrow> (\<exists>a. m = Done a \<and> f a = Done b)"
  by (cases m) auto

lemma exec_neq_Panic [simp]: "m \<noteq> Panic \<longleftrightarrow> (\<exists>a. m = Done a)"
  by (cases m) auto

section \<open>Errors\<close>

text \<open>
  gRPC status codes as \<open>tonic::Code\<close> lists them, the kinds of I/O error the code tells
  apart, and the causes an \<open>anyhow::Error\<close> chains. Each cause carries the text its
  \<open>Display\<close> prints. An error is the list of its causes, outermost first, which is what
  \<open>err.chain()\<close> iterates.
\<close>

datatype grpc_code =
    CodeOk | Cancelled | Unknown | InvalidArgument | DeadlineExceeded | NotFound
  | AlreadyExists | PermissionDenied | ResourceExhausted | FailedPrecondition | Aborted
  | OutOfRange | Unimplemented | Internal | Unavailable | DataLoss | Unauthenticated

datatype io_kind = IoNotFound | IoPermissionDenied | IoInvalidData | IoOther

datatype cause =
    Msg string
  | Status grpc_code string
  | Io io_kind string
  | Lib string

type_synonym error = "cause list"

fun cause_text :: "cause \<Rightarrow> string" where
  "cause_text (Msg m) = m"
| "cause_text (Status c m) = m"
| "cause_text (Io k m) = m"
| "cause_text (Lib m) = m"

text \<open>\<open>anyhow!(..)\<close>, \<open>.context(..)\<close> and \<open>err.to_string()\<close>, which shows the outermost cause.\<close>

definition anyhow :: "string \<Rightarrow> error" where
  "anyhow m = [Msg m]"

definition context_err :: "string \<Rightarrow> error \<Rightarrow> error" where
  "context_err m e = Msg m # e"

definition with_context :: "string \<Rightarrow> error + 'a \<Rightarrow> error + 'a" where
  "with_context m r = (case r of Inl e \<Rightarrow> Inl (context_err m e) | Inr a \<Rightarrow> Inr a)"

definition err_text :: "error \<Rightarrow> string" where
  "err_text e = (case e of [] \<Rightarrow> [] | c # _ \<Rightarrow> cause_text c)"

text \<open>The \<open>?\<close> operator: go on with the value, or return the error.\<close>

fun try_bind :: "'e + 'a \<Rightarrow> ('a \<Rightarrow> 'e + 'b) \<Rightarrow> 'e + 'b" where
  "try_bind (Inl e) f = Inl e"
| "try_bind (Inr a) f = f a"

lemma try_bind_Inr [simp]: "try_bind m f = Inr b \<longleftrightarrow> (\<exists>a. m = Inr a \<and> f a = Inr b)"
  by (cases m) auto

lemma with_context_simps [simp]:
  "with_context m (Inl e) = Inl (Msg m # e)"
  "with_context m (Inr a) = Inr a"
  by (simp_all add: with_context_def context_err_def)

lemma err_text_anyhow [simp]: "err_text (anyhow m) = m"
  by (simp add: err_text_def anyhow_def)

section \<open>Scripts: the answers of the environment\<close>

text \<open>
  A call that leaves the process (an SQL statement, a file operation, a channel send) may
  fail at any time. The model keeps a script, the list of the outcomes still to come; an
  empty script means that every further call succeeds.
\<close>

fun next_fault :: "error option list \<Rightarrow> error option \<times> error option list" where
  "next_fault [] = (None, [])"
| "next_fault (f # fs) = (f, fs)"

lemma next_fault_cases:
  obtains "next_fault fs = (None, tl fs)" | e where "next_fault fs = (Some e, tl fs)"
  by (cases fs; cases "hd fs") auto

section \<open>Generic lemmas\<close>

lemma case_sum_Inr [simp]: "(case r of Inl e \<Rightarrow> Inl e | Inr a \<Rightarrow> Inr a) = r"
  by (cases r) auto

lemma isl_False_iff: "\<not> isl r \<longleftrightarrow> (\<exists>a. r = Inr a)"
  by (cases r) auto

lemma drop_nth_hd: "i < length xs \<Longrightarrow> drop i xs = xs ! i # drop (Suc i) xs"
  by (simp add: Cons_nth_drop_Suc)

end
