(* ===== verification/Rust_Text.thy ===== *)
theory Rust_Text
  imports Agent_Prelude "HOL-Library.Sublist"
begin

text \<open>
  The string operations of Rust's standard library that the agent uses. A \<open>String\<close> is the
  list of its UTF-8 bytes (a HOL \<open>char\<close> is a byte), so \<open>length\<close> is \<open>str::len\<close>. White
  space is Unicode's \<open>White_Space\<close> property, which \<open>str::trim\<close> uses: the ASCII characters
  9 to 13 and 32, two characters of two bytes and seventeen of three bytes.
\<close>

section \<open>White space and trimming\<close>

definition ascii_ws :: "char \<Rightarrow> bool" where
  "ascii_ws c \<longleftrightarrow> c = CHR 0x20 \<or> c = CHR 0x09 \<or> c = CHR 0x0A \<or> c = CHR 0x0B
     \<or> c = CHR 0x0C \<or> c = CHR 0x0D"

text \<open>U+0085 and U+00A0.\<close>

definition ws2 :: "char \<Rightarrow> char \<Rightarrow> bool" where
  "ws2 a b \<longleftrightarrow> a = CHR 0xC2 \<and> (b = CHR 0x85 \<or> b = CHR 0xA0)"

text \<open>U+1680, U+2000 to U+200A, U+2028, U+2029, U+202F, U+205F and U+3000.\<close>

definition ws3 :: "char \<Rightarrow> char \<Rightarrow> char \<Rightarrow> bool" where
  "ws3 a b c \<longleftrightarrow>
     (a = CHR 0xE1 \<and> b = CHR 0x9A \<and> c = CHR 0x80)
   \<or> (a = CHR 0xE2 \<and> b = CHR 0x80
       \<and> (c = CHR 0x80 \<or> c = CHR 0x81 \<or> c = CHR 0x82 \<or> c = CHR 0x83 \<or> c = CHR 0x84
        \<or> c = CHR 0x85 \<or> c = CHR 0x86 \<or> c = CHR 0x87 \<or> c = CHR 0x88 \<or> c = CHR 0x89
        \<or> c = CHR 0x8A \<or> c = CHR 0xA8 \<or> c = CHR 0xA9 \<or> c = CHR 0xAF))
   \<or> (a = CHR 0xE2 \<and> b = CHR 0x81 \<and> c = CHR 0x9F)
   \<or> (a = CHR 0xE3 \<and> b = CHR 0x80 \<and> c = CHR 0x80)"

text \<open>
  One loop strips white space from the front. It takes the tests for the longer encodings
  as arguments, so that the same loop strips the reversed text from the back.
\<close>

fun strip_ws ::
  "(char \<Rightarrow> char \<Rightarrow> bool) \<Rightarrow> (char \<Rightarrow> char \<Rightarrow> char \<Rightarrow> bool) \<Rightarrow> string \<Rightarrow> string" where
  "strip_ws w2 w3 (a # b # c # s) =
     (if ascii_ws a then strip_ws w2 w3 (b # c # s)
      else if w2 a b then strip_ws w2 w3 (c # s)
      else if w3 a b c then strip_ws w2 w3 s
      else a # b # c # s)"
| "strip_ws w2 w3 [a, b] =
     (if ascii_ws a then strip_ws w2 w3 [b] else if w2 a b then [] else [a, b])"
| "strip_ws w2 w3 [a] = (if ascii_ws a then [] else [a])"
| "strip_ws w2 w3 [] = []"

definition trim_start :: "string \<Rightarrow> string" where
  "trim_start s = strip_ws ws2 ws3 s"

definition trim_end :: "string \<Rightarrow> string" where
  "trim_end s = rev (strip_ws (\<lambda>a b. ws2 b a) (\<lambda>a b c. ws3 c b a) (rev s))"

definition trim :: "string \<Rightarrow> string" where
  "trim s = trim_end (trim_start s)"

lemmas trim_eval [text_simps] = trim_def trim_start_def trim_end_def ascii_ws_def ws2_def ws3_def

lemma strip_ws_suffix: "suffix (strip_ws w2 w3 s) s"
  by (induction w2 w3 s rule: strip_ws.induct) (auto simp: suffix_ConsI)

lemma strip_ws_length: "length (strip_ws w2 w3 s) \<le> length s"
  by (rule suffix_length_le [OF strip_ws_suffix])

lemma strip_ws_idem: "strip_ws w2 w3 (strip_ws w2 w3 s) = strip_ws w2 w3 s"
  by (induction w2 w3 s rule: strip_ws.induct) auto

lemma strip_ws_neq_Cons:
  "strip_ws w2 w3 s \<noteq> a # s" "strip_ws w2 w3 s \<noteq> a # b # s" "strip_ws w2 w3 s \<noteq> a # b # c # s"
  using strip_ws_length [of w2 w3 s] by (auto dest: arg_cong [where f = length])

text \<open>What is left after stripping does not start with white space, nor does a prefix of it.\<close>

lemma strip_ws_prefix:
  assumes "strip_ws w2 w3 (p @ q) = p @ q"
  shows "strip_ws w2 w3 p = p"
proof (cases p)
  case (Cons a p1)
  show ?thesis
  proof (cases p1)
    case Nil
    with assms Cons show ?thesis
      by (cases q; cases "tl q") (auto simp: strip_ws_neq_Cons split: if_splits)
  next
    case (Cons b p2)
    note p1 = Cons
    show ?thesis
    proof (cases p2)
      case Nil
      with assms \<open>p = a # p1\<close> p1 show ?thesis
        by (cases q) (auto simp: strip_ws_neq_Cons split: if_splits)
    next
      case (Cons c p3)
      have "strip_ws w2 w3 (a # b # c # (p3 @ q)) = a # b # c # (p3 @ q)"
        using assms \<open>p = a # p1\<close> p1 Cons by simp
      then have "\<not> ascii_ws a \<and> \<not> w2 a b \<and> \<not> w3 a b c"
        using strip_ws_neq_Cons(1) [of w2 w3 "b # c # (p3 @ q)" a]
          strip_ws_neq_Cons(2) [of w2 w3 "c # (p3 @ q)" a b]
          strip_ws_neq_Cons(3) [of w2 w3 "p3 @ q" a b c]
        by (auto split: if_splits)
      with \<open>p = a # p1\<close> p1 Cons show ?thesis by simp
    qed
  qed
qed simp

lemma trim_start_idem [simp]: "trim_start (trim_start s) = trim_start s"
  by (simp add: trim_start_def strip_ws_idem)

lemma trim_end_idem [simp]: "trim_end (trim_end s) = trim_end s"
  by (simp add: trim_end_def strip_ws_idem)

lemma trim_end_prefix: "\<exists>v. s = trim_end s @ v"
proof -
  have "suffix (strip_ws (\<lambda>a b. ws2 b a) (\<lambda>a b c. ws3 c b a) (rev s)) (rev s)"
    by (rule strip_ws_suffix)
  then obtain u where "rev s = u @ strip_ws (\<lambda>a b. ws2 b a) (\<lambda>a b c. ws3 c b a) (rev s)"
    by (auto simp: suffix_def)
  then have "s = trim_end s @ rev u"
    unfolding trim_end_def by (metis rev_append rev_rev_ident)
  then show ?thesis ..
qed

lemma trim_start_trim_end: "trim_start s = s \<Longrightarrow> trim_start (trim_end s) = trim_end s"
  using trim_end_prefix [of s] strip_ws_prefix [of ws2 ws3 "trim_end s"]
  by (metis trim_start_def)

lemma trim_idem [simp]: "trim (trim s) = trim s"
  by (simp add: trim_def trim_start_trim_end)

lemma trim_Nil [simp]: "trim [] = []"
  by (simp add: trim_def trim_start_def trim_end_def)

lemma trim_start_trim [simp]: "trim_start (trim s) = trim s"
  by (simp add: trim_def trim_start_trim_end)

lemma trim_end_trim [simp]: "trim_end (trim s) = trim s"
  by (simp add: trim_def)

section \<open>ASCII case\<close>

definition ascii_upper_letter :: "char \<Rightarrow> bool" where
  "ascii_upper_letter c \<longleftrightarrow> 65 \<le> (of_char c :: nat) \<and> (of_char c :: nat) \<le> 90"

definition ascii_lower_letter :: "char \<Rightarrow> bool" where
  "ascii_lower_letter c \<longleftrightarrow> 97 \<le> (of_char c :: nat) \<and> (of_char c :: nat) \<le> 122"

text \<open>Upper and lower case letters differ in bit 5.\<close>

definition ascii_lower :: "char \<Rightarrow> char" where
  "ascii_lower c = (if ascii_upper_letter c
     then Char (digit0 c) (digit1 c) (digit2 c) (digit3 c) (digit4 c) True (digit6 c) (digit7 c)
     else c)"

definition ascii_upper :: "char \<Rightarrow> char" where
  "ascii_upper c = (if ascii_lower_letter c
     then Char (digit0 c) (digit1 c) (digit2 c) (digit3 c) (digit4 c) False (digit6 c) (digit7 c)
     else c)"

definition to_ascii_lowercase :: "string \<Rightarrow> string" where
  "to_ascii_lowercase s = map ascii_lower s"

definition to_ascii_uppercase :: "string \<Rightarrow> string" where
  "to_ascii_uppercase s = map ascii_upper s"

lemmas case_eval [text_simps] = to_ascii_lowercase_def to_ascii_uppercase_def ascii_lower_def
  ascii_upper_def ascii_upper_letter_def ascii_lower_letter_def

lemma to_ascii_lowercase_Nil [simp]: "to_ascii_lowercase s = [] \<longleftrightarrow> s = []"
  by (simp add: to_ascii_lowercase_def)

lemma to_ascii_lowercase_append [simp]:
  "to_ascii_lowercase (s @ t) = to_ascii_lowercase s @ to_ascii_lowercase t"
  by (simp add: to_ascii_lowercase_def)

text \<open>
  \<open>str::to_lowercase\<close>. For ASCII text it is the lower-casing of the letters. What it makes of
  other text is read off the tables of the Unicode Character Database, which are no code of
  the program; that part of it is the argument \<open>unicode\<close>, which takes the whole text because
  the lower case of a final sigma depends on its neighbours.
\<close>

definition ascii_text :: "string \<Rightarrow> bool" where
  "ascii_text s \<longleftrightarrow> list_all (\<lambda>c. (of_char c :: nat) < 128) s"

definition to_lowercase :: "(string \<Rightarrow> string) \<Rightarrow> string \<Rightarrow> string" where
  "to_lowercase unicode s = (if ascii_text s then map ascii_lower s else unicode s)"

lemmas to_lowercase_eval [text_simps] = to_lowercase_def ascii_text_def

lemma to_lowercase_ascii: "ascii_text s \<Longrightarrow> to_lowercase unicode s = to_ascii_lowercase s"
  by (simp add: to_lowercase_def to_ascii_lowercase_def)

section \<open>Prefixes\<close>

fun strip_prefix :: "string \<Rightarrow> string \<Rightarrow> string option" where
  "strip_prefix [] s = Some s"
| "strip_prefix (p # ps) [] = None"
| "strip_prefix (p # ps) (c # s) = (if p = c then strip_prefix ps s else None)"

definition starts_with :: "string \<Rightarrow> string \<Rightarrow> bool" where
  "starts_with p s \<longleftrightarrow> strip_prefix p s \<noteq> None"

lemmas starts_with_eval [text_simps] = starts_with_def

lemma strip_prefix_Some: "strip_prefix p s = Some r \<longleftrightarrow> s = p @ r"
  by (induction p s rule: strip_prefix.induct) auto

lemma strip_prefix_append [simp]: "strip_prefix p (p @ r) = Some r"
  by (simp add: strip_prefix_Some)

lemma starts_with_iff: "starts_with p s \<longleftrightarrow> (\<exists>r. s = p @ r)"
  by (auto simp: starts_with_def strip_prefix_Some)

lemma starts_with_append [simp]: "starts_with p (p @ r)"
  by (auto simp: starts_with_iff)

lemma strip_prefix_None: "strip_prefix p s = None \<longleftrightarrow> \<not> starts_with p s"
  by (auto simp: starts_with_def)

text \<open>\<open>trim_start_matches\<close> drops the pattern as often as it stands at the front.\<close>

function trim_start_matches :: "string \<Rightarrow> string \<Rightarrow> string" where
  "trim_start_matches p s =
     (if p = [] then s
      else case strip_prefix p s of None \<Rightarrow> s | Some r \<Rightarrow> trim_start_matches p r)"
  by pat_completeness auto
termination
  by (relation "measure (\<lambda>(p, s). length s)") (auto simp: strip_prefix_Some)

declare trim_start_matches.simps [simp del]

lemma trim_start_matches_eval [text_simps]:
  "trim_start_matches (c # p) s =
     (case strip_prefix (c # p) s of None \<Rightarrow> s | Some r \<Rightarrow> trim_start_matches (c # p) r)"
  by (subst trim_start_matches.simps) simp

lemma trim_start_matches_done: "p \<noteq> [] \<Longrightarrow> \<not> starts_with p (trim_start_matches p s)"
proof (induction p s rule: trim_start_matches.induct)
  case (1 p s)
  then show ?case
    by (subst trim_start_matches.simps) (auto simp: strip_prefix_None split: option.splits)
qed

lemma trim_start_matches_id: "\<not> starts_with p s \<Longrightarrow> trim_start_matches p s = s"
  by (subst trim_start_matches.simps) (auto simp: starts_with_def)

section \<open>Splitting\<close>

text \<open>\<open>s.split(c).next()\<close>, which always returns a piece, and \<open>s.split_once(c)\<close>.\<close>

definition split_first :: "char \<Rightarrow> string \<Rightarrow> string" where
  "split_first c s = takeWhile (\<lambda>x. x \<noteq> c) s"

definition split_once :: "char \<Rightarrow> string \<Rightarrow> (string \<times> string) option" where
  "split_once c s = (case dropWhile (\<lambda>x. x \<noteq> c) s of
     [] \<Rightarrow> None | _ # r \<Rightarrow> Some (takeWhile (\<lambda>x. x \<noteq> c) s, r))"

lemmas split_eval [text_simps] = split_first_def split_once_def

lemma split_once_Some: "split_once c s = Some (a, b) \<longleftrightarrow> s = a @ c # b \<and> c \<notin> set a"
proof
  assume *: "split_once c s = Some (a, b)"
  then obtain x r where d: "dropWhile (\<lambda>x. x \<noteq> c) s = x # r"
    by (auto simp: split_once_def split: list.splits)
  then have "x = c" by (simp add: dropWhile_eq_Cons_conv)
  from d * have a: "a = takeWhile (\<lambda>x. x \<noteq> c) s" and "b = r" by (auto simp: split_once_def)
  then have "s = a @ c # b"
    using takeWhile_dropWhile_id [of "\<lambda>x. x \<noteq> c" s] d \<open>x = c\<close> by simp
  moreover have "c \<notin> set a" using a by (auto dest: set_takeWhileD)
  ultimately show "s = a @ c # b \<and> c \<notin> set a" by simp
next
  assume "s = a @ c # b \<and> c \<notin> set a"
  then show "split_once c s = Some (a, b)"
    by (auto simp: split_once_def takeWhile_append dropWhile_append)
qed

lemma split_once_None: "split_once c s = None \<longleftrightarrow> c \<notin> set s"
proof (cases "c \<in> set s")
  case True
  then obtain a b where "s = a @ c # b" "c \<notin> set a" by (metis split_list_first)
  then show ?thesis using split_once_Some [of c s a b] by simp
next
  case False
  then have "\<forall>x\<in>set s. x \<noteq> c" by auto
  then have d: "dropWhile (\<lambda>x. x \<noteq> c) s = []" by (simp only: dropWhile_eq_Nil_conv)
  show ?thesis using False unfolding split_once_def d by simp
qed

section \<open>Numbers\<close>

definition digit_val :: "char \<Rightarrow> nat option" where
  "digit_val c = (let n = of_char c in if 48 \<le> n \<and> n \<le> 57 then Some (n - 48) else None)"

fun parse_digits :: "nat \<Rightarrow> string \<Rightarrow> nat option" where
  "parse_digits acc [] = Some acc"
| "parse_digits acc (c # s) =
     (case digit_val c of None \<Rightarrow> None | Some d \<Rightarrow> parse_digits (10 * acc + d) s)"

text \<open>
  \<open>s.parse::<u64>()\<close>: an optional plus sign, at least one digit, nothing else, and a value
  below \<open>2 ^ 64\<close>; \<open>None\<close> is \<open>ParseIntError\<close>. \<open>usize\<close> has 64 bits on the agent's targets.
\<close>

definition parse_u64 :: "string \<Rightarrow> nat option" where
  "parse_u64 s =
     (let d = (case s of [] \<Rightarrow> [] | c # r \<Rightarrow> if c = CHR ''+'' then r else s)
      in if d = [] then None
         else case parse_digits 0 d of
             None \<Rightarrow> None
           | Some n \<Rightarrow> if n < 2 ^ 64 then Some n else None)"

lemmas parse_eval [text_simps] = parse_u64_def digit_val_def

lemma parse_u64_bound: "parse_u64 s = Some n \<Longrightarrow> n < 2 ^ 64"
  by (auto simp: parse_u64_def Let_def split: option.splits if_splits)

text \<open>Decimal output, as \<open>format!("{n}")\<close> prints it.\<close>

definition digit_char :: "nat \<Rightarrow> char" where
  "digit_char d = char_of (48 + d)"

fun show_nat :: "nat \<Rightarrow> string" where
  "show_nat n = (if n < 10 then [digit_char n] else show_nat (n div 10) @ [digit_char (n mod 10)])"

declare show_nat.simps [simp del]

lemma digit_val_char: "d < 10 \<Longrightarrow> digit_val (digit_char d) = Some d"
  by (simp add: digit_val_def digit_char_def Let_def)

lemma parse_digits_append:
  "parse_digits acc (s @ t) =
     (case parse_digits acc s of None \<Rightarrow> None | Some n \<Rightarrow> parse_digits n t)"
  by (induction acc s rule: parse_digits.induct) (auto split: option.splits)

lemma parse_digits_show_nat: "parse_digits 0 (show_nat n) = Some n"
proof (induction n rule: show_nat.induct)
  case (1 n)
  then show ?case
    by (subst show_nat.simps) (auto simp: digit_val_char parse_digits_append)
qed

lemma show_nat_hd: "\<exists>d s. d < 10 \<and> show_nat n = digit_char d # s"
proof (induction n rule: show_nat.induct)
  case (1 n)
  show ?case
  proof (cases "n < 10")
    case True
    then show ?thesis by (subst show_nat.simps) auto
  next
    case False
    with 1 obtain d s where "d < 10" "show_nat (n div 10) = digit_char d # s" by blast
    with False have "show_nat n = digit_char d # s @ [digit_char (n mod 10)]"
      by (subst show_nat.simps) simp
    with \<open>d < 10\<close> show ?thesis by blast
  qed
qed

lemma parse_u64_show_nat: "n < 2 ^ 64 \<Longrightarrow> parse_u64 (show_nat n) = Some n"
proof -
  assume n: "n < 2 ^ 64"
  obtain d s where d: "d < 10" "show_nat n = digit_char d # s"
    using show_nat_hd by blast
  then have "digit_char d \<noteq> CHR ''+''"
    using digit_val_char [of d] by (auto simp: digit_val_def Let_def)
  with d n show ?thesis
    using parse_digits_show_nat [of n] by (simp add: parse_u64_def)
qed

end
