(* ===== verification/Rust_Path.thy ===== *)
theory Rust_Path
  imports Rust_Text
begin

text \<open>
  \<open>std::path::Path\<close> on Unix: a path is the list of its components, which is what
  \<open>Path\<close> compares. Repeated and trailing slashes and inner \<open>.\<close> segments leave no component.
\<close>

datatype component = RootDir | CurDir | ParentDir | Normal string

type_synonym path = "component list"

fun split_all :: "char \<Rightarrow> string \<Rightarrow> string list" where
  "split_all c [] = [[]]"
| "split_all c (x # s) =
     (if x = c then [] # split_all c s
      else case split_all c s of [] \<Rightarrow> [[x]] | w # ws \<Rightarrow> (x # w) # ws)"

fun inner_components :: "string list \<Rightarrow> path" where
  "inner_components [] = []"
| "inner_components (w # ws) =
     (if w = [] \<or> w = ''.'' then inner_components ws
      else (if w = ''..'' then ParentDir else Normal w) # inner_components ws)"

definition path_of :: "string \<Rightarrow> path" where
  "path_of s =
     (if starts_with ''/'' s then RootDir # inner_components (split_all CHR ''/'' s)
      else case split_all CHR ''/'' s of
          [] \<Rightarrow> []
        | w # ws \<Rightarrow> (if w = ''.'' then [CurDir] else []) @ inner_components (w # ws))"

text \<open>\<open>Path::parent\<close>, \<open>Path::file_name\<close> and \<open>Path::with_file_name\<close>.\<close>

definition path_parent :: "path \<Rightarrow> path option" where
  "path_parent p = (if p = [] \<or> last p = RootDir then None else Some (butlast p))"

definition path_file_name :: "path \<Rightarrow> string option" where
  "path_file_name p = (if p = [] then None else case last p of Normal n \<Rightarrow> Some n | _ \<Rightarrow> None)"

definition path_with_file_name :: "path \<Rightarrow> string \<Rightarrow> path" where
  "path_with_file_name p n =
     (if path_file_name p = None then p @ [Normal n] else butlast p @ [Normal n])"

text \<open>\<open>Path::display\<close>, for a path written without redundant segments.\<close>

fun component_text :: "component \<Rightarrow> string" where
  "component_text RootDir = []"
| "component_text CurDir = ''.''"
| "component_text ParentDir = ''..''"
| "component_text (Normal n) = n"

fun path_text :: "path \<Rightarrow> string" where
  "path_text [] = []"
| "path_text [RootDir] = ''/''"
| "path_text [c] = component_text c"
| "path_text (c # cs) = component_text c @ ''/'' @ path_text cs"

lemmas path_eval [text_simps] = path_of_def path_parent_def path_file_name_def path_with_file_name_def

lemma path_file_name_Some:
  "path_file_name p = Some n \<longleftrightarrow> (\<exists>d. p = d @ [Normal n])"
proof
  assume "path_file_name p = Some n"
  then have "p \<noteq> []" "last p = Normal n"
    by (auto simp: path_file_name_def split: if_splits component.splits)
  then show "\<exists>d. p = d @ [Normal n]" by (metis append_butlast_last_id)
qed (auto simp: path_file_name_def)

lemma path_with_file_name_eq: "path_with_file_name (d @ [Normal m]) n = d @ [Normal n]"
  by (simp add: path_with_file_name_def path_file_name_def)

end
