(* ===== verification/Command_Ledger.thy ===== *)
theory Command_Ledger
  imports Rust_Path
begin

text \<open>
  The command ledger (\<open>src/src/agent/command_ledger.rs\<close>): one SQLite table that records
  every command the agent was given, so that a command is executed at most once even when
  the hypervisor sends it again or the agent restarts.

  The connection is the state: the table, keyed by \<open>command_id\<close> (its primary key), the flag
  of a poisoned mutex and the script of statement failures. Each SQL statement of the source
  is one function on the table. SHA-256 and serde_json are parameters (\<open>libs\<close>).
\<close>

section \<open>Libraries the ledger and the command handler call\<close>

text \<open>
  \<open>sha256_hex\<close> is the hexadecimal SHA-256 digest of the bytes. \<open>json_from_str\<close> is
  \<open>serde_json::from_str\<close>, with the text of the parse error in \<open>Inl\<close>. \<open>json_get_str v k\<close> is
  \<open>v.get(k).and_then(Value::as_str)\<close>, and \<open>json_empty\<close> is \<open>json!({})\<close>.
  \<open>lib_unicode_lower\<close> is what \<open>str::to_lowercase\<close> makes of text beyond ASCII.
\<close>

record 'v libs =
  sha256_hex :: "string \<Rightarrow> string"
  json_from_str :: "string \<Rightarrow> string + 'v"
  json_get_str :: "'v \<Rightarrow> string \<Rightarrow> string option"
  json_empty :: 'v
  lib_unicode_lower :: "string \<Rightarrow> string"

section \<open>Rows, records and the connection\<close>

record row =
  row_command_id :: string
  row_command_type :: string
  row_payload_hash :: string
  row_resource_key :: "string option"
  row_status :: string
  row_result_json :: string
  row_error_message :: string
  row_created_at :: int
  row_started_at :: int
  row_completed_at :: "int option"
  row_updated_at :: int

record LedgerRecord =
  rec_command_id :: string
  rec_command_type :: string
  rec_payload_hash :: string
  rec_resource_key :: "string option"
  rec_status :: string
  rec_result_json :: string
  rec_error_message :: string

record CommandLedger =
  rows :: "string \<Rightarrow> row option"
  poisoned :: bool
  sql_faults :: "error option list"

datatype BeginOrGet =
    New LedgerRecord
  | Existing LedgerRecord
  | PayloadMismatch LedgerRecord

definition record_of_row :: "row \<Rightarrow> LedgerRecord" where
  "record_of_row r =
     \<lparr>rec_command_id = row_command_id r, rec_command_type = row_command_type r,
      rec_payload_hash = row_payload_hash r, rec_resource_key = row_resource_key r,
      rec_status = row_status r, rec_result_json = row_result_json r,
      rec_error_message = row_error_message r\<rparr>"

section \<open>Payload helpers\<close>

definition hash_payload :: "'v libs \<Rightarrow> string \<Rightarrow> string" where
  "hash_payload L payload_json = sha256_hex L (trim payload_json)"

definition resource_keys :: "string list" where
  "resource_keys = [''vps_id'', ''vm_id'', ''instance_id'', ''domain_id'', ''id'']"

text \<open>The first key, in this order, that holds a string with more than white space.\<close>

fun first_nonblank :: "('k \<Rightarrow> string option) \<Rightarrow> 'k list \<Rightarrow> string option" where
  "first_nonblank get [] = None"
| "first_nonblank get (k # ks) =
     (case get k of
        None \<Rightarrow> first_nonblank get ks
      | Some v \<Rightarrow> if trim v \<noteq> [] then Some (trim v) else first_nonblank get ks)"

definition extract_resource_key :: "'v libs \<Rightarrow> string \<Rightarrow> string option" where
  "extract_resource_key L payload_json =
     (case json_from_str L payload_json of
        Inl e \<Rightarrow> None
      | Inr v \<Rightarrow> first_nonblank (json_get_str L v) resource_keys)"

definition normalize_result_json :: "string \<Rightarrow> string" where
  "normalize_result_json value = (if trim value = [] then ''{}'' else value)"

section \<open>The SQL statements\<close>

text \<open>\<open>SELECT .. WHERE command_id = ?1\<close>, with the key trimmed, and \<open>.optional()\<close>.\<close>

definition load_record ::
  "CommandLedger \<Rightarrow> string \<Rightarrow> (error + LedgerRecord option) \<times> CommandLedger" where
  "load_record l command_id =
     (let (f, fs) = next_fault (sql_faults l); l' = l\<lparr>sql_faults := fs\<rparr>
      in case f of
           Some e \<Rightarrow> (Inl e, l')
         | None \<Rightarrow> (Inr (map_option record_of_row (rows l (trim command_id))), l'))"

text \<open>\<open>INSERT\<close>: the primary key makes it fail where the key is taken.\<close>

definition insert_row :: "CommandLedger \<Rightarrow> row \<Rightarrow> (error + unit) \<times> CommandLedger" where
  "insert_row l r =
     (let (f, fs) = next_fault (sql_faults l); l' = l\<lparr>sql_faults := fs\<rparr>
      in case f of
           Some e \<Rightarrow> (Inl e, l')
         | None \<Rightarrow>
             if rows l (row_command_id r) = None
             then (Inr (), l'\<lparr>rows := (rows l)(row_command_id r := Some r)\<rparr>)
             else (Inl [Lib ''UNIQUE constraint failed: command_ledger.command_id''], l'))"

text \<open>\<open>UPDATE .. WHERE p\<close>: every row that satisfies the condition is rewritten.\<close>

definition update_rows ::
  "CommandLedger \<Rightarrow> (row \<Rightarrow> bool) \<Rightarrow> (row \<Rightarrow> row) \<Rightarrow> (error + unit) \<times> CommandLedger" where
  "update_rows l p g =
     (let (f, fs) = next_fault (sql_faults l); l' = l\<lparr>sql_faults := fs\<rparr>
      in case f of
           Some e \<Rightarrow> (Inl e, l')
         | None \<Rightarrow>
             (Inr (), l'\<lparr>rows := (\<lambda>k. map_option (\<lambda>r. if p r then g r else r) (rows l k))\<rparr>))"

definition lock_poisoned :: error where
  "lock_poisoned = anyhow ''command ledger lock poisoned''"

section \<open>Operations\<close>

definition new_row ::
  "'v libs \<Rightarrow> string \<Rightarrow> string \<Rightarrow> string \<Rightarrow> int \<Rightarrow> row" where
  "new_row L command_id command_type payload_json now =
     \<lparr>row_command_id = trim command_id, row_command_type = trim command_type,
      row_payload_hash = hash_payload L payload_json,
      row_resource_key = extract_resource_key L payload_json,
      row_status = ''running'', row_result_json = ''{}'', row_error_message = [],
      row_created_at = now, row_started_at = now, row_completed_at = None,
      row_updated_at = now\<rparr>"

definition begin_or_get ::
  "'v libs \<Rightarrow> CommandLedger \<Rightarrow> string \<Rightarrow> string \<Rightarrow> string \<Rightarrow> int
     \<Rightarrow> (error + BeginOrGet) \<times> CommandLedger" where
  "begin_or_get L l command_id command_type payload_json now =
     (let cid = trim command_id in
      if cid = [] then (Inl (anyhow ''command_id is required''), l)
      else let cty = trim command_type; ph = hash_payload L payload_json in
      if poisoned l then (Inl lock_poisoned, l)
      else case load_record l cid of
        (Inl e, l1) \<Rightarrow> (Inl e, l1)
      | (Inr (Some r), l1) \<Rightarrow>
          if rec_command_type r \<noteq> cty \<or> rec_payload_hash r \<noteq> ph
          then (Inr (PayloadMismatch r), l1)
          else (Inr (Existing r), l1)
      | (Inr None, l1) \<Rightarrow>
          (case insert_row l1 (new_row L command_id command_type payload_json now) of
             (Inl e, l2) \<Rightarrow> (Inl e, l2)
           | (Inr _, l2) \<Rightarrow>
               (case load_record l2 cid of
                  (Inl e, l3) \<Rightarrow> (Inl e, l3)
                | (Inr None, l3) \<Rightarrow> (Inl (anyhow ''command ledger insert verification failed''), l3)
                | (Inr (Some r), l3) \<Rightarrow> (Inr (New r), l3))))"

definition complete_row :: "string \<Rightarrow> string \<Rightarrow> string \<Rightarrow> int \<Rightarrow> row \<Rightarrow> row" where
  "complete_row status result_json error_message now r =
     r\<lparr>row_status := trim status, row_result_json := normalize_result_json result_json,
       row_error_message := trim error_message, row_completed_at := Some now,
       row_updated_at := now\<rparr>"

definition complete ::
  "CommandLedger \<Rightarrow> string \<Rightarrow> string \<Rightarrow> string \<Rightarrow> string \<Rightarrow> int
     \<Rightarrow> (error + unit) \<times> CommandLedger" where
  "complete l command_id status result_json error_message now =
     (if poisoned l then (Inl lock_poisoned, l)
      else update_rows l (\<lambda>r. row_command_id r = trim command_id)
        (complete_row status result_json error_message now))"

definition stale_row :: "int \<Rightarrow> row \<Rightarrow> row" where
  "stale_row now r =
     r\<lparr>row_status := ''failed'', row_error_message := ''agent_restart_before_completion'',
       row_completed_at := Some now, row_updated_at := now\<rparr>"

definition mark_stale_running_failed :: "CommandLedger \<Rightarrow> int \<Rightarrow> (error + unit) \<times> CommandLedger" where
  "mark_stale_running_failed l now =
     (if poisoned l then (Inl lock_poisoned, l)
      else update_rows l (\<lambda>r. row_status r = ''running'') (stale_row now))"

text \<open>
  \<open>CommandLedger::open\<close> on the table the file holds: creating the directory (made only
  where the path has a parent), opening the file and the \<open>CREATE TABLE IF NOT EXISTS\<close> may
  each fail (\<open>open_faults\<close>), the mutex is new, and commands a previous process left
  running are marked as failed.
\<close>

definition ledger_open ::
  "string \<Rightarrow> error option list \<Rightarrow> CommandLedger \<Rightarrow> int \<Rightarrow> error + CommandLedger" where
  "ledger_open path open_faults file now =
     (let path = trim path in
      if path = [] then Inl (anyhow ''agent command ledger path is required'')
      else let (dir, f1) = (case path_parent (path_of path) of
                 None \<Rightarrow> (None, open_faults)
               | Some parent \<Rightarrow>
                   (case next_fault open_faults of (f, f1) \<Rightarrow>
                      (map_option (context_err (''create command ledger dir '' @ path_text parent)) f,
                       f1)));
               (conn, f2) = next_fault f1; (create, f3) = next_fault f2 in
      case dir of Some e \<Rightarrow> Inl e | None \<Rightarrow>
      case conn of Some e \<Rightarrow> Inl (context_err (''open command ledger '' @ path) e) | None \<Rightarrow>
      case create of Some e \<Rightarrow> Inl e | None \<Rightarrow>
      (case mark_stale_running_failed (file\<lparr>poisoned := False\<rparr>) now of
         (Inl e, l) \<Rightarrow> Inl e
       | (Inr _, l) \<Rightarrow> Inr l))"

section \<open>The table's invariant\<close>

text \<open>Every row stands under its own key, and keys are trimmed and not empty.\<close>

definition ledger_wf :: "CommandLedger \<Rightarrow> bool" where
  "ledger_wf l \<longleftrightarrow>
     (\<forall>k r. rows l k = Some r \<longrightarrow> row_command_id r = k \<and> trim k = k \<and> k \<noteq> [])"

text \<open>What a reader of the table sees of a command.\<close>

definition ledger_find :: "CommandLedger \<Rightarrow> string \<Rightarrow> LedgerRecord option" where
  "ledger_find l k = map_option record_of_row (rows l k)"

definition empty_ledger :: CommandLedger where
  "empty_ledger = \<lparr>rows = Map.empty, poisoned = False, sql_faults = []\<rparr>"

lemma ledger_wf_empty [simp]: "ledger_wf empty_ledger"
  by (simp add: ledger_wf_def empty_ledger_def)

lemma record_of_row_simps [simp]:
  "rec_command_id (record_of_row r) = row_command_id r"
  "rec_command_type (record_of_row r) = row_command_type r"
  "rec_payload_hash (record_of_row r) = row_payload_hash r"
  "rec_resource_key (record_of_row r) = row_resource_key r"
  "rec_status (record_of_row r) = row_status r"
  "rec_result_json (record_of_row r) = row_result_json r"
  "rec_error_message (record_of_row r) = row_error_message r"
  by (simp_all add: record_of_row_def)

lemma new_row_simps [simp]:
  "row_command_id (new_row L i t p n) = trim i"
  "row_command_type (new_row L i t p n) = trim t"
  "row_payload_hash (new_row L i t p n) = hash_payload L p"
  "row_resource_key (new_row L i t p n) = extract_resource_key L p"
  "row_status (new_row L i t p n) = ''running''"
  "row_result_json (new_row L i t p n) = ''{}''"
  "row_error_message (new_row L i t p n) = []"
  "row_completed_at (new_row L i t p n) = None"
  by (simp_all add: new_row_def)

lemma complete_row_simps [simp]:
  "row_command_id (complete_row st rj em n r) = row_command_id r"
  "record_of_row (complete_row st rj em n r) = (record_of_row r)\<lparr>rec_status := trim st,
     rec_result_json := normalize_result_json rj, rec_error_message := trim em\<rparr>"
  by (simp_all add: complete_row_def record_of_row_def)

lemma stale_row_simps [simp]:
  "row_command_id (stale_row n r) = row_command_id r"
  "row_status (stale_row n r) = ''failed''"
  "record_of_row (stale_row n r) = (record_of_row r)\<lparr>rec_status := ''failed'',
     rec_error_message := ''agent_restart_before_completion''\<rparr>"
  by (simp_all add: stale_row_def record_of_row_def)

text \<open>Each statement either fails and leaves the table alone or has its full effect.\<close>

lemma load_record_cases:
  obtains (sql_err) e l' where "load_record l i = (Inl e, l')" "rows l' = rows l"
      "poisoned l' = poisoned l"
  | (sql_ok) l' where "load_record l i = (Inr (ledger_find l (trim i)), l')" "rows l' = rows l"
      "poisoned l' = poisoned l" "sql_faults l' = tl (sql_faults l)"
proof (cases "sql_faults l" rule: next_fault_cases)
  case 1
  then show ?thesis
    by (intro sql_ok [of "l\<lparr>sql_faults := tl (sql_faults l)\<rparr>"])
       (simp_all add: load_record_def ledger_find_def)
next
  case (2 e)
  then show ?thesis
    by (intro sql_err [of e "l\<lparr>sql_faults := tl (sql_faults l)\<rparr>"]) (simp_all add: load_record_def)
qed

lemma insert_row_cases:
  obtains (sql_err) e l' where "insert_row l r = (Inl e, l')" "rows l' = rows l"
      "poisoned l' = poisoned l"
  | (sql_ok) l' where "insert_row l r = (Inr (), l')" "rows l (row_command_id r) = None"
      "rows l' = (rows l)(row_command_id r := Some r)" "poisoned l' = poisoned l"
proof (cases "fst (next_fault (sql_faults l)) = None \<and> rows l (row_command_id r) = None")
  case True
  then show ?thesis
    by (intro sql_ok [of "l\<lparr>sql_faults := snd (next_fault (sql_faults l)),
          rows := (rows l)(row_command_id r := Some r)\<rparr>"])
       (auto simp: insert_row_def split: prod.splits)
next
  case False
  then obtain e where "insert_row l r = (Inl e, l\<lparr>sql_faults := snd (next_fault (sql_faults l))\<rparr>)"
    by (cases "next_fault (sql_faults l)"; cases "fst (next_fault (sql_faults l))")
       (auto simp: insert_row_def)
  then show ?thesis by (rule sql_err) simp_all
qed

lemma update_rows_cases:
  obtains (sql_err) e l' where "update_rows l p g = (Inl e, l')" "rows l' = rows l"
      "poisoned l' = poisoned l"
  | (sql_ok) l' where "update_rows l p g = (Inr (), l')"
      "rows l' = (\<lambda>k. map_option (\<lambda>r. if p r then g r else r) (rows l k))"
      "poisoned l' = poisoned l"
proof (cases "sql_faults l" rule: next_fault_cases)
  case 1
  then show ?thesis
    by (intro sql_ok [of "l\<lparr>sql_faults := tl (sql_faults l),
          rows := (\<lambda>k. map_option (\<lambda>r. if p r then g r else r) (rows l k))\<rparr>"])
       (simp_all add: update_rows_def)
next
  case (2 e)
  then show ?thesis
    by (intro sql_err [of e "l\<lparr>sql_faults := tl (sql_faults l)\<rparr>"]) (simp_all add: update_rows_def)
qed

text \<open>The four ways \<open>begin_or_get\<close> can end, with what each leaves in the table.\<close>

lemma begin_or_get_cases:
  obtains (failed) e l' where "begin_or_get L l i t p n = (Inl e, l')"
      "rows l' = rows l \<or> (trim i \<noteq> [] \<and> rows l (trim i) = None
         \<and> rows l' = (rows l)(trim i := Some (new_row L i t p n)))"
      "poisoned l' = poisoned l"
  | (fresh) l' where
      "begin_or_get L l i t p n = (Inr (New (record_of_row (new_row L i t p n))), l')"
      "trim i \<noteq> []" "rows l (trim i) = None"
      "rows l' = (rows l)(trim i := Some (new_row L i t p n))" "poisoned l' = poisoned l"
  | (existing) r l' where "begin_or_get L l i t p n = (Inr (Existing r), l')" "trim i \<noteq> []"
      "ledger_find l (trim i) = Some r" "rec_command_type r = trim t"
      "rec_payload_hash r = hash_payload L p" "rows l' = rows l" "poisoned l' = poisoned l"
  | (mismatch) r l' where "begin_or_get L l i t p n = (Inr (PayloadMismatch r), l')" "trim i \<noteq> []"
      "ledger_find l (trim i) = Some r"
      "rec_command_type r \<noteq> trim t \<or> rec_payload_hash r \<noteq> hash_payload L p"
      "rows l' = rows l" "poisoned l' = poisoned l"
proof -
  consider (blank) "trim i = []" | (locked) "trim i \<noteq> []" "poisoned l"
    | (go) "trim i \<noteq> []" "\<not> poisoned l" by blast
  then show ?thesis
  proof cases
    case blank
    then show ?thesis
      by (intro failed [of "anyhow ''command_id is required''" l]) (simp_all add: begin_or_get_def)
  next
    case locked
    then show ?thesis by (intro failed [of lock_poisoned l]) (simp_all add: begin_or_get_def Let_def)
  next
    case go
    show ?thesis
    proof (cases rule: load_record_cases [of l "trim i"])
      case (sql_err e l')
      with go show ?thesis by (intro failed [of e l']) (simp_all add: begin_or_get_def Let_def)
    next
      case (sql_ok l1)
      show ?thesis
      proof (cases "ledger_find l (trim i)")
        case (Some r)
        with go sql_ok show ?thesis
          by (cases "rec_command_type r \<noteq> trim t \<or> rec_payload_hash r \<noteq> hash_payload L p")
             (auto simp: begin_or_get_def Let_def intro: existing mismatch)
      next
        case None
        then have none: "rows l (trim i) = None" by (simp add: ledger_find_def)
        note first = go sql_ok None
        show ?thesis
        proof (cases rule: insert_row_cases [of l1 "new_row L i t p n"])
          case (sql_err e l2)
          with first show ?thesis
            by (intro failed [of e l2]) (simp_all add: begin_or_get_def Let_def)
        next
          case (sql_ok l2)
          note ins = this
          show ?thesis
          proof (cases rule: load_record_cases [of l2 "trim i"])
            case (sql_err e l3)
            with first ins none show ?thesis
              by (intro failed [of e l3]) (simp_all add: begin_or_get_def Let_def)
          next
            case (sql_ok l3)
            with first ins none show ?thesis
              by (intro fresh [of l3]) (simp_all add: begin_or_get_def Let_def ledger_find_def)
          qed
        qed
      qed
    qed
  qed
qed

lemma complete_cases:
  obtains (failed) e l' where "complete l i s rj em n = (Inl e, l')" "rows l' = rows l"
      "poisoned l' = poisoned l"
  | (ok) l' where "complete l i s rj em n = (Inr (), l')" "poisoned l' = poisoned l"
      "rows l' = (\<lambda>k. map_option (\<lambda>r. if row_command_id r = trim i
         then complete_row s rj em n r else r) (rows l k))"
proof (cases "poisoned l")
  case True
  then show ?thesis by (intro failed) (auto simp: complete_def)
next
  case False
  show ?thesis
    by (rule update_rows_cases [of l "\<lambda>r. row_command_id r = trim i"
          "complete_row s rj em n"])
       (use False in \<open>auto simp: complete_def intro: failed ok\<close>)
qed

lemma ledger_open_Inr:
  assumes "ledger_open path fs l n = Inr l'"
  shows "rows l' = (\<lambda>k. map_option (\<lambda>r. if row_status r = ''running'' then stale_row n r else r)
      (rows l k))" and "\<not> poisoned l'"
    and "trim path \<noteq> []"
proof -
  have mark: "\<exists>u. mark_stale_running_failed (l\<lparr>poisoned := False\<rparr>) n = (Inr u, l')"
    and path: "trim path \<noteq> []"
    using assms by (auto simp: ledger_open_def Let_def
        split: if_splits prod.splits option.splits sum.splits)
  then obtain u where "mark_stale_running_failed (l\<lparr>poisoned := False\<rparr>) n = (Inr u, l')" by blast
  then show "rows l' = (\<lambda>k. map_option (\<lambda>r. if row_status r = ''running'' then stale_row n r else r)
      (rows l k))" "\<not> poisoned l'"
    using update_rows_cases [of "l\<lparr>poisoned := False\<rparr>" "\<lambda>r. row_status r = ''running''" "stale_row n"]
    by (auto simp: mark_stale_running_failed_def)
  show "trim path \<noteq> []" by (rule path)
qed

end
