(* ===== verification/Command_Store.thy ===== *)
theory Command_Store
  imports Command_Ledger
begin

text \<open>
  The contract of the command ledger, as the session's command handler relies on it, and the
  proof that the ledger of \<open>Command_Ledger\<close> honours it. The contract speaks of the record a
  command has (\<open>find\<close>), not of the table's columns: what each operation does to the record
  of the command it names, and that it leaves every other command alone, whatever statement
  fails on the way.
\<close>

section \<open>The effect of the operations on a record\<close>

definition settle_record :: "string \<Rightarrow> string \<Rightarrow> string \<Rightarrow> LedgerRecord \<Rightarrow> LedgerRecord" where
  "settle_record status result_json error_message r =
     r\<lparr>rec_status := trim status, rec_result_json := normalize_result_json result_json,
       rec_error_message := trim error_message\<rparr>"

definition stale_record :: "LedgerRecord \<Rightarrow> LedgerRecord" where
  "stale_record r = (if rec_status r = ''running''
     then r\<lparr>rec_status := ''failed'', rec_error_message := ''agent_restart_before_completion''\<rparr>
     else r)"

lemma stale_record_idem [simp]: "stale_record (stale_record r) = stale_record r"
  by (simp add: stale_record_def)

lemma stale_record_settled: "rec_status r \<noteq> ''running'' \<Longrightarrow> stale_record r = r"
  by (simp add: stale_record_def)

section \<open>Runs of a store\<close>

text \<open>
  A run is any sequence of calls; \<open>OpReopen\<close> is a restart of the agent, which stays on the
  table it had where \<open>open\<close> fails. A run returns the identifiers \<open>begin\<close> called new, in
  order: these are the commands the agent executes.
\<close>

datatype cmd_op =
    OpBegin string string string int
  | OpComplete string string string string int
  | OpReopen string "error option list" int

type_synonym 's begin_fn =
  "'s \<Rightarrow> string \<Rightarrow> string \<Rightarrow> string \<Rightarrow> int \<Rightarrow> (error + BeginOrGet) \<times> 's"
type_synonym 's complete_fn =
  "'s \<Rightarrow> string \<Rightarrow> string \<Rightarrow> string \<Rightarrow> string \<Rightarrow> int \<Rightarrow> (error + unit) \<times> 's"
type_synonym 's open_fn = "string \<Rightarrow> error option list \<Rightarrow> 's \<Rightarrow> int \<Rightarrow> error + 's"

fun store_step ::
  "'s begin_fn \<Rightarrow> 's complete_fn \<Rightarrow> 's open_fn \<Rightarrow> 's \<Rightarrow> cmd_op \<Rightarrow> string list \<times> 's" where
  "store_step bg cp op s (OpBegin i t p n) =
     (case bg s i t p n of (Inr (New r), s') \<Rightarrow> ([trim i], s') | (_, s') \<Rightarrow> ([], s'))"
| "store_step bg cp op s (OpComplete i st rj em n) = ([], snd (cp s i st rj em n))"
| "store_step bg cp op s (OpReopen path fs n) =
     ([], case op path fs s n of Inl e \<Rightarrow> s | Inr s' \<Rightarrow> s')"

fun store_run ::
  "'s begin_fn \<Rightarrow> 's complete_fn \<Rightarrow> 's open_fn \<Rightarrow> 's \<Rightarrow> cmd_op list \<Rightarrow> string list \<times> 's" where
  "store_run bg cp op s [] = ([], s)"
| "store_run bg cp op s (x # xs) =
     (let (ids, s1) = store_step bg cp op s x; (ids', s2) = store_run bg cp op s1 xs
      in (ids @ ids', s2))"

lemma store_step_snd [simp]:
  "snd (store_step bg cp op s (OpBegin i t p n)) = snd (bg s i t p n)"
  by (auto split: prod.splits sum.splits BeginOrGet.splits)

lemma store_step_fst:
  "k \<in> set (fst (store_step bg cp op s x)) \<Longrightarrow>
     \<exists>i t p n r s'. x = OpBegin i t p n \<and> k = trim i \<and> bg s i t p n = (Inr (New r), s')
       \<and> store_step bg cp op s x = ([trim i], s')"
  by (cases x) (auto split: prod.splits sum.splits BeginOrGet.splits)

lemma store_run_Cons [simp]:
  "store_run bg cp op s (x # xs) =
     (fst (store_step bg cp op s x) @ fst (store_run bg cp op (snd (store_step bg cp op s x)) xs),
      snd (store_run bg cp op (snd (store_step bg cp op s x)) xs))"
  by (simp add: Let_def split: prod.splits)

declare store_run.simps(2) [simp del] store_step.simps(1) [simp del]

fun completes :: "string \<Rightarrow> cmd_op \<Rightarrow> bool" where
  "completes k (OpComplete i st rj em n) \<longleftrightarrow> trim i = k"
| "completes k _ \<longleftrightarrow> False"

section \<open>The contract\<close>

locale command_store =
  fixes begin_cmd :: "'s begin_fn"
    and complete_cmd :: "'s complete_fn"
    and open_cmd :: "'s open_fn"
    and find :: "'s \<Rightarrow> string \<Rightarrow> LedgerRecord option"
    and inv :: "'s \<Rightarrow> bool"
    and same_request :: "LedgerRecord \<Rightarrow> string \<Rightarrow> string \<Rightarrow> bool"
  assumes inv_begin: "inv s \<Longrightarrow> inv (snd (begin_cmd s i t p n))"
    and inv_complete: "inv s \<Longrightarrow> inv (snd (complete_cmd s i st rj em n))"
    and inv_open: "inv s \<Longrightarrow> open_cmd path fs s n = Inr s' \<Longrightarrow> inv s'"
    and find_begin_other:
      "inv s \<Longrightarrow> k \<noteq> trim i \<Longrightarrow> find (snd (begin_cmd s i t p n)) k = find s k"
    and find_begin_known:
      "inv s \<Longrightarrow> find s k = Some r \<Longrightarrow> find (snd (begin_cmd s i t p n)) k = Some r"
    and begin_new: "inv s \<Longrightarrow> begin_cmd s i t p n = (Inr (New r), s') \<Longrightarrow>
      find s (trim i) = None \<and> find s' (trim i) = Some r"
    and begin_known: "inv s \<Longrightarrow> find s (trim i) = Some r \<Longrightarrow> begin_cmd s i t p n = (Inr x, s') \<Longrightarrow>
      x = (if same_request r t p then Existing r else PayloadMismatch r)"
    and find_complete_other:
      "inv s \<Longrightarrow> k \<noteq> trim i \<Longrightarrow> find (snd (complete_cmd s i st rj em n)) k = find s k"
    and find_complete: "inv s \<Longrightarrow> complete_cmd s i st rj em n = (Inr u, s') \<Longrightarrow>
      find s' (trim i) = map_option (settle_record st rj em) (find s (trim i))"
    and find_complete_failed: "inv s \<Longrightarrow> complete_cmd s i st rj em n = (Inl e, s') \<Longrightarrow>
      find s' (trim i) = find s (trim i)"
    and find_open: "inv s \<Longrightarrow> open_cmd path fs s n = Inr s' \<Longrightarrow>
      find s' k = map_option stale_record (find s k)"
begin

abbreviation step :: "'s \<Rightarrow> cmd_op \<Rightarrow> string list \<times> 's" where
  "step \<equiv> store_step begin_cmd complete_cmd open_cmd"

abbreviation run :: "'s \<Rightarrow> cmd_op list \<Rightarrow> string list \<times> 's" where
  "run \<equiv> store_run begin_cmd complete_cmd open_cmd"

lemma inv_step: "inv s \<Longrightarrow> inv (snd (step s x))"
  by (cases x) (auto simp: inv_begin inv_complete intro: inv_open split: sum.splits)

lemma inv_run: "inv s \<Longrightarrow> inv (snd (run s xs))"
  by (induction xs arbitrary: s) (simp_all add: inv_step)

text \<open>A command the store knows stays known.\<close>

lemma known_step:
  assumes "inv s" and "find s k \<noteq> None"
  shows "find (snd (step s x)) k \<noteq> None"
proof (cases x)
  case (OpBegin i t p n)
  have "find (snd (begin_cmd s i t p n)) k \<noteq> None"
    using find_begin_known [OF assms(1)] assms(2) by auto
  with OpBegin show ?thesis by simp
next
  case (OpComplete i st rj em n)
  obtain r s' where c: "complete_cmd s i st rj em n = (r, s')" by (meson surj_pair)
  show ?thesis
  proof (cases "k = trim i")
    case False
    with OpComplete assms show ?thesis by (simp add: find_complete_other)
  next
    case True
    have "find s' k \<noteq> None"
    proof (cases r)
      case (Inl e)
      then have "find s' k = find s k"
        using c True find_complete_failed [OF assms(1), of i st rj em n e s'] by blast
      with assms(2) show ?thesis by (simp only: not_False_eq_True)
    next
      case (Inr u)
      then have "find s' k = map_option (settle_record st rj em) (find s k)"
        using c True find_complete [OF assms(1), of i st rj em n u s'] by blast
      with assms(2) show ?thesis by (simp only: option.map_disc_iff not_False_eq_True)
    qed
    with OpComplete c show ?thesis by simp
  qed
next
  case (OpReopen path fs n)
  with assms show ?thesis by (auto simp: find_open split: sum.splits)
qed

text \<open>An identifier a step calls new was unknown before it and is known after it.\<close>

lemma new_step:
  assumes "inv s" and "k \<in> set (fst (step s x))"
  shows "find s k = None" and "find (snd (step s x)) k \<noteq> None" and "fst (step s x) = [k]"
  using store_step_fst [OF assms(2)] begin_new [OF assms(1)] by auto

lemma new_run_unknown: "inv s \<Longrightarrow> k \<in> set (fst (run s xs)) \<Longrightarrow> find s k = None"
proof (induction xs arbitrary: s)
  case (Cons x xs)
  show ?case
  proof (cases "k \<in> set (fst (step s x))")
    case True
    with Cons.prems show ?thesis by (blast intro: new_step(1))
  next
    case False
    with Cons have "find (snd (step s x)) k = None" by (simp add: inv_step)
    with Cons.prems(1) show ?thesis using known_step by blast
  qed
qed simp

lemma new_run_distinct: "inv s \<Longrightarrow> distinct (fst (run s xs))"
proof (induction xs arbitrary: s)
  case (Cons x xs)
  let ?s1 = "snd (step s x)"
  have inv1: "inv ?s1" using Cons.prems by (rule inv_step)
  have "set (fst (step s x)) \<inter> set (fst (run ?s1 xs)) = {}"
    using new_step(2) [OF Cons.prems, of _ x] new_run_unknown [OF inv1, of _ xs] by blast
  moreover have "distinct (fst (step s x))"
  proof (cases "fst (step s x)")
    case (Cons k ks)
    then have "fst (step s x) = [k]" using new_step(3) [OF \<open>inv s\<close>, of k x] by simp
    then show ?thesis by simp
  qed simp
  ultimately show ?case using Cons.IH [OF inv1] by simp
qed simp

text \<open>A settled record survives every run that does not complete its command again.\<close>

lemma settled_step:
  assumes "inv s" and "find s k = Some r" and "rec_status r \<noteq> ''running''" and "\<not> completes k x"
  shows "find (snd (step s x)) k = Some r"
proof (cases x)
  case (OpBegin i t p n)
  then show ?thesis using assms by (simp add: find_begin_known)
next
  case (OpComplete i st rj em n)
  then show ?thesis using assms by (simp add: find_complete_other)
next
  case (OpReopen path fs n)
  then show ?thesis
    using assms by (auto simp: find_open stale_record_settled split: sum.splits)
qed

lemma settled_run:
  assumes "inv s" and "find s k = Some r" and "rec_status r \<noteq> ''running''"
    and "\<forall>x\<in>set xs. \<not> completes k x"
  shows "find (snd (run s xs)) k = Some r"
  using assms
proof (induction xs arbitrary: s)
  case (Cons x xs)
  then show ?case by (simp add: inv_step settled_step)
qed simp

end

section \<open>The ledger honours the contract\<close>

definition same_request :: "'v libs \<Rightarrow> LedgerRecord \<Rightarrow> string \<Rightarrow> string \<Rightarrow> bool" where
  "same_request L r command_type payload_json \<longleftrightarrow>
     rec_command_type r = trim command_type \<and> rec_payload_hash r = hash_payload L payload_json"

lemma wf_same_rows: "ledger_wf l \<Longrightarrow> rows l' = rows l \<Longrightarrow> ledger_wf l'"
  by (simp add: ledger_wf_def)

lemma wf_insert:
  "ledger_wf l \<Longrightarrow> trim i \<noteq> [] \<Longrightarrow> rows l' = (rows l)(trim i := Some (new_row L i t p n)) \<Longrightarrow> ledger_wf l'"
  by (simp add: ledger_wf_def)

lemma wf_map:
  assumes "ledger_wf l" and "rows l' = (\<lambda>k. map_option g (rows l k))"
    and "\<And>r. row_command_id (g r) = row_command_id r"
  shows "ledger_wf l'"
  using assms by (fastforce simp: ledger_wf_def)

lemma find_same_rows: "rows l' = rows l \<Longrightarrow> ledger_find l' k = ledger_find l k"
  by (simp add: ledger_find_def)

lemma ledger_begin_wf: "ledger_wf l \<Longrightarrow> ledger_wf (snd (begin_or_get L l i t p n))"
  by (rule begin_or_get_cases [of L l i t p n]) (auto intro: wf_same_rows wf_insert)

lemma ledger_complete_wf: "ledger_wf l \<Longrightarrow> ledger_wf (snd (complete l i st rj em n))"
  by (rule complete_cases [of l i st rj em n]) (auto intro: wf_same_rows elim: wf_map)

lemma ledger_open_wf: "ledger_wf l \<Longrightarrow> ledger_open path fs l n = Inr l' \<Longrightarrow> ledger_wf l'"
  by (rule wf_map [OF _ ledger_open_Inr(1)]) auto

lemma ledger_begin_find_other:
  "k \<noteq> trim i \<Longrightarrow> ledger_find (snd (begin_or_get L l i t p n)) k = ledger_find l k"
  by (rule begin_or_get_cases [of L l i t p n]) (auto simp: ledger_find_def)

lemma ledger_begin_find_known:
  "ledger_find l k = Some r \<Longrightarrow> ledger_find (snd (begin_or_get L l i t p n)) k = Some r"
  by (rule begin_or_get_cases [of L l i t p n]) (auto simp: ledger_find_def)

lemma ledger_complete_find_other:
  assumes "ledger_wf l" and "k \<noteq> trim i"
  shows "ledger_find (snd (complete l i st rj em n)) k = ledger_find l k"
  using assms
  by (cases "rows l k"; cases rule: complete_cases [of l i st rj em n])
     (auto simp: ledger_find_def ledger_wf_def)

lemma ledger_complete_find:
  assumes "ledger_wf l" and "complete l i st rj em n = (Inr u, l')"
  shows "ledger_find l' (trim i) = map_option (settle_record st rj em) (ledger_find l (trim i))"
  using assms
  by (cases "rows l (trim i)"; cases rule: complete_cases [of l i st rj em n])
     (auto simp: ledger_find_def ledger_wf_def settle_record_def)

lemma ledger_open_find:
  "ledger_open path fs l n = Inr l' \<Longrightarrow> ledger_find l' k = map_option stale_record (ledger_find l k)"
  by (cases "rows l k") (auto simp: ledger_open_Inr(1) ledger_find_def stale_record_def)

interpretation lg: command_store "begin_or_get L" complete ledger_open ledger_find ledger_wf
    "same_request L" for L :: "'v libs"
proof unfold_locales
  fix l :: CommandLedger and i t p n k r l' x
  assume wf: "ledger_wf l"
  show "k \<noteq> trim i \<Longrightarrow> ledger_find (snd (begin_or_get L l i t p n)) k = ledger_find l k"
    by (rule ledger_begin_find_other)
  show "begin_or_get L l i t p n = (Inr (New r), l') \<Longrightarrow>
      ledger_find l (trim i) = None \<and> ledger_find l' (trim i) = Some r"
    by (rule begin_or_get_cases [of L l i t p n]) (auto simp: ledger_find_def)
  show "ledger_find l (trim i) = Some r \<Longrightarrow> begin_or_get L l i t p n = (Inr x, l') \<Longrightarrow>
      x = (if same_request L r t p then Existing r else PayloadMismatch r)"
    by (rule begin_or_get_cases [of L l i t p n]) (auto simp: ledger_find_def same_request_def)
next
  fix l :: CommandLedger and i st rj em n e l'
  assume "complete l i st rj em n = (Inl e, l')"
  then show "ledger_find l' (trim i) = ledger_find l (trim i)"
    by (cases rule: complete_cases [of l i st rj em n]) (auto intro: find_same_rows)
qed (auto intro: ledger_begin_wf ledger_complete_wf ledger_open_wf ledger_begin_find_known
      ledger_complete_find_other ledger_complete_find ledger_open_find)

section \<open>Properties\<close>

text \<open>
  C1. At most once: whatever the sequence of deliveries, completions and restarts, and
  whatever statement fails, \<open>begin_or_get\<close> calls no command identifier new twice, and none
  that the ledger already held.
\<close>

theorem ledger_new_at_most_once:
  assumes "ledger_wf l"
  shows "distinct (fst (store_run (begin_or_get L) complete ledger_open l xs))
    \<and> (\<forall>k. k \<in> set (fst (store_run (begin_or_get L) complete ledger_open l xs)) \<longrightarrow>
          ledger_find l k = None)"
  using assms lg.new_run_distinct lg.new_run_unknown by blast

text \<open>Two deliveries of one command around a restart: it is new once.\<close>

definition demo_libs :: "string libs" where
  "demo_libs = \<lparr>sha256_hex = rev, json_from_str = Inr, json_get_str = (\<lambda>v k. None), json_empty = [],
     lib_unicode_lower = id\<rparr>"

theorem ledger_new_at_most_once_witness:
  "ledger_wf empty_ledger
   \<and> fst (store_run (begin_or_get demo_libs) complete ledger_open empty_ledger
        [OpBegin ''c1'' ''start'' ''{}'' 1, OpReopen ''l.db'' [] 2, OpBegin '' c1 '' ''start'' ''{}'' 3]) = [''c1'']
   \<and> distinct (fst (store_run (begin_or_get demo_libs) complete ledger_open empty_ledger
        [OpBegin ''c1'' ''start'' ''{}'' 1, OpReopen ''l.db'' [] 2, OpBegin '' c1 '' ''start'' ''{}'' 3]))"
  using ledger_new_at_most_once [OF ledger_wf_empty, of demo_libs
      "[OpBegin ''c1'' ''start'' ''{}'' 1, OpReopen ''l.db'' [] 2, OpBegin '' c1 '' ''start'' ''{}'' 3]"]
  by (simp add: store_step.simps(1) begin_or_get_def empty_ledger_def demo_libs_def load_record_def
      insert_row_def new_row_def hash_payload_def extract_resource_key_def resource_keys_def
      record_of_row_def ledger_open_def mark_stale_running_failed_def update_rows_def stale_row_def
      ledger_wf_def text_simps Let_def)

text \<open>
  C4. Replay: once a new command has been completed with a final status, delivering it again,
  after any run of other deliveries, completions and restarts, returns exactly the recorded
  result.
\<close>

theorem ledger_result_replayed:
  assumes "ledger_wf l"
    and "begin_or_get L l i t p n = (Inr (New r), l1)"
    and "complete l1 i st rj em n1 = (Inr u, l2)" and "trim st \<noteq> ''running''"
    and "\<forall>x\<in>set xs. \<not> completes (trim i) x"
    and "begin_or_get L (snd (store_run (begin_or_get L) complete ledger_open l2 xs)) i t p n2 = (Inr x, l4)"
  shows "x = Existing (settle_record st rj em r)"
proof -
  let ?r = "settle_record st rj em r" and ?l3 = "snd (store_run (begin_or_get L) complete ledger_open l2 xs)"
  have wf: "ledger_wf l1" "ledger_wf l2"
    using assms(1-3) ledger_begin_wf ledger_complete_wf by (metis snd_conv)+
  have "ledger_find l2 (trim i) = Some ?r"
    using lg.begin_new [OF assms(1,2)] ledger_complete_find [OF wf(1) assms(3)] by simp
  then have "ledger_find ?l3 (trim i) = Some ?r"
    using assms(4,5) by (intro lg.settled_run [OF wf(2)]) (simp_all add: settle_record_def)
  moreover have "same_request L ?r t p"
    using assms(2) by (cases rule: begin_or_get_cases [of L l i t p n])
      (auto simp: same_request_def settle_record_def)
  ultimately show ?thesis
    using lg.begin_known [OF lg.inv_run [OF wf(2)] _ assms(6)] by simp
qed

theorem ledger_result_replayed_witness:
  "\<exists>r l1 l2 l4. begin_or_get demo_libs empty_ledger ''c1'' ''start'' ''{}'' 5 = (Inr (New r), l1)
     \<and> complete l1 ''c1'' ''succeeded'' ''{1}'' [] 6 = (Inr (), l2)
     \<and> begin_or_get demo_libs (snd (store_run (begin_or_get demo_libs) complete ledger_open l2
          [OpBegin ''c2'' ''stop'' [] 7, OpReopen ''l.db'' [] 8])) ''c1'' ''start'' ''{}'' 9
        = (Inr (Existing (settle_record ''succeeded'' ''{1}'' [] r)), l4)"
proof -
  let ?r = "record_of_row (new_row demo_libs ''c1'' ''start'' ''{}'' 5)"
  let ?b = "begin_or_get demo_libs empty_ledger ''c1'' ''start'' ''{}'' 5"
  let ?c = "complete (snd ?b) ''c1'' ''succeeded'' ''{1}'' [] 6"
  let ?xs = "[OpBegin ''c2'' ''stop'' [] 7, OpReopen ''l.db'' [] 8]"
  let ?l3 = "snd (store_run (begin_or_get demo_libs) complete ledger_open (snd ?c) ?xs)"
  let ?d = "begin_or_get demo_libs ?l3 ''c1'' ''start'' ''{}'' 9"
  note eval = store_step.simps(1) begin_or_get_def empty_ledger_def demo_libs_def load_record_def
      insert_row_def new_row_def hash_payload_def extract_resource_key_def resource_keys_def
      record_of_row_def ledger_open_def mark_stale_running_failed_def update_rows_def stale_row_def
      complete_def complete_row_def normalize_result_json_def text_simps Let_def
  have b: "fst ?b = Inr (New ?r)" by (simp add: eval)
  have c: "fst ?c = Inr ()" by (simp add: eval)
  have d: "\<exists>x. fst ?d = Inr x" by (simp add: eval)
  then obtain x where x: "fst ?d = Inr x" ..
  have "x = Existing (settle_record ''succeeded'' ''{1}'' [] ?r)"
    using b c x by (intro ledger_result_replayed [of empty_ledger demo_libs "''c1''" "''start''" "''{}''" 5 ?r
          "snd ?b" "''succeeded''" "''{1}''" "[]" 6 "()" "snd ?c" ?xs 9 x "snd ?d"])
      (simp_all add: prod_eq_iff text_simps)
  with b c x show ?thesis by (metis prod.collapse)
qed

text \<open>
  C31. Restart: after \<open>open\<close> no command is running. One that was running when the previous
  process stopped is failed with \<open>agent_restart_before_completion\<close>; every other record is
  as it was.
\<close>

theorem ledger_restart:
  assumes "ledger_open path fs l n = Inr l'"
  shows "ledger_find l' k = (case ledger_find l k of None \<Rightarrow> None
    | Some r \<Rightarrow> Some (if rec_status r = ''running''
        then r\<lparr>rec_status := ''failed'', rec_error_message := ''agent_restart_before_completion''\<rparr>
        else r))
    \<and> (\<forall>r. ledger_find l' k = Some r \<longrightarrow> rec_status r \<noteq> ''running'')"
  using ledger_open_find [OF assms, of k]
  by (cases "ledger_find l k") (simp_all add: stale_record_def)

theorem ledger_restart_witness:
  "\<exists>l'. ledger_open ''l.db'' [] (snd (begin_or_get demo_libs empty_ledger ''c1'' ''start'' ''{}'' 5)) 9 = Inr l'
     \<and> (\<exists>r. ledger_find l' ''c1'' = Some r \<and> rec_status r = ''failed'')"
proof -
  let ?l = "snd (begin_or_get demo_libs empty_ledger ''c1'' ''start'' ''{}'' 5)"
  note eval = begin_or_get_def empty_ledger_def demo_libs_def load_record_def
      insert_row_def new_row_def hash_payload_def extract_resource_key_def resource_keys_def
      ledger_open_def mark_stale_running_failed_def update_rows_def text_simps Let_def
  have "\<exists>l'. ledger_open ''l.db'' [] ?l 9 = Inr l'" by (simp add: eval)
  then obtain l' where l': "ledger_open ''l.db'' [] ?l 9 = Inr l'" ..
  have "\<exists>r. ledger_find ?l ''c1'' = Some r \<and> rec_status r = ''running''"
    by (simp add: eval ledger_find_def record_of_row_def)
  then show ?thesis using l' ledger_restart [OF l', of "''c1''"] by auto
qed

end
