(* ===== verification/Command_Handler.thy ===== *)
theory Command_Handler
  imports Command_Ledger
begin

text \<open>
  The execution of a command (\<open>src/src/agent/command_handler.rs\<close>): the type is normalised
  and checked against the supported commands, the payload parsed and the target read off
  it. No command is implemented yet, so every path ends in an error.
\<close>

definition SUPPORTED_COMMANDS :: "string list" where
  "SUPPORTED_COMMANDS =
     [''start'', ''stop'', ''restart'', ''reboot'', ''shutdown'', ''poweroff'', ''pause'',
      ''resume'', ''delete'', ''destroy'', ''snapshot_create'', ''snapshot_delete'']"

definition parse_payload :: "'v libs \<Rightarrow> string \<Rightarrow> error + 'v" where
  "parse_payload L payload_json =
     (if trim payload_json = [] then Inr (json_empty L)
      else case json_from_str L payload_json of
          Inl err \<Rightarrow> Inl (anyhow (''invalid command payload json: '' @ err))
        | Inr v \<Rightarrow> Inr v)"

definition extract_target :: "'v libs \<Rightarrow> 'v \<Rightarrow> string" where
  "extract_target L payload =
     (case first_nonblank (json_get_str L payload) resource_keys of
        Some t \<Rightarrow> t
      | None \<Rightarrow> ''unknown-target'')"

text \<open>A quotation mark, which an Isabelle string literal cannot hold next to its own.\<close>

definition quoted :: "string \<Rightarrow> string" where
  "quoted s = [CHR 0x27] @ s @ [CHR 0x27]"

definition execute_agent_command :: "'v libs \<Rightarrow> string \<Rightarrow> string \<Rightarrow> error + string" where
  "execute_agent_command L command_type payload_json =
     (let normalized = to_lowercase (lib_unicode_lower L) (trim command_type) in
      if normalized = [] then Inl (anyhow ''agent command type is required'')
      else case parse_payload L payload_json of
          Inl e \<Rightarrow> Inl e
        | Inr payload \<Rightarrow>
            (let target = extract_target L payload in
             if normalized \<notin> set SUPPORTED_COMMANDS
             then Inl (anyhow (''agent command type '' @ quoted normalized @ '' is unsupported''))
             else Inl (anyhow (''agent command '' @ quoted normalized @ '' for target ''
                    @ quoted target @ '' is not implemented by kvm runtime yet''))))"

lemma first_nonblank_Some:
  "first_nonblank get ks = Some v \<Longrightarrow> \<exists>k \<in> set ks. \<exists>w. get k = Some w \<and> v = trim w \<and> v \<noteq> []"
  by (induction ks) (auto split: option.splits if_splits)

lemma first_nonblank_None:
  "first_nonblank get ks = None \<longleftrightarrow> (\<forall>k \<in> set ks. \<forall>w. get k = Some w \<longrightarrow> trim w = [])"
  by (induction ks) (auto split: option.splits if_splits)

lemma first_nonblank_trimmed: "first_nonblank get ks = Some v \<Longrightarrow> trim v = v \<and> v \<noteq> []"
  by (drule first_nonblank_Some) auto

text \<open>The ledger's resource key is the handler's target, where there is one.\<close>

lemma extract_target_resource_key:
  assumes "parse_payload L p = Inr v" and "trim p \<noteq> []"
  shows "extract_target L v = (case extract_resource_key L p of None \<Rightarrow> ''unknown-target'' | Some k \<Rightarrow> k)"
  using assms
  by (auto simp: parse_payload_def extract_target_def extract_resource_key_def split: sum.splits option.splits)

lemma execute_agent_command_error: "\<exists>m. execute_agent_command L t p = Inl (anyhow m)"
  by (auto simp: execute_agent_command_def parse_payload_def Let_def split: sum.splits)

end
