(* ===== verification/Rust_Time.thy ===== *)
theory Rust_Time
  imports Agent_Prelude
begin

text \<open>
  \<open>std::time\<close>. A \<open>Duration\<close> is its number of nanoseconds: \<open>u64\<close> seconds and a fraction
  below a second, so at most \<open>dur_max\<close>. Sums and products that exceed it panic. A
  \<open>SystemTime\<close> is the signed number of nanoseconds since the epoch, with \<open>i64\<close> seconds.
\<close>

type_synonym duration = nat
type_synonym system_time = int

definition nanos_per_sec :: nat where "nanos_per_sec = 1000000000"
definition nanos_per_milli :: nat where "nanos_per_milli = 1000000"

definition dur_max :: duration where
  "dur_max = 2 ^ 64 * nanos_per_sec - 1"

definition from_secs :: "nat \<Rightarrow> duration" where
  "from_secs n = n * nanos_per_sec"

definition from_millis :: "nat \<Rightarrow> duration" where
  "from_millis n = n * nanos_per_milli"

definition as_millis :: "duration \<Rightarrow> nat" where
  "as_millis d = d div nanos_per_milli"

definition as_secs :: "duration \<Rightarrow> nat" where
  "as_secs d = d div nanos_per_sec"

definition dur_add :: "duration \<Rightarrow> duration \<Rightarrow> duration exec" where
  "dur_add a b = (if a + b \<le> dur_max then Done (a + b) else Panic)"

definition dur_mul :: "duration \<Rightarrow> nat \<Rightarrow> duration exec" where
  "dur_mul a k = (if a * k \<le> dur_max then Done (a * k) else Panic)"

text \<open>\<open>SystemTime + Duration\<close> panics where the seconds leave \<open>i64\<close>.\<close>

definition systime_add :: "system_time \<Rightarrow> duration \<Rightarrow> system_time exec" where
  "systime_add t d =
     (if (t + int d) div int nanos_per_sec < 2 ^ 63 then Done (t + int d) else Panic)"

text \<open>\<open>t.duration_since(UNIX_EPOCH).unwrap_or_default()\<close>.\<close>

definition since_epoch :: "system_time \<Rightarrow> duration" where
  "since_epoch t = nat t"

lemmas dur_eval [time_simps] = nanos_per_sec_def nanos_per_milli_def dur_max_def from_secs_def
  from_millis_def as_millis_def as_secs_def dur_add_def dur_mul_def systime_add_def since_epoch_def

lemma from_millis_le_dur_max: "n < 2 ^ 64 \<Longrightarrow> 2 * from_millis n \<le> dur_max"
  by (simp add: time_simps)

lemma from_secs_le_dur_max: "n < 2 ^ 64 \<Longrightarrow> from_secs n \<le> dur_max"
  by (simp add: time_simps)

section \<open>Wrapping \<open>i64\<close> arithmetic\<close>

text \<open>
  A release build wraps on overflow, a debug build panics; \<open>checks\<close> says which
  (\<open>overflow-checks\<close>).
\<close>

definition i64_wrap :: "int \<Rightarrow> int" where
  "i64_wrap x = (x + 2 ^ 63) mod 2 ^ 64 - 2 ^ 63"

definition i64_mul :: "bool \<Rightarrow> int \<Rightarrow> int \<Rightarrow> int exec" where
  "i64_mul checks a b =
     (if - (2 ^ 63) \<le> a * b \<and> a * b < 2 ^ 63 then Done (a * b)
      else if checks then Panic else Done (i64_wrap (a * b)))"

text \<open>\<open>x as u64\<close> for an \<open>i64\<close>.\<close>

definition i64_as_u64 :: "int \<Rightarrow> nat" where
  "i64_as_u64 x = nat (x mod 2 ^ 64)"

lemmas i64_eval [time_simps] = i64_wrap_def i64_mul_def i64_as_u64_def

end
