(* ===== verification/Rust_Float.thy ===== *)
theory Rust_Float
  imports Rust_Text Rust_Time "HOL-Library.Log_Nat"
begin

text \<open>
  \<open>f64\<close>: IEEE 754 doubles. A finite one is the real number it stands for, so the two zeros are
  one value; every operation computes the real result and rounds it to the nearest double,
  ties to even, with 53 bits of significand, the exponents down to that of the subnormals,
  and infinity from \<open>2 ^ 1024\<close> on.
\<close>

named_theorems float_simps \<open>equations of the \<open>f64\<close> operations\<close>

section \<open>Rounding\<close>

text \<open>\<open>\<lfloor>log 2 x\<rfloor>\<close> for a positive \<open>x\<close>, computed from the bits of an integer.\<close>

definition ilog2 :: "real \<Rightarrow> int" where
  "ilog2 x = (if 1 \<le> x then int (floorlog 2 (nat \<lfloor>x\<rfloor>)) - 1
     else - int (floorlog 2 (nat (\<lceil>1 / x\<rceil> - 1))))"

definition ulp_exp :: "real \<Rightarrow> int" where
  "ulp_exp x = max (ilog2 \<bar>x\<bar> - 52) (- 1074)"

definition round_even :: "real \<Rightarrow> int" where
  "round_even x =
     (let f = \<lfloor>x\<rfloor>; d = x - of_int f
      in if d < 1 / 2 then f else if 1 / 2 < d then f + 1 else if even f then f else f + 1)"

definition round_real :: "real \<Rightarrow> real" where
  "round_real x =
     (if x = 0 then 0 else of_int (round_even (x / 2 powi ulp_exp x)) * 2 powi ulp_exp x)"

lemma floorlog_nat:
  assumes "0 < (n :: nat)"
  shows "(2 :: real) powi (int (floorlog 2 n) - 1) \<le> real n" and "real n < 2 powi int (floorlog 2 n)"
proof -
  have b: "2 ^ (floorlog 2 n - 1) \<le> n" "n < 2 ^ floorlog 2 n"
    using floorlog_bounds [of n 2] assms by simp_all
  then have "floorlog 2 n \<noteq> 0" using assms by (cases "floorlog 2 n = 0") auto
  then have i: "int (floorlog 2 n) - 1 = int (floorlog 2 n - 1)" by simp
  have "real (2 ^ (floorlog 2 n - 1)) \<le> real n" using b(1) by (simp only: of_nat_le_iff)
  then show "(2 :: real) powi (int (floorlog 2 n) - 1) \<le> real n" unfolding i by simp
  have "real n < real (2 ^ floorlog 2 n)" using b(2) by (simp only: of_nat_less_iff)
  then show "real n < 2 powi int (floorlog 2 n)" by simp
qed

lemma nat_le_powi: "real n < 2 powi int k \<longleftrightarrow> n + 1 \<le> 2 ^ k"
proof -
  have "real n < 2 powi int k \<longleftrightarrow> real n < real (2 ^ k)" by simp
  also have "\<dots> \<longleftrightarrow> n < 2 ^ k" by (simp only: of_nat_less_iff)
  also have "\<dots> \<longleftrightarrow> n + 1 \<le> 2 ^ k" by (simp add: Suc_le_eq)
  finally show ?thesis .
qed

lemma ilog2_bounds:
  assumes "0 < x"
  shows "2 powi ilog2 x \<le> x" and "x < 2 powi (ilog2 x + 1)"
proof -
  have "2 powi ilog2 x \<le> x \<and> x < 2 powi (ilog2 x + 1)"
  proof (cases "1 \<le> x")
    case True
    let ?n = "nat \<lfloor>x\<rfloor>"
    have n: "0 < ?n" "real ?n \<le> x" "x < real (?n + 1)" using True by linarith+
    note fl = floorlog_nat [OF n(1)]
    have "real (?n + 1) \<le> real (2 ^ floorlog 2 ?n)"
      using fl(2) unfolding nat_le_powi by (simp only: of_nat_le_iff)
    then have "x < 2 powi int (floorlog 2 ?n)" using n(3) by simp
    moreover have "2 powi (int (floorlog 2 ?n) - 1) \<le> x" using fl(1) n(2) by (rule order_trans)
    ultimately show ?thesis using True by (simp add: ilog2_def)
  next
    case False
    let ?n = "nat (\<lceil>1 / x\<rceil> - 1)"
    have "1 < 1 / x" using assms False by simp
    then have n: "0 < ?n" "real ?n < 1 / x" "1 / x \<le> real (?n + 1)" by linarith+
    note fl = floorlog_nat [OF n(1)]
    let ?k = "floorlog 2 ?n"
    have i: "ilog2 x = - int ?k" using False by (simp add: ilog2_def)
    have "real (?n + 1) \<le> real (2 ^ ?k)"
      using fl(2) unfolding nat_le_powi by (simp only: of_nat_le_iff)
    then have "1 / x \<le> 2 powi int ?k" using n(3) by simp
    then have "1 / 2 powi int ?k \<le> x" using assms by (simp add: field_simps)
    moreover have "(2 :: real) powi (- int ?k) = 1 / 2 powi int ?k"
      by (simp add: power_int_minus field_simps)
    moreover have "2 powi (int ?k - 1) < 1 / x" using fl(1) n(2) by linarith
    then have "x < 1 / 2 powi (int ?k - 1)" using assms by (simp add: field_simps)
    moreover have "(2 :: real) powi (- int ?k + 1) = 1 / 2 powi (int ?k - 1)"
      using power_int_minus [of "2 :: real" "int ?k - 1"] by (simp add: field_simps)
    ultimately show ?thesis unfolding i by simp
  qed
  then show "2 powi ilog2 x \<le> x" and "x < 2 powi (ilog2 x + 1)" by simp_all
qed

lemma powi2_less [simp]: "(2 :: real) powi a < 2 powi b \<longleftrightarrow> a < b"
  using power_int_strict_increasing [of a b "2 :: real"] power_int_increasing [of b a "2 :: real"]
  by (cases "a < b") auto

lemma powi2_le [simp]: "(2 :: real) powi a \<le> 2 powi b \<longleftrightarrow> a \<le> b"
  using powi2_less [of b a] by (simp only: not_less [symmetric])

lemma ilog2_mono: "0 < x \<Longrightarrow> x \<le> y \<Longrightarrow> ilog2 x \<le> ilog2 y"
proof -
  assume "0 < x" "x \<le> y"
  then have "(2 :: real) powi ilog2 x < 2 powi (ilog2 y + 1)"
    using ilog2_bounds [of x] ilog2_bounds [of y] by linarith
  then show ?thesis by simp
qed

lemma round_even_int [simp]: "round_even (of_int n) = n"
  by (simp add: round_even_def)

lemma round_even_near: "\<bar>of_int (round_even x) - x\<bar> \<le> 1 / 2"
  unfolding round_even_def Let_def by (simp; linarith)

lemma round_even_mono: "x \<le> y \<Longrightarrow> round_even x \<le> round_even y"
proof -
  assume le: "x \<le> y"
  show ?thesis
  proof (cases "\<lfloor>x\<rfloor> = \<lfloor>y\<rfloor>")
    case True
    with le show ?thesis by (simp add: round_even_def Let_def)
  next
    case False
    with floor_mono [OF le] have "\<lfloor>x\<rfloor> + 1 \<le> \<lfloor>y\<rfloor>" by simp
    moreover have "round_even x \<le> \<lfloor>x\<rfloor> + 1" "\<lfloor>y\<rfloor> \<le> round_even y"
      by (simp_all add: round_even_def Let_def)
    ultimately show ?thesis by simp
  qed
qed

lemma powi2_split: "u \<le> e \<Longrightarrow> (2 :: real) powi e = of_int (2 ^ nat (e - u)) * 2 powi u"
  using power_int_add [of "2 :: real" "e - u" u] by (simp add: power_int_def)

text \<open>A number with a significand of 53 bits is a double.\<close>

lemma round_real_exact:
  assumes "x = of_int m * 2 powi e" and "\<bar>m\<bar> \<le> 2 ^ 53" and "- 1074 \<le> e"
  shows "round_real x = x"
proof (cases "x = 0")
  case False
  let ?u = "ulp_exp x"
  have "\<exists>k. x = of_int k * 2 powi ?u"
  proof (cases "?u \<le> e")
    case True
    obtain u where u: "?u = u" by simp
    then have "x = of_int m * (of_int (2 ^ nat (e - u)) * 2 powi u)"
      using assms(1) powi2_split [of u e] True by simp
    then have "x = of_int (m * 2 ^ nat (e - u)) * 2 powi u" by simp
    with u have "x = of_int (m * 2 ^ nat (e - ?u)) * 2 powi ?u" by (simp only:)
    then show ?thesis ..
  next
    case below: False
    then have u: "?u = ilog2 \<bar>x\<bar> - 52" using assms(3) by (auto simp: ulp_exp_def max_def split: if_splits)
    have "(2 :: real) powi (?u + 52) \<le> \<bar>x\<bar>" using ilog2_bounds(1) [of "\<bar>x\<bar>"] False u by simp
    also have "\<bar>x\<bar> = of_int \<bar>m\<bar> * 2 powi e" using assms(1) by (simp add: abs_mult)
    also have "(2 :: real) powi (?u + 52) = of_int (2 ^ nat (?u + 52 - e)) * 2 powi e"
      by (rule powi2_split) (use below in simp)
    finally have "(of_int (2 ^ nat (?u + 52 - e)) :: real) \<le> of_int \<bar>m\<bar>" by simp
    then have le: "2 ^ nat (?u + 52 - e) \<le> \<bar>m\<bar>" by (simp only: of_int_le_iff)
    then have "(2 :: int) ^ nat (?u + 52 - e) \<le> 2 ^ 53" using assms(2) by linarith
    then have "nat (?u + 52 - e) \<le> 53" by (rule power_le_imp_le_exp [rotated]) simp
    with below have e: "e = ?u - 1" by simp
    with le assms(2) have "\<bar>m\<bar> = 2 ^ 53" by simp
    then have "m = 2 * 2 ^ 52 \<or> m = 2 * (- (2 ^ 52))" by (auto simp: abs_if split: if_splits)
    then obtain k where "m = 2 * k" by blast
    then have "x = of_int k * 2 powi ?u"
      using assms(1) e powi2_split [of "?u - 1" ?u] by simp
    then show ?thesis ..
  qed
  then obtain k where k: "x = of_int k * 2 powi ?u" ..
  then have "x / 2 powi ?u = of_int k" by (simp add: field_simps)
  with False k show ?thesis by (simp add: round_real_def)
qed (simp add: round_real_def)

lemma round_real_0 [simp]: "round_real 0 = 0"
  by (simp add: round_real_def)

lemma round_real_mono:
  assumes "0 \<le> x" and "x \<le> y"
  shows "round_real x \<le> round_real y"
proof (cases "x = 0")
  case True
  have "0 \<le> round_even (y / 2 powi ulp_exp y)"
    using round_even_mono [of 0 "y / 2 powi ulp_exp y"] round_even_int [of 0] assms True by simp
  then show ?thesis using True by (simp add: round_real_def)
next
  case False
  then have pos: "0 < x" "0 < y" using assms by simp_all
  let ?a = "ulp_exp x" and ?b = "ulp_exp y"
  have "ilog2 x \<le> ilog2 y" using pos(1) assms(2) by (rule ilog2_mono)
  then have ab: "?a \<le> ?b" using pos by (simp add: ulp_exp_def)
  show ?thesis
  proof (cases "?a = ?b")
    case True
    have "x / 2 powi ?b \<le> y / 2 powi ?b" using assms(2) by (simp add: divide_right_mono)
    from round_even_mono [OF this] show ?thesis
      using pos True by (simp add: round_real_def)
  next
    case False
    let ?p = "ilog2 y"
    have b: "?b = ?p - 52" "ilog2 x < ?p" using False ab pos by (auto simp: ulp_exp_def max_def split: if_splits)
    have "x < 2 powi (ilog2 x + 1)" using pos(1) by (rule ilog2_bounds)
    also have "(2 :: real) powi (ilog2 x + 1) \<le> 2 powi ?p" using b(2) by simp
    finally have "x / 2 powi ?a \<le> of_int (2 ^ nat (?p - ?a))"
      using powi2_split [of ?a ?p] ab b(1) by (simp add: field_simps)
    from round_even_mono [OF this] have "of_int (round_even (x / 2 powi ?a)) \<le> (of_int (2 ^ nat (?p - ?a)) :: real)"
      by (simp only: round_even_int of_int_le_iff)
    then have 1: "round_real x \<le> 2 powi ?p"
      using powi2_split [of ?a ?p] ab b(1) pos by (simp add: round_real_def)
    have "2 powi ?p \<le> y" using pos(2) by (rule ilog2_bounds)
    then have "of_int (2 ^ nat (?p - ?b)) * 2 powi ?b \<le> y"
      using b(1) by (subst powi2_split [of ?b ?p, symmetric]) simp_all
    then have "of_int (2 ^ nat (?p - ?b)) \<le> y / 2 powi ?b" by (simp add: pos_le_divide_eq)
    from round_even_mono [OF this] have "(of_int (2 ^ nat (?p - ?b)) :: real) \<le> of_int (round_even (y / 2 powi ?b))"
      by (simp only: round_even_int of_int_le_iff)
    then have "2 powi ?p \<le> round_real y"
      using powi2_split [of ?b ?p] b(1) pos by (simp add: round_real_def)
    with 1 show ?thesis by simp
  qed
qed

section \<open>Values and operations\<close>

datatype f64 = Fin real | PosInf | NegInf | NaN

definition f64_of_real :: "real \<Rightarrow> f64" where
  "f64_of_real x =
     (let r = round_real x
      in if 2 ^ 1024 \<le> r then PosInf else if r \<le> - (2 ^ 1024) then NegInf else Fin r)"

text \<open>\<open>n as f64\<close> for an integer.\<close>

definition f64_of_int :: "int \<Rightarrow> f64" where
  "f64_of_int n = f64_of_real (of_int n)"

fun f64_neg :: "f64 \<Rightarrow> f64" where
  "f64_neg (Fin x) = Fin (- x)"
| "f64_neg PosInf = NegInf"
| "f64_neg NegInf = PosInf"
| "f64_neg NaN = NaN"

fun f64_add :: "f64 \<Rightarrow> f64 \<Rightarrow> f64" where
  "f64_add (Fin x) (Fin y) = f64_of_real (x + y)"
| "f64_add (Fin x) b = b"
| "f64_add a (Fin y) = a"
| "f64_add a b = (if a = b then a else NaN)"

definition f64_sub :: "f64 \<Rightarrow> f64 \<Rightarrow> f64" where
  "f64_sub a b = f64_add a (f64_neg b)"

text \<open>The infinity with the sign of a number; \<open>NaN\<close> for zero.\<close>

definition f64_inf :: "real \<Rightarrow> f64" where
  "f64_inf x = (if 0 < x then PosInf else if x < 0 then NegInf else NaN)"

definition f64_sign :: "f64 \<Rightarrow> real" where
  "f64_sign a = (case a of Fin x \<Rightarrow> sgn x | PosInf \<Rightarrow> 1 | NegInf \<Rightarrow> - 1 | NaN \<Rightarrow> 0)"

fun f64_mul :: "f64 \<Rightarrow> f64 \<Rightarrow> f64" where
  "f64_mul (Fin x) (Fin y) = f64_of_real (x * y)"
| "f64_mul a b = f64_inf (f64_sign a * f64_sign b)"

text \<open>A division by zero takes its zero for the positive one; the program divides by none.\<close>

fun f64_div :: "f64 \<Rightarrow> f64 \<Rightarrow> f64" where
  "f64_div (Fin x) (Fin y) = (if y = 0 then f64_inf x else f64_of_real (x / y))"
| "f64_div (Fin x) NaN = NaN"
| "f64_div (Fin x) b = Fin 0"
| "f64_div a (Fin y) = f64_inf (f64_sign a * (if y = 0 then 1 else sgn y))"
| "f64_div a b = NaN"

fun f64_le :: "f64 \<Rightarrow> f64 \<Rightarrow> bool" where
  "f64_le (Fin x) (Fin y) \<longleftrightarrow> x \<le> y"
| "f64_le NaN b \<longleftrightarrow> False"
| "f64_le a NaN \<longleftrightarrow> False"
| "f64_le NegInf b \<longleftrightarrow> True"
| "f64_le a PosInf \<longleftrightarrow> True"
| "f64_le a b \<longleftrightarrow> False"

definition f64_lt :: "f64 \<Rightarrow> f64 \<Rightarrow> bool" where
  "f64_lt a b \<longleftrightarrow> f64_le a b \<and> a \<noteq> b"

text \<open>\<open>f64::max\<close> returns the other operand where one is \<open>NaN\<close>.\<close>

definition f64_max :: "f64 \<Rightarrow> f64 \<Rightarrow> f64" where
  "f64_max a b = (if a = NaN then b else if b = NaN then a else if f64_le a b then b else a)"

fun f64_ceil :: "f64 \<Rightarrow> f64" where
  "f64_ceil (Fin x) = Fin (of_int \<lceil>x\<rceil>)"
| "f64_ceil a = a"

text \<open>\<open>x as i64\<close> and \<open>x as u64\<close>: towards zero, saturating, and 0 for \<open>NaN\<close>.\<close>

definition trunc :: "real \<Rightarrow> int" where
  "trunc x = (if 0 \<le> x then \<lfloor>x\<rfloor> else \<lceil>x\<rceil>)"

definition f64_as_int :: "int \<Rightarrow> int \<Rightarrow> f64 \<Rightarrow> int" where
  "f64_as_int lo hi a =
     (case a of Fin x \<Rightarrow> max lo (min hi (trunc x)) | PosInf \<Rightarrow> hi | NegInf \<Rightarrow> lo | NaN \<Rightarrow> 0)"

definition f64_as_i64 :: "f64 \<Rightarrow> int" where
  "f64_as_i64 = f64_as_int (- (2 ^ 63)) (2 ^ 63 - 1)"

definition f64_as_u64 :: "f64 \<Rightarrow> nat" where
  "f64_as_u64 a = nat (f64_as_int 0 (2 ^ 64 - 1) a)"

text \<open>\<open>Duration::as_secs_f64\<close>.\<close>

definition as_secs_f64 :: "duration \<Rightarrow> f64" where
  "as_secs_f64 d =
     f64_add (f64_of_int (int (as_secs d)))
       (f64_div (f64_of_int (int (d mod nanos_per_sec))) (f64_of_int (int nanos_per_sec)))"

lemmas f64_eval [float_simps] = f64_of_int_def f64_sub_def f64_inf_def f64_sign_def f64_lt_def
  f64_max_def f64_as_int_def f64_as_i64_def f64_as_u64_def trunc_def

section \<open>Parsing\<close>

text \<open>
  \<open>s.parse::<f64>()\<close>: a sign, digits with at most one point, at least one of them, and an
  exponent; or the names of the infinities and of \<open>NaN\<close> in any case.
\<close>

definition is_digit :: "char \<Rightarrow> bool" where
  "is_digit c \<longleftrightarrow> digit_val c \<noteq> None"

definition digits_value :: "string \<Rightarrow> nat" where
  "digits_value ds = (case parse_digits 0 ds of Some n \<Rightarrow> n | None \<Rightarrow> 0)"

text \<open>Whether there is a minus sign, and the text after the sign.\<close>

definition split_sign :: "string \<Rightarrow> bool \<times> string" where
  "split_sign s =
     (case s of
        [] \<Rightarrow> (False, [])
      | c # r \<Rightarrow> if c = CHR ''-'' then (True, r) else if c = CHR ''+'' then (False, r) else (False, s))"

definition parse_exponent :: "string \<Rightarrow> int option" where
  "parse_exponent s =
     (case s of
        [] \<Rightarrow> Some 0
      | c # r \<Rightarrow>
          if c \<noteq> CHR ''e'' \<and> c \<noteq> CHR ''E'' then None
          else case split_sign r of
              (neg, ds) \<Rightarrow>
                if ds = [] \<or> dropWhile is_digit ds \<noteq> [] then None
                else Some (if neg then - int (digits_value ds) else int (digits_value ds)))"

definition parse_decimal :: "string \<Rightarrow> real option" where
  "parse_decimal s =
     (let ds = takeWhile is_digit s; r = dropWhile is_digit s;
          point = (case r of c # t \<Rightarrow> c = CHR ''.'' | [] \<Rightarrow> False);
          fs = (if point then takeWhile is_digit (tl r) else []);
          r2 = (if point then dropWhile is_digit (tl r) else r)
      in if ds = [] \<and> fs = [] then None
         else case parse_exponent r2 of
             None \<Rightarrow> None
           | Some e \<Rightarrow> Some (real (digits_value (ds @ fs)) * 10 powi (e - int (length fs))))"

definition parse_f64 :: "string \<Rightarrow> f64 option" where
  "parse_f64 s =
     (case split_sign s of
        (neg, body) \<Rightarrow>
          let signed = (\<lambda>a. if neg then f64_neg a else a); name = to_ascii_lowercase body
          in case parse_decimal body of
              Some x \<Rightarrow> Some (signed (f64_of_real x))
            | None \<Rightarrow>
                if name = ''inf'' \<or> name = ''infinity'' then Some (signed PosInf)
                else if name = ''nan'' then Some NaN else None)"

lemma digit_char_facts:
  assumes "d < 10"
  shows "is_digit (digit_char d)" and "digit_char d \<noteq> CHR ''-''" and "digit_char d \<noteq> CHR ''+''"
  using digit_val_char [OF assms] by (auto simp: is_digit_def digit_val_def Let_def)

lemma show_nat_digits: "\<forall>c\<in>set (show_nat n). is_digit c"
proof (induction n rule: show_nat.induct)
  case (1 n)
  then show ?case by (subst show_nat.simps) (auto simp: digit_char_facts)
qed

text \<open>A number in decimal is read as the double next to it.\<close>

lemma parse_f64_show_nat: "parse_f64 (show_nat n) = Some (f64_of_int (int n))"
proof -
  obtain d s where d: "d < 10" "show_nat n = digit_char d # s" using show_nat_hd by blast
  then have "split_sign (show_nat n) = (False, show_nat n)"
    by (simp add: split_sign_def digit_char_facts)
  have tw: "takeWhile is_digit (show_nat n) = show_nat n" "dropWhile is_digit (show_nat n) = []"
    using show_nat_digits by simp_all
  have "show_nat n \<noteq> []" using d(2) by simp
  have "digits_value (show_nat n) = n" by (simp add: digits_value_def parse_digits_show_nat)
  then have "parse_decimal (show_nat n) = Some (real n)"
    using \<open>show_nat n \<noteq> []\<close> by (simp add: parse_decimal_def tw parse_exponent_def)
  with \<open>split_sign (show_nat n) = (False, show_nat n)\<close> show ?thesis
    by (simp add: parse_f64_def f64_of_int_def)
qed

section \<open>Lemmas\<close>

lemma round_real_of_int: "\<bar>n\<bar> \<le> 2 ^ 53 \<Longrightarrow> round_real (of_int n) = of_int n"
  by (rule round_real_exact [of _ n 0]) simp_all

lemma round_real_numeral [simp]:
  "numeral k \<le> (2 ^ 53 :: int) \<Longrightarrow> round_real (numeral k) = numeral k"
  "numeral k \<le> (2 ^ 53 :: int) \<Longrightarrow> round_real (- numeral k) = - numeral k"
  "round_real 1 = 1"
  using round_real_of_int [of "numeral k"] round_real_of_int [of "- numeral k"] round_real_of_int [of 1]
  by simp_all

text \<open>
  What the program's ratios and percentages need of the rounding: it keeps the order and the
  numbers 0, 1 and 100.
\<close>

locale rounding =
  fixes rnd :: "real \<Rightarrow> real"
  assumes rnd_mono: "0 \<le> x \<Longrightarrow> x \<le> y \<Longrightarrow> rnd x \<le> rnd y"
    and rnd_0: "rnd 0 = 0"
    and rnd_1: "rnd 1 = 1"
    and rnd_100: "rnd 100 = 100"
begin

lemma rnd_nonneg: "0 \<le> x \<Longrightarrow> 0 \<le> rnd x"
  using rnd_mono [of 0 x] rnd_0 by simp

text \<open>Rounding does not cross a number that it keeps.\<close>

lemma rnd_upper: "0 \<le> x \<Longrightarrow> x \<le> y \<Longrightarrow> rnd y = y \<Longrightarrow> rnd x \<le> y"
  using rnd_mono [of x y] by simp

lemma rnd_lower: "0 \<le> y \<Longrightarrow> y \<le> x \<Longrightarrow> rnd y = y \<Longrightarrow> y \<le> rnd x"
  using rnd_mono [of y x] by simp

lemma rnd_ratio:
  assumes "0 \<le> x" and "x \<le> y" and "0 < y"
  shows "0 \<le> rnd (x / y)" and "rnd (x / y) \<le> 1"
  using assms rnd_nonneg rnd_upper [of "x / y" 1] rnd_1 by simp_all

lemma rnd_percent:
  assumes "0 \<le> x" and "x \<le> y" and "0 < y"
  shows "0 \<le> rnd (rnd (x / y) * 100)" and "rnd (rnd (x / y) * 100) \<le> 100"
  using rnd_ratio [OF assms] rnd_nonneg rnd_upper [of "rnd (x / y) * 100" 100] rnd_100 by simp_all

end

interpretation dbl: rounding round_real
  by unfold_locales (simp_all add: round_real_mono)

lemmas round_real_nonneg = dbl.rnd_nonneg
lemmas round_real_upper = dbl.rnd_upper
lemmas round_real_lower = dbl.rnd_lower

text \<open>Numbers below \<open>2 ^ 1023\<close> do not overflow, and those of 64 bits are far from it.\<close>

lemma f64_of_real_Fin:
  assumes "0 \<le> x" and "x \<le> 2 ^ 1023"
  shows "f64_of_real x = Fin (round_real x)"
proof -
  have "round_real ((2 :: real) ^ 1023) = 2 ^ 1023"
    by (rule round_real_exact [of _ 1 1023]) simp_all
  then have "round_real x \<le> 2 ^ 1023" using assms by (intro round_real_upper)
  moreover have "(2 :: real) ^ 1023 < 2 ^ 1024" by simp
  ultimately have "\<not> 2 ^ 1024 \<le> round_real x" by linarith
  moreover have "- (2 ^ 1024) < (0 :: real)" by simp
  then have "\<not> round_real x \<le> - (2 ^ 1024)" using round_real_nonneg [OF assms(1)] by linarith
  ultimately show ?thesis by (simp add: f64_of_real_def Let_def)
qed

lemma of_u64_le: "n < 2 ^ 64 \<Longrightarrow> real n \<le> 2 ^ 1023"
proof -
  assume "n < 2 ^ 64"
  then have "real n < 2 ^ 64" by (metis of_nat_less_iff of_nat_numeral of_nat_power)
  also have "(2 :: real) ^ 64 \<le> 2 ^ 1023" by (rule power_increasing) simp_all
  finally show ?thesis by simp
qed

lemma trunc_of_int [simp]: "trunc (of_int n) = n"
  by (simp add: trunc_def)

lemma f64_of_u64: "n < 2 ^ 64 \<Longrightarrow> f64_of_int (int n) = Fin (round_real (real n))"
  using f64_of_real_Fin [of "real n"] of_u64_le [of n] by (simp add: f64_of_int_def)

lemma f64_of_real_exact:
  assumes "x = of_int m * 2 powi e" and "\<bar>m\<bar> \<le> 2 ^ 53" and "- 1074 \<le> e" and "\<bar>x\<bar> < 2 ^ 1024"
  shows "f64_of_real x = Fin x"
  using assms(4) by (auto simp: f64_of_real_def round_real_exact [OF assms(1-3)] Let_def)

text \<open>The integers of up to 64 bits whose low bits leave 53 are doubles, and so are their quotients.\<close>

lemma f64_exact_64:
  assumes "x = of_int m * 2 powi e" and "\<bar>m\<bar> \<le> 2 ^ 53" and "- 1074 \<le> e" and "e \<le> 900"
  shows "f64_of_real x = Fin x"
proof (rule f64_of_real_exact [OF assms(1-3)])
  have "\<bar>of_int m :: real\<bar> \<le> 2 ^ 53"
    using assms(2) by (metis of_int_abs of_int_le_iff of_int_numeral of_int_power)
  moreover have "(2 :: real) powi e \<le> 2 powi 900" using assms(4) by (simp only: powi2_le)
  then have "(2 :: real) powi e \<le> 2 ^ 900" by (simp only: power_int_numeral)
  ultimately have "\<bar>x\<bar> \<le> 2 ^ 53 * 2 ^ 900"
    using assms(1) by (simp only: abs_mult) (rule mult_mono, simp_all)
  also have "(2 :: real) ^ 53 * 2 ^ 900 < 2 ^ 1024" by (simp flip: power_add)
  finally show "\<bar>x\<bar> < 2 ^ 1024" .
qed

text \<open>A part of a whole in percent, as the program computes it, is from 0 to 100.\<close>

lemma f64_percent:
  assumes "0 \<le> x" and "x \<le> y" and "0 < y"
  shows "\<exists>p. f64_mul (f64_div (Fin x) (Fin y)) (Fin 100) = Fin p \<and> 0 \<le> p \<and> p \<le> 100"
proof -
  note r = dbl.rnd_ratio [OF assms]
  have "x / y \<le> 1" using assms by simp
  then have "x / y \<le> 2 ^ 1023" by (rule order_trans) simp
  then have "f64_div (Fin x) (Fin y) = Fin (round_real (x / y))"
    using assms f64_of_real_Fin [of "x / y"] by simp
  moreover have "round_real (x / y) * 100 \<le> 2 ^ 1023"
    by (rule order_trans [of _ 100]) (use r in simp_all)
  then have "f64_of_real (round_real (x / y) * 100) = Fin (round_real (round_real (x / y) * 100))"
    using r by (intro f64_of_real_Fin) simp_all
  ultimately show ?thesis using dbl.rnd_percent [OF assms] by simp
qed

end
