(* ===== verification/Host_Model.thy ===== *)
theory Host_Model
  imports Rust_Float
begin

text \<open>
  The data the agent keeps of its host (\<open>src/src/model/host.rs\<close>) and the messages of the
  control stream (\<open>src/proto/agent/registry/v1\<close>). Field names carry a prefix, since HOL's
  record fields are global. \<open>i32\<close> and \<open>i64\<close> fields, which the agent copies, are \<open>int\<close>.
\<close>

section \<open>Host facts\<close>

record CPUPackage =
  cpu_package_index :: int
  cpu_model :: string
  cpu_cores_of :: int
  cpu_threads_of :: int

record MemoryModule =
  mem_slot_index :: int
  mem_model :: string
  mem_size_gib :: int

record GPUDevice =
  gpu_device_index :: int
  gpu_model :: string
  gpu_memory_gib_of :: int
  gpu_core_count :: int

record NetworkInterface =
  if_name :: string
  if_mac_address :: string
  if_ipv4_address :: string
  if_ipv6_address :: string
  if_speed_mbps :: int
  if_status :: string

record StoragePool =
  sp_name :: string
  sp_driver :: string
  sp_path :: string
  sp_total_bytes :: int
  sp_used_bytes :: int
  sp_status :: string
  sp_metadata_json :: string

record HostFacts =
  agent_id :: string
  host_id :: string
  hostname :: string
  private_ip :: string
  hypervisor_type :: string
  agent_version :: string
  capabilities_json :: string
  cpu_cores :: int
  cpu_threads :: int
  memory_bytes :: int
  disk_bytes :: int
  gpu_cores :: int
  gpu_memory_gib :: int
  cpu_packages :: "CPUPackage list"
  memory_modules :: "MemoryModule list"
  gpu_devices :: "GPUDevice list"
  network_interfaces :: "NetworkInterface list"

record HostRegistration =
  reg_agent_id :: string
  reg_host_id :: string
  reg_hostname :: string
  reg_private_ip :: string
  reg_hypervisor_type :: string
  reg_agent_version :: string
  reg_capabilities_json :: string

text \<open>Certificates and keys are the bytes of their PEM files.\<close>

record AgentIdentityState =
  client_cert_pem :: string
  client_key_pem :: string
  ca_bundle_pem :: string
  cert_not_after :: "string option"
  runtime_target_addr :: "string option"

text \<open>A small host, for the examples.\<close>

definition demo_facts :: HostFacts where
  "demo_facts = \<lparr>agent_id = ''a'', host_id = ''h'', hostname = ''n'', private_ip = ''10.0.0.1'',
     hypervisor_type = ''kvm'', agent_version = ''0.1.0'', capabilities_json = ''{}'',
     cpu_cores = 4, cpu_threads = 8, memory_bytes = 1024, disk_bytes = 4096, gpu_cores = 0,
     gpu_memory_gib = 0, cpu_packages = [], memory_modules = [], gpu_devices = [],
     network_interfaces = []\<rparr>"

definition host_registration_from_facts :: "HostFacts \<Rightarrow> HostRegistration" where
  "host_registration_from_facts facts =
     \<lparr>reg_agent_id = agent_id facts, reg_host_id = host_id facts, reg_hostname = hostname facts,
      reg_private_ip = private_ip facts, reg_hypervisor_type = hypervisor_type facts,
      reg_agent_version = agent_version facts, reg_capabilities_json = capabilities_json facts\<rparr>"

section \<open>Messages\<close>

text \<open>\<open>google.protobuf.Timestamp\<close>.\<close>

record Timestamp =
  ts_seconds :: int
  ts_nanos :: int

record AgentHeartbeat =
  hb_agent_id :: string
  hb_host_id :: string
  hb_status :: string
  hb_last_seen_at :: "Timestamp option"

record AgentCommand =
  cmd_command_id :: string
  cmd_idempotency_key :: string
  cmd_type :: string
  cmd_payload_json :: string

record AgentCommandResult =
  cr_agent_id :: string
  cr_host_id :: string
  cr_command_id :: string
  cr_status :: string
  cr_result_json :: string
  cr_error_message :: string
  cr_completed_at :: "Timestamp option"

record RegisterHost =
  rh_agent_id :: string
  rh_host_id :: string
  rh_hostname :: string
  rh_private_ip :: string
  rh_hypervisor_type :: string
  rh_agent_version :: string
  rh_capabilities_json :: string

record RegisterAck =
  ra_host_id :: string
  ra_status :: string
  ra_node_id :: string

record HeartbeatAck =
  ha_host_id :: string
  ha_status :: string

record NetworkInterfaceInventory =
  ni_name :: string
  ni_mac_address :: string
  ni_ipv4_address :: string
  ni_ipv6_address :: string
  ni_speed_mbps :: int
  ni_status :: string
  ni_metadata_json :: string

text \<open>
  The inventory messages for processors, memory, GPUs and storage pools have the fields of
  the model's records, in the same order; the model uses those records.
\<close>

record HostInventory =
  hi_agent_id :: string
  hi_host_id :: string
  hi_cpu_packages :: "CPUPackage list"
  hi_memory_modules :: "MemoryModule list"
  hi_gpu_devices :: "GPUDevice list"
  hi_storage_pools :: "StoragePool list"
  hi_network_interfaces :: "NetworkInterfaceInventory list"
  hi_collected_at :: "Timestamp option"

record NodeMetricSample =
  nm_agent_id :: string
  nm_host_id :: string
  nm_cpu_used_percent :: f64
  nm_cpu_used_cores :: f64
  nm_ram_used_gib :: f64
  nm_ram_used_percent :: f64
  nm_ssd_used_gib :: f64
  nm_ssd_used_percent :: f64
  nm_gpu_used_percent :: f64
  nm_gpu_used_gib :: f64
  nm_network_rx_bps :: int
  nm_network_tx_bps :: int
  nm_disk_read_bps :: nat
  nm_disk_write_bps :: nat
  nm_sampled_at :: "Timestamp option"

text \<open>
  The \<open>oneof\<close> of a frame. The agent never builds the sixth alternative, \<open>vps_metric\<close>.
\<close>

datatype AgentMessage =
    RegisterHostMsg RegisterHost
  | HeartbeatMsg AgentHeartbeat
  | HostInventoryMsg HostInventory
  | NodeMetricMsg NodeMetricSample
  | CommandResultMsg AgentCommandResult

record AgentToHypervisor =
  a2h_stream_id :: string
  a2h_seq :: u64
  a2h_message :: "AgentMessage option"

datatype HypervisorMessage =
    RegisterAckMsg RegisterAck
  | HeartbeatAckMsg HeartbeatAck
  | CommandMsg AgentCommand

record HypervisorToAgent =
  h2a_stream_id :: string
  h2a_seq :: u64
  h2a_message :: "HypervisorMessage option"

end
