(* ===== verification/Agent_Frames.thy ===== *)
theory Agent_Frames
  imports Host_Model Rust_Time
begin

text \<open>
  The frames the agent sends (\<open>src/src/agent/frames.rs\<close>). The clock and the storage pools
  that \<open>discover_storage_pools\<close> finds are arguments.
\<close>

definition system_time_to_timestamp :: "system_time \<Rightarrow> Timestamp" where
  "system_time_to_timestamp t =
     (let duration = since_epoch t
      in \<lparr>ts_seconds = int (as_secs duration), ts_nanos = int (duration mod nanos_per_sec)\<rparr>)"

definition register_frame :: "HostFacts \<Rightarrow> string \<Rightarrow> u64 \<Rightarrow> AgentToHypervisor" where
  "register_frame facts stream_id seq =
     \<lparr>a2h_stream_id = stream_id, a2h_seq = seq,
      a2h_message = Some (RegisterHostMsg
        \<lparr>rh_agent_id = agent_id facts, rh_host_id = host_id facts, rh_hostname = hostname facts,
         rh_private_ip = private_ip facts, rh_hypervisor_type = hypervisor_type facts,
         rh_agent_version = agent_version facts,
         rh_capabilities_json = capabilities_json facts\<rparr>)\<rparr>"

definition interface_inventory :: "NetworkInterface \<Rightarrow> NetworkInterfaceInventory" where
  "interface_inventory iface =
     \<lparr>ni_name = if_name iface, ni_mac_address = if_mac_address iface,
      ni_ipv4_address = if_ipv4_address iface, ni_ipv6_address = if_ipv6_address iface,
      ni_speed_mbps = if_speed_mbps iface, ni_status = if_status iface,
      ni_metadata_json = ''{}''\<rparr>"

definition host_inventory_frame ::
  "HostFacts \<Rightarrow> string \<Rightarrow> u64 \<Rightarrow> StoragePool list \<Rightarrow> system_time \<Rightarrow> AgentToHypervisor" where
  "host_inventory_frame facts stream_id seq pools now =
     \<lparr>a2h_stream_id = stream_id, a2h_seq = seq,
      a2h_message = Some (HostInventoryMsg
        \<lparr>hi_agent_id = agent_id facts, hi_host_id = host_id facts,
         hi_cpu_packages = cpu_packages facts, hi_memory_modules = memory_modules facts,
         hi_gpu_devices = gpu_devices facts, hi_storage_pools = pools,
         hi_network_interfaces = map interface_inventory (network_interfaces facts),
         hi_collected_at = Some (system_time_to_timestamp now)\<rparr>)\<rparr>"

text \<open>A timestamp of a clock before the epoch is the epoch; otherwise it is exact.\<close>

lemma timestamp_exact:
  "int nanos_per_sec * ts_seconds (system_time_to_timestamp t) + ts_nanos (system_time_to_timestamp t)
     = max 0 t"
proof -
  have "int nanos_per_sec * int (n div nanos_per_sec) + int (n mod nanos_per_sec) = int n" for n
    by (metis mult_div_mod_eq of_nat_add of_nat_mult)
  then show ?thesis
    by (simp add: system_time_to_timestamp_def as_secs_def since_epoch_def Let_def)
qed

lemma timestamp_nanos: "0 \<le> ts_nanos (system_time_to_timestamp t)
    \<and> ts_nanos (system_time_to_timestamp t) < int nanos_per_sec"
  by (simp add: system_time_to_timestamp_def Let_def time_simps)

end
