(* ===== verification/Frame_Stream.thy ===== *)
theory Frame_Stream
  imports Agent_Frames
begin

text \<open>
  What the tasks of a session share: the sender half of the bounded channel that feeds the
  control stream (\<open>mpsc::Sender\<close>) and the atomic sequence counter (\<open>Arc<AtomicU64>\<close>), as
  \<open>src/src/agent/registry.rs\<close>, \<open>registration.rs\<close> and \<open>heartbeat.rs\<close> use them. The contract
  \<open>frame_stream\<close> is what those tasks rely on.
\<close>

section \<open>The counter\<close>

lemma word_less_Suc: "(n :: 'a::len word) \<noteq> -1 \<Longrightarrow> n < n + 1"
proof -
  assume "n \<noteq> -1"
  then have "1 + n \<noteq> 0" by (metis add.commute add_eq_0_iff)
  then have "unat (1 + n) = Suc (unat n)" by (rule unatSuc)
  then show ?thesis by (simp add: word_less_nat_alt add.commute)
qed

lemma seq_not_max: "unat (n :: u64) + 1 < 2 ^ 64 \<Longrightarrow> n \<noteq> -1"
  by (auto simp: unsigned_minus_1_eq_mask mask_eq_exp_minus_1)

section \<open>The shared stream\<close>

text \<open>
  \<open>st_outbox\<close> lists the frames the channel accepted, in order. \<open>st_closed\<close> is the script of
  the coming sends: \<open>True\<close> where the receiver is gone, and an accepted send where the script
  is used up. A send that waits for capacity is one that is accepted later.
\<close>

record stream =
  st_seq :: u64
  st_outbox :: "AgentToHypervisor list"
  st_closed :: "bool list"

definition send_error :: error where
  "send_error = [Lib ''channel closed'']"

text \<open>\<open>seq.fetch_add(1, Ordering::SeqCst)\<close>, which wraps, and \<open>tx.send(frame).await\<close>.\<close>

definition seq_fetch_add :: "stream \<Rightarrow> u64 \<times> stream" where
  "seq_fetch_add s = (st_seq s, s\<lparr>st_seq := st_seq s + 1\<rparr>)"

definition tx_send :: "AgentToHypervisor \<Rightarrow> stream \<Rightarrow> (error + unit) \<times> stream" where
  "tx_send frame s =
     (let s' = s\<lparr>st_closed := tl (st_closed s)\<rparr> in
      if st_closed s \<noteq> [] \<and> hd (st_closed s) then (Inl send_error, s')
      else (Inr (), s'\<lparr>st_outbox := st_outbox s @ [frame]\<rparr>))"

text \<open>The channel and the counter of a new session.\<close>

definition new_stream :: "bool list \<Rightarrow> stream" where
  "new_stream script = \<lparr>st_seq = 1, st_outbox = [], st_closed = script\<rparr>"

lemma seq_fetch_add_simps [simp]:
  "fst (seq_fetch_add s) = st_seq s"
  "st_seq (snd (seq_fetch_add s)) = st_seq s + 1"
  "st_outbox (snd (seq_fetch_add s)) = st_outbox s"
  "st_closed (snd (seq_fetch_add s)) = st_closed s"
  by (simp_all add: seq_fetch_add_def)

lemma tx_send_seq [simp]: "st_seq (snd (tx_send f s)) = st_seq s"
  by (simp add: tx_send_def Let_def)

lemma tx_send_open [simp]: "st_closed s = [] \<Longrightarrow> tx_send f s = (Inr (), s\<lparr>st_outbox := st_outbox s @ [f]\<rparr>)"
  by (simp add: tx_send_def Let_def)

lemma tx_send_cases:
  obtains (accepted) s' where "tx_send f s = (Inr (), s')" "st_outbox s' = st_outbox s @ [f]"
      "st_seq s' = st_seq s" "st_closed s' = tl (st_closed s)" "st_closed s = [] \<or> \<not> hd (st_closed s)"
  | (gone) s' where "tx_send f s = (Inl send_error, s')" "st_outbox s' = st_outbox s"
      "st_seq s' = st_seq s" "st_closed s' = tl (st_closed s)" "st_closed s \<noteq> []" "hd (st_closed s)"
proof (cases "st_closed s \<noteq> [] \<and> hd (st_closed s)")
  case True
  then show ?thesis
    by (intro gone [of "s\<lparr>st_closed := tl (st_closed s)\<rparr>"]) (simp_all add: tx_send_def Let_def)
next
  case False
  then show ?thesis
    by (intro accepted [of "s\<lparr>st_closed := tl (st_closed s), st_outbox := st_outbox s @ [f]\<rparr>"])
       (simp_all add: tx_send_def Let_def)
qed

section \<open>Numbered frames\<close>

text \<open>
  One use of the stream: take a number, build the frame with it, send the frame. All the
  agent's frames but those the heartbeat task holds back are sent so.
\<close>

definition emit ::
  "('s \<Rightarrow> u64 \<times> 's) \<Rightarrow> (AgentToHypervisor \<Rightarrow> 's \<Rightarrow> (error + unit) \<times> 's)
     \<Rightarrow> (u64 \<Rightarrow> AgentToHypervisor) \<Rightarrow> 's \<Rightarrow> (error + unit) \<times> 's" where
  "emit fetch send frame s = (case fetch s of (n, s1) \<Rightarrow> send (frame n) s1)"

text \<open>
  The contract: numbers are handed out one after the other, a send appends the frame or
  leaves the stream's contents alone, and neither takes anything back.
\<close>

locale frame_stream =
  fixes take_seq :: "'s \<Rightarrow> u64 \<times> 's"
    and send_frame :: "AgentToHypervisor \<Rightarrow> 's \<Rightarrow> (error + unit) \<times> 's"
    and counter :: "'s \<Rightarrow> u64"
    and outbox :: "'s \<Rightarrow> AgentToHypervisor list"
  assumes take_value: "fst (take_seq s) = counter s"
    and take_counter: "counter (snd (take_seq s)) = counter s + 1"
    and take_outbox: "outbox (snd (take_seq s)) = outbox s"
    and send_counter: "counter (snd (send_frame f s)) = counter s"
    and send_ok: "fst (send_frame f s) = Inr () \<Longrightarrow> outbox (snd (send_frame f s)) = outbox s @ [f]"
    and send_err: "fst (send_frame f s) = Inl e \<Longrightarrow> outbox (snd (send_frame f s)) = outbox s"
begin

text \<open>
  The invariant of a session: the numbers of the frames sent are strictly increasing and
  below the counter. It counts in \<open>nat\<close>, so it speaks of sessions that take fewer than
  \<open>2 ^ 64\<close> numbers.
\<close>

definition numbered :: "'s \<Rightarrow> bool" where
  "numbered s \<longleftrightarrow> sorted_wrt (<) (map a2h_seq (outbox s)) \<and> (\<forall>f\<in>set (outbox s). a2h_seq f < counter s)"

lemma emit_counter: "counter (snd (emit take_seq send_frame frame s)) = counter s + 1"
  by (cases "take_seq s") (use take_counter [of s] in \<open>simp add: emit_def send_counter\<close>)

lemma emit_outbox:
  "outbox (snd (emit take_seq send_frame frame s)) =
     (if fst (emit take_seq send_frame frame s) = Inr () then outbox s @ [frame (counter s)] else outbox s)"
proof -
  obtain n s1 where t: "take_seq s = (n, s1)" by (meson surj_pair)
  then have "n = counter s" "outbox s1 = outbox s"
    using take_value [of s] take_outbox [of s] by simp_all
  with t show ?thesis
    using send_ok [of "frame n" s1] send_err [of "frame n" s1]
    by (cases "fst (send_frame (frame n) s1)") (simp_all add: emit_def)
qed

lemma emit_numbered:
  assumes "numbered s" and "counter s \<noteq> -1" and "\<And>n. a2h_seq (frame n) = n"
  shows "numbered (snd (emit take_seq send_frame frame s))"
proof -
  have lt: "counter s < counter s + 1"
    using assms(2) by (rule word_less_Suc)
  with assms(1,3) show ?thesis
    by (auto simp: numbered_def emit_outbox emit_counter sorted_wrt_append)
qed

end

interpretation fs: frame_stream seq_fetch_add tx_send st_seq st_outbox
proof unfold_locales
  fix f s and e :: error
  show "fst (tx_send f s) = Inr () \<Longrightarrow> st_outbox (snd (tx_send f s)) = st_outbox s @ [f]"
    by (cases rule: tx_send_cases [of f s]) auto
  show "fst (tx_send f s) = Inl e \<Longrightarrow> st_outbox (snd (tx_send f s)) = st_outbox s"
    by (cases rule: tx_send_cases [of f s]) auto
qed simp_all

lemma numbered_new_stream [simp]: "fs.numbered (new_stream script)"
  by (simp add: fs.numbered_def new_stream_def)

text \<open>\<open>emit\<close> on the session's stream.\<close>

abbreviation stream_emit :: "(u64 \<Rightarrow> AgentToHypervisor) \<Rightarrow> stream \<Rightarrow> (error + unit) \<times> stream" where
  "stream_emit \<equiv> emit seq_fetch_add tx_send"

lemma stream_emit_open:
  "st_closed s = [] \<Longrightarrow> stream_emit f s =
     (Inr (), s\<lparr>st_seq := st_seq s + 1, st_outbox := st_outbox s @ [f (st_seq s)]\<rparr>)"
  by (simp add: emit_def seq_fetch_add_def)

lemma stream_emit_closed [simp]: "st_closed (snd (stream_emit f s)) = tl (st_closed s)"
  by (cases rule: tx_send_cases [of "f (st_seq s)" "snd (seq_fetch_add s)"])
     (simp_all add: emit_def seq_fetch_add_def)

lemma stream_emit_result:
  "fst (stream_emit f s) = (if st_closed s \<noteq> [] \<and> hd (st_closed s) then Inl send_error else Inr ())"
  by (simp add: emit_def seq_fetch_add_def tx_send_def Let_def)

end
