(* ===== verification/Registration.thy ===== *)
theory Registration
  imports Command_Store Command_Handler Frame_Stream
begin

text \<open>
  The handler of the hypervisor's messages (\<open>src/src/agent/registration.rs\<close>): it answers the
  registration with the host's inventory and each command with a result, through the ledger.

  \<open>clock k\<close> is the \<open>k\<close>-th reading of the clock while the message is handled and \<open>pools k\<close>
  what \<open>discover_storage_pools\<close> returns at attempt \<open>k\<close>. The pause between two attempts
  changes nothing the model keeps.
\<close>

definition HOST_INVENTORY_SEND_MAX_ATTEMPTS :: nat where
  "HOST_INVENTORY_SEND_MAX_ATTEMPTS = 3"

text \<open>\<open>unix_now()\<close> of the ledger.\<close>

definition unix_now :: "system_time \<Rightarrow> int" where
  "unix_now t = int (as_secs (since_epoch t))"

section \<open>The inventory\<close>

text \<open>
  The loop \<open>for attempt in 1..=MAX\<close>, from \<open>attempt\<close> on, with \<open>left\<close> attempts to go. It
  returns the last error, or \<open>None\<close> once a frame is sent.
\<close>

fun inventory_attempts ::
  "HostFacts \<Rightarrow> string \<Rightarrow> (nat \<Rightarrow> StoragePool list) \<Rightarrow> (nat \<Rightarrow> system_time)
     \<Rightarrow> nat \<Rightarrow> nat \<Rightarrow> error option \<Rightarrow> stream \<Rightarrow> error option \<times> stream" where
  "inventory_attempts facts stream_id pools clock 0 attempt last_error s = (last_error, s)"
| "inventory_attempts facts stream_id pools clock (Suc left) attempt last_error s =
     (case stream_emit (\<lambda>seq. host_inventory_frame facts stream_id seq (pools attempt) (clock attempt)) s of
        (Inr _, s1) \<Rightarrow> (None, s1)
      | (Inl err, s1) \<Rightarrow>
          inventory_attempts facts stream_id pools clock left (Suc attempt) (Some err) s1)"

definition send_host_inventory_with_retry ::
  "HostFacts \<Rightarrow> string \<Rightarrow> (nat \<Rightarrow> StoragePool list) \<Rightarrow> (nat \<Rightarrow> system_time) \<Rightarrow> stream
     \<Rightarrow> (error + unit) \<times> stream" where
  "send_host_inventory_with_retry facts stream_id pools clock s =
     (case inventory_attempts facts stream_id pools clock HOST_INVENTORY_SEND_MAX_ATTEMPTS 1 None s of
        (Some err, s1) \<Rightarrow> (Inl (context_err ''send host inventory after retries'' err), s1)
      | (None, s1) \<Rightarrow> (Inr (), s1))"

section \<open>Commands\<close>

text \<open>The status, the result and the error message the agent answers a command with.\<close>

type_synonym answer = "string \<times> string \<times> string"

definition existing_answer :: "LedgerRecord \<Rightarrow> answer" where
  "existing_answer record =
     (if rec_status record = ''running'' then (''running'', ''{}'', [])
      else if rec_status record = ''succeeded''
        then (''succeeded'', rec_result_json record, rec_error_message record)
      else (''failed'', rec_result_json record, rec_error_message record))"

definition process_command ::
  "'v libs \<Rightarrow> (nat \<Rightarrow> system_time) \<Rightarrow> AgentCommand \<Rightarrow> CommandLedger
     \<Rightarrow> (error + answer) \<times> CommandLedger" where
  "process_command L clock command l =
     (case begin_or_get L l (cmd_command_id command) (cmd_type command) (cmd_payload_json command)
         (unix_now (clock 0)) of
        (Inl e, l1) \<Rightarrow> (Inl e, l1)
      | (Inr (New _), l1) \<Rightarrow>
          (case execute_agent_command L (cmd_type command) (cmd_payload_json command) of
             Inr value \<Rightarrow>
               (case complete l1 (cmd_command_id command) ''succeeded'' value [] (unix_now (clock 1)) of
                  (Inl e, l2) \<Rightarrow> (Inl e, l2)
                | (Inr _, l2) \<Rightarrow> (Inr (''succeeded'', value, []), l2))
           | Inl err \<Rightarrow>
               (case complete l1 (cmd_command_id command) ''failed'' ''{}'' (err_text err)
                   (unix_now (clock 1)) of
                  (Inl e, l2) \<Rightarrow> (Inl e, l2)
                | (Inr _, l2) \<Rightarrow> (Inr (''failed'', ''{}'', err_text err), l2)))
      | (Inr (Existing record), l1) \<Rightarrow> (Inr (existing_answer record), l1)
      | (Inr (PayloadMismatch _), l1) \<Rightarrow>
          (Inr (''failed'', ''{}'', ''command_id_payload_mismatch''), l1))"

definition command_result_frame ::
  "HostFacts \<Rightarrow> string \<Rightarrow> string \<Rightarrow> answer \<Rightarrow> system_time \<Rightarrow> u64 \<Rightarrow> AgentToHypervisor" where
  "command_result_frame facts stream_id command_id answer now seq =
     (case answer of (status, result_json, error_message) \<Rightarrow>
        \<lparr>a2h_stream_id = stream_id, a2h_seq = seq,
         a2h_message = Some (CommandResultMsg
           \<lparr>cr_agent_id = agent_id facts, cr_host_id = host_id facts,
            cr_command_id = command_id, cr_status = status, cr_result_json = result_json,
            cr_error_message = error_message,
            cr_completed_at = Some (system_time_to_timestamp now)\<rparr>)\<rparr>)"

section \<open>The handler\<close>

definition handle_server_message ::
  "'v libs \<Rightarrow> HostFacts \<Rightarrow> string \<Rightarrow> (nat \<Rightarrow> StoragePool list) \<Rightarrow> (nat \<Rightarrow> system_time)
     \<Rightarrow> HypervisorToAgent \<Rightarrow> CommandLedger \<times> stream
     \<Rightarrow> (error + unit) \<times> CommandLedger \<times> stream" where
  "handle_server_message L facts stream_id pools clock frame st =
     (case st of (l, s) \<Rightarrow>
      case h2a_message frame of
        Some (RegisterAckMsg ack) \<Rightarrow>
          (case send_host_inventory_with_retry facts stream_id pools clock s of
             (r, s1) \<Rightarrow> (r, l, s1))
      | Some (HeartbeatAckMsg ack) \<Rightarrow> (Inr (), l, s)
      | Some (CommandMsg command) \<Rightarrow>
          (case process_command L clock command l of
             (Inl e, l1) \<Rightarrow> (Inl e, l1, s)
           | (Inr answer, l1) \<Rightarrow>
               (case stream_emit (command_result_frame facts stream_id (cmd_command_id command)
                    answer (clock 2)) s of
                  (r, s1) \<Rightarrow> (with_context ''send command result'' r, l1, s1)))
      | None \<Rightarrow> (Inr (), l, s))"

lemma command_result_frame_seq [simp]: "a2h_seq (command_result_frame f sid i a t n) = n"
  by (simp add: command_result_frame_def split: prod.split)

lemma host_inventory_frame_seq [simp]: "a2h_seq (host_inventory_frame f sid n p t) = n"
  by (simp add: host_inventory_frame_def)

section \<open>Lemmas\<close>

lemma inventory_attempts_spec:
  fixes s :: stream and left :: nat
  defines "k \<equiv> length (takeWhile (\<lambda>b. b) (take left (st_closed s)))"
  shows "inventory_attempts facts sid pools clock left attempt last_error s =
    (if k = left then (if left = 0 then last_error else Some send_error,
        s\<lparr>st_seq := st_seq s + of_nat left, st_closed := drop left (st_closed s)\<rparr>)
     else (None, s\<lparr>st_seq := st_seq s + of_nat k + 1, st_closed := drop (Suc k) (st_closed s),
        st_outbox := st_outbox s @ [host_inventory_frame facts sid (st_seq s + of_nat k)
          (pools (attempt + k)) (clock (attempt + k))]\<rparr>))"
  unfolding k_def
proof (induction left arbitrary: attempt last_error s)
  case (Suc left)
  show ?case
  proof (cases "st_closed s \<noteq> [] \<and> hd (st_closed s)")
    case True
    then obtain cl where "st_closed s = True # cl" by (cases "st_closed s") auto
    then show ?thesis
      by (simp add: emit_def seq_fetch_add_def tx_send_def Suc.IH algebra_simps)
  next
    case False
    then show ?thesis
      by (cases "st_closed s") (auto simp: emit_def seq_fetch_add_def tx_send_def)
  qed
qed simp

lemma begin_or_get_no_fault:
  assumes "sql_faults l = []" and "\<not> poisoned l"
  shows "sql_faults (snd (begin_or_get L l i t p n)) = [] \<and> \<not> poisoned (snd (begin_or_get L l i t p n))"
  using assms
  by (auto simp: begin_or_get_def load_record_def insert_row_def Let_def split: option.splits)

lemma complete_no_fault:
  assumes "sql_faults l = []" and "\<not> poisoned l"
  shows "fst (complete l i st rj em n) = Inr ()"
    and "sql_faults (snd (complete l i st rj em n)) = [] \<and> \<not> poisoned (snd (complete l i st rj em n))"
  using assms by (simp_all add: complete_def update_rows_def)

text \<open>How a command is processed, by what the ledger answers.\<close>

lemma process_command_cases:
  obtains (ledger_error) e l1 where "process_command L ck c l = (Inl e, l1)"
  | (executed) m r l1 l2 where
      "process_command L ck c l = (Inr (''failed'', ''{}'', m), l2)"
      "execute_agent_command L (cmd_type c) (cmd_payload_json c) = Inl (anyhow m)"
      "begin_or_get L l (cmd_command_id c) (cmd_type c) (cmd_payload_json c) (unix_now (ck 0))
         = (Inr (New r), l1)"
      "complete l1 (cmd_command_id c) ''failed'' ''{}'' m (unix_now (ck 1)) = (Inr (), l2)"
  | (known) r l1 where "process_command L ck c l = (Inr (existing_answer r), l1)"
      "begin_or_get L l (cmd_command_id c) (cmd_type c) (cmd_payload_json c) (unix_now (ck 0))
         = (Inr (Existing r), l1)"
  | (mismatch) r l1 where
      "process_command L ck c l = (Inr (''failed'', ''{}'', ''command_id_payload_mismatch''), l1)"
      "begin_or_get L l (cmd_command_id c) (cmd_type c) (cmd_payload_json c) (unix_now (ck 0))
         = (Inr (PayloadMismatch r), l1)"
proof -
  obtain m where x: "execute_agent_command L (cmd_type c) (cmd_payload_json c) = Inl (anyhow m)"
    using execute_agent_command_error by blast
  obtain b l1 where b: "begin_or_get L l (cmd_command_id c) (cmd_type c) (cmd_payload_json c)
      (unix_now (ck 0)) = (b, l1)" by (meson surj_pair)
  obtain d l2 where d: "complete l1 (cmd_command_id c) ''failed'' ''{}'' m (unix_now (ck 1)) = (d, l2)"
    by (meson surj_pair)
  show ?thesis
  proof (cases b)
    case (Inl e)
    with b show ?thesis by (intro ledger_error) (simp add: process_command_def)
  next
    case (Inr a)
    show ?thesis
    proof (cases a)
      case (New r)
      with b Inr x d show ?thesis
        by (cases d) (auto simp: process_command_def intro: ledger_error executed)
    next
      case (Existing r)
      with b Inr show ?thesis by (intro known) (simp_all add: process_command_def)
    next
      case (PayloadMismatch r)
      with b Inr show ?thesis by (intro mismatch) (simp_all add: process_command_def)
    qed
  qed
qed

section \<open>Answering commands\<close>

text \<open>The answer the ledger's table determines when no statement fails, and the table it leaves.\<close>

definition command_answer :: "'v libs \<Rightarrow> CommandLedger \<Rightarrow> AgentCommand \<Rightarrow> answer" where
  "command_answer L l c = (case ledger_find l (trim (cmd_command_id c)) of
       None \<Rightarrow> (case execute_agent_command L (cmd_type c) (cmd_payload_json c) of
           Inr v \<Rightarrow> (''succeeded'', v, []) | Inl e \<Rightarrow> (''failed'', ''{}'', err_text e))
     | Some r \<Rightarrow> if same_request L r (cmd_type c) (cmd_payload_json c) then existing_answer r
         else (''failed'', ''{}'', ''command_id_payload_mismatch''))"

definition command_table :: "'v libs \<Rightarrow> CommandLedger \<Rightarrow> AgentCommand \<Rightarrow> string \<Rightarrow> LedgerRecord option" where
  "command_table L l c = (case ledger_find l (trim (cmd_command_id c)) of
       Some r \<Rightarrow> ledger_find l
     | None \<Rightarrow> (ledger_find l)(trim (cmd_command_id c) := Some
         \<lparr>rec_command_id = trim (cmd_command_id c), rec_command_type = trim (cmd_type c),
          rec_payload_hash = hash_payload L (cmd_payload_json c),
          rec_resource_key = extract_resource_key L (cmd_payload_json c),
          rec_status = fst (command_answer L l c),
          rec_result_json = normalize_result_json (fst (snd (command_answer L l c))),
          rec_error_message = trim (snd (snd (command_answer L l c)))\<rparr>))"

lemma trim_statuses [simp]:
  "trim ''failed'' = ''failed''" "trim ''succeeded'' = ''succeeded''" "trim ''running'' = ''running''"
  "normalize_result_json ''{}'' = ''{}''"
  by (simp_all add: normalize_result_json_def text_simps)

lemma complete_find_all:
  assumes "ledger_wf l" and "complete l i st rj em n = (Inr u, l')"
  shows "ledger_find l' = (ledger_find l)(trim i := map_option (settle_record st rj em) (ledger_find l (trim i)))"
proof
  fix k
  show "ledger_find l' k = ((ledger_find l)(trim i := map_option (settle_record st rj em)
      (ledger_find l (trim i)))) k"
    using ledger_complete_find [OF assms] ledger_complete_find_other [OF assms(1), of k i st rj em n] assms(2)
    by (cases "k = trim i") simp_all
qed

lemma process_command_no_fault:
  assumes "ledger_wf l" and "sql_faults l = []" and "\<not> poisoned l"
    and "trim (cmd_command_id c) \<noteq> []"
  shows "\<exists>l'. process_command L ck c l = (Inr (command_answer L l c), l')
    \<and> ledger_find l' = command_table L l c \<and> ledger_wf l' \<and> sql_faults l' = [] \<and> \<not> poisoned l'"
proof -
  let ?i = "cmd_command_id c" and ?t = "cmd_type c" and ?p = "cmd_payload_json c"
  obtain b l1 where b: "begin_or_get L l ?i ?t ?p (unix_now (ck 0)) = (b, l1)" by (meson surj_pair)
  have l1: "sql_faults l1 = []" "\<not> poisoned l1" "ledger_wf l1"
    using begin_or_get_no_fault [OF assms(2,3), of L ?i ?t ?p "unix_now (ck 0)"]
      ledger_begin_wf [OF assms(1), of L ?i ?t ?p "unix_now (ck 0)"] b by simp_all
  note spec = lg.begin_new [OF assms(1)] lg.begin_known [OF assms(1)]
  show ?thesis
  proof (cases "ledger_find l (trim ?i)")
    case (Some r)
    with b assms have l1_rows: "ledger_find l1 = ledger_find l"
        "b = Inr (if same_request L r ?t ?p then Existing r else PayloadMismatch r)"
      by (auto simp: begin_or_get_def load_record_def Let_def ledger_find_def same_request_def fun_eq_iff
          split: if_splits)
    with b Some l1 show ?thesis
      by (simp add: process_command_def command_answer_def command_table_def)
  next
    case None
    let ?r = "record_of_row (new_row L ?i ?t ?p (unix_now (ck 0)))"
    from None b assms have fresh: "b = Inr (New ?r)" "ledger_find l1 = (ledger_find l)(trim ?i := Some ?r)"
      by (auto simp: begin_or_get_def load_record_def insert_row_def Let_def ledger_find_def fun_eq_iff)
    obtain m where x: "execute_agent_command L ?t ?p = Inl (anyhow m)"
      using execute_agent_command_error by blast
    obtain l2 where l2: "complete l1 ?i ''failed'' ''{}'' m (unix_now (ck 1)) = (Inr (), l2)"
        "sql_faults l2 = []" "\<not> poisoned l2"
      using complete_no_fault [OF l1(1,2), of ?i "''failed''" "''{}''" m "unix_now (ck 1)"]
      by (metis prod.collapse)
    have "ledger_wf l2" using ledger_complete_wf [OF l1(3)] l2(1) by (metis snd_conv)
    moreover have "ledger_find l2 = command_table L l c"
      using complete_find_all [OF l1(3) l2(1)] fresh(2) None x
      by (simp add: command_table_def command_answer_def settle_record_def record_of_row_def new_row_def)
    ultimately show ?thesis
      using b fresh(1) x l2 None by (simp add: process_command_def command_answer_def)
  qed
qed

text \<open>
  C3. Every command with an identifier is answered, when no statement fails and the channel
  takes frames: exactly one result frame is sent, with the next number and the identifier
  as it came. Its status, result and error are those of the execution for a command the
  ledger did not hold, those recorded for one it held with the same type and payload, and a
  mismatch failure otherwise; the ledger's table records the answer.
\<close>

theorem command_is_answered:
  assumes "h2a_message fr = Some (CommandMsg c)" and "trim (cmd_command_id c) \<noteq> []"
    and "ledger_wf l" and "sql_faults l = []" and "\<not> poisoned l" and "st_closed s = []"
  shows "\<exists>l'. handle_server_message L facts sid pools ck fr (l, s) = (Inr (), l',
        s\<lparr>st_seq := st_seq s + 1, st_outbox := st_outbox s
            @ [command_result_frame facts sid (cmd_command_id c) (command_answer L l c) (ck 2) (st_seq s)]\<rparr>)
    \<and> ledger_find l' = command_table L l c \<and> ledger_wf l'"
  using process_command_no_fault [OF assms(3-5,2), of L ck] assms(1,6)
  by (auto simp: handle_server_message_def stream_emit_open)

definition demo_command :: AgentCommand where
  "demo_command = \<lparr>cmd_command_id = '' c1'', cmd_idempotency_key = [], cmd_type = ''Start'',
     cmd_payload_json = ''{}''\<rparr>"

definition demo_command_frame :: HypervisorToAgent where
  "demo_command_frame = \<lparr>h2a_stream_id = ''s'', h2a_seq = 1, h2a_message = Some (CommandMsg demo_command)\<rparr>"

theorem command_is_answered_witness:
  "\<exists>l'. handle_server_message demo_libs demo_facts ''s'' (\<lambda>k. []) (\<lambda>k. int k)
        demo_command_frame (empty_ledger, new_stream []) = (Inr (), l',
        \<lparr>st_seq = 2, st_outbox = [command_result_frame demo_facts ''s'' '' c1''
            (command_answer demo_libs empty_ledger demo_command) 2 1], st_closed = []\<rparr>)
    \<and> fst (command_answer demo_libs empty_ledger demo_command) = ''failed''"
proof -
  have id: "trim (cmd_command_id demo_command) \<noteq> []" by (simp add: demo_command_def text_simps)
  have "fst (command_answer demo_libs empty_ledger demo_command) = ''failed''"
    using execute_agent_command_error [of demo_libs "cmd_type demo_command" "cmd_payload_json demo_command"]
    by (auto simp: command_answer_def ledger_find_def empty_ledger_def)
  then show ?thesis
    using command_is_answered [of demo_command_frame, OF _ id ledger_wf_empty,
        of "new_stream []" demo_libs demo_facts "''s''" "\<lambda>k. []" "\<lambda>k. int k"]
    by (auto simp: demo_command_frame_def demo_command_def empty_ledger_def new_stream_def)
qed

text \<open>
  A command with no identifier is not answered: the handler returns an error, which ends
  the session, and neither the ledger nor the stream changes.
\<close>

lemma blank_command_id_ends_session:
  assumes "h2a_message fr = Some (CommandMsg c)" and "trim (cmd_command_id c) = []"
  shows "handle_server_message L facts sid pools ck fr (l, s)
    = (Inl (anyhow ''command_id is required''), l, s)"
  using assms by (simp add: handle_server_message_def process_command_def begin_or_get_def)

lemma blank_command_id_ends_session_example:
  "handle_server_message demo_libs demo_facts ''s'' (\<lambda>k. []) (\<lambda>k. int k)
     \<lparr>h2a_stream_id = ''s'', h2a_seq = 1, h2a_message = Some (CommandMsg (demo_command\<lparr>cmd_command_id := '' ''\<rparr>))\<rparr>
     (empty_ledger, new_stream [])
   = (Inl (anyhow ''command_id is required''), empty_ledger, new_stream [])"
  by (rule blank_command_id_ends_session [where c = "demo_command\<lparr>cmd_command_id := '' ''\<rparr>"])
     (simp_all add: text_simps)

section \<open>Redelivery\<close>

lemma command_answer_known:
  assumes "ledger_find l (trim (cmd_command_id c)) = Some r"
  shows "command_table L l c = ledger_find l"
    and "command_answer L l c = (if same_request L r (cmd_type c) (cmd_payload_json c)
      then existing_answer r else (''failed'', ''{}'', ''command_id_payload_mismatch''))"
  using assms by (simp_all add: command_table_def command_answer_def)

lemma command_answer_fresh:
  assumes "ledger_find l (trim (cmd_command_id c)) = None"
  obtains m where "command_answer L l c = (''failed'', ''{}'', m)"
    "ledger_find l' = command_table L l c \<Longrightarrow> command_answer L l' c = (''failed'', ''{}'', trim m)"
proof -
  obtain m where x: "execute_agent_command L (cmd_type c) (cmd_payload_json c) = Inl (anyhow m)"
    using execute_agent_command_error by blast
  show ?thesis
    by (rule that [of m])
       (use assms x in \<open>simp_all add: command_answer_def command_table_def same_request_def existing_answer_def\<close>)
qed

text \<open>
  C2. Redelivery: a command that is handled twice, with no fault in between, changes the
  ledger once. Both times one frame with the same status, the same result and, but for
  surrounding white space, the same error message is sent.
\<close>

theorem redelivery_is_idempotent:
  assumes "h2a_message fr = Some (CommandMsg c)" and "trim (cmd_command_id c) \<noteq> []"
    and "ledger_wf l" and "sql_faults l = []" and "\<not> poisoned l" and "st_closed s = []"
    and "handle_server_message L facts sid pools ck fr (l, s) = (r1, l1, s1)"
    and "handle_server_message L facts sid pools ck' fr (l1, s1) = (r2, l2, s2)"
  shows "\<exists>st res e1 e2. r1 = Inr () \<and> r2 = Inr () \<and> ledger_find l2 = ledger_find l1 \<and> trim e1 = trim e2
    \<and> st_outbox s2 = st_outbox s
      @ [command_result_frame facts sid (cmd_command_id c) (st, res, e1) (ck 2) (st_seq s),
         command_result_frame facts sid (cmd_command_id c) (st, res, e2) (ck' 2) (st_seq s + 1)]"
proof -
  let ?k = "trim (cmd_command_id c)"
  have first: "ledger_find l1 = command_table L l c" "ledger_wf l1" "r1 = Inr ()" "sql_faults l1 = []"
      "\<not> poisoned l1"
      "s1 = s\<lparr>st_seq := st_seq s + 1, st_outbox := st_outbox s
            @ [command_result_frame facts sid (cmd_command_id c) (command_answer L l c) (ck 2) (st_seq s)]\<rparr>"
    using process_command_no_fault [OF assms(3-5,2), of L ck] assms(1,6,7)
    by (auto simp: handle_server_message_def stream_emit_open)
  have second: "ledger_find l2 = command_table L l1 c" "r2 = Inr ()"
      "st_outbox s2 = st_outbox s1
         @ [command_result_frame facts sid (cmd_command_id c) (command_answer L l1 c) (ck' 2) (st_seq s1)]"
    using process_command_no_fault [OF first(2,4,5) assms(2), of L ck'] assms(1,6,8) first(6)
    by (auto simp: handle_server_message_def stream_emit_open)
  have "\<exists>r. ledger_find l1 ?k = Some r"
    using first(1) by (auto simp: command_table_def split: option.splits)
  then have table: "ledger_find l2 = ledger_find l1"
    using command_answer_known(1) second(1) by metis
  obtain st res e1 e2 where "command_answer L l c = (st, res, e1) \<and> command_answer L l1 c = (st, res, e2)
      \<and> trim e1 = trim e2"
  proof (cases "ledger_find l ?k")
    case None
    from command_answer_fresh [OF None, of L l1] first(1) obtain m where
      "command_answer L l c = (''failed'', ''{}'', m)" "command_answer L l1 c = (''failed'', ''{}'', trim m)"
      by metis
    then show ?thesis by (intro that [of "''failed''" "''{}''" m "trim m"]) simp
  next
    case (Some r)
    then have "ledger_find l1 = ledger_find l" using first(1) by (simp add: command_answer_known)
    then have "command_answer L l1 c = command_answer L l c" by (simp add: command_answer_def)
    then show ?thesis by (cases "command_answer L l c") (auto intro: that)
  qed
  with first(3,6) second(2,3) table show ?thesis
    by (intro exI [of _ st] exI [of _ res] exI [of _ e1] exI [of _ e2]) simp
qed

theorem redelivery_is_idempotent_witness:
  "\<exists>l1 s1 l2 s2.
     handle_server_message demo_libs demo_facts ''s'' (\<lambda>k. []) (\<lambda>k. int k + 1)
       demo_command_frame (empty_ledger, new_stream []) = (Inr (), l1, s1)
     \<and> handle_server_message demo_libs demo_facts ''s'' (\<lambda>k. []) (\<lambda>k. int k + 9)
       demo_command_frame (l1, s1) = (Inr (), l2, s2)
     \<and> ledger_find l2 = ledger_find l1 \<and> length (st_outbox s2) = 2"
proof -
  let ?h = "handle_server_message demo_libs demo_facts ''s'' (\<lambda>k. [])"
  obtain r1 l1 s1 where one: "?h (\<lambda>k. int k + 1) demo_command_frame (empty_ledger, new_stream []) = (r1, l1, s1)"
    using prod_cases3 by blast
  obtain r2 l2 s2 where two: "?h (\<lambda>k. int k + 9) demo_command_frame (l1, s1) = (r2, l2, s2)"
    using prod_cases3 by blast
  have hyps: "h2a_message demo_command_frame = Some (CommandMsg demo_command)"
      "trim (cmd_command_id demo_command) \<noteq> []" "sql_faults empty_ledger = []" "\<not> poisoned empty_ledger"
      "st_closed (new_stream []) = []"
    by (simp_all add: demo_command_frame_def demo_command_def empty_ledger_def new_stream_def text_simps)
  from redelivery_is_idempotent [OF hyps(1,2) ledger_wf_empty hyps(3-5) one two] one two
  show ?thesis by (auto simp: new_stream_def)
qed

section \<open>The inventory\<close>

lemma inventory_sent_eq:
  fixes s :: stream
  defines "k \<equiv> length (takeWhile (\<lambda>b. b) (take 3 (st_closed s)))"
  shows "send_host_inventory_with_retry facts sid pools ck s =
    (if k = 3 then (Inl (context_err ''send host inventory after retries'' send_error),
        s\<lparr>st_seq := st_seq s + 3, st_closed := drop 3 (st_closed s)\<rparr>)
     else (Inr (), s\<lparr>st_seq := st_seq s + of_nat k + 1, st_closed := drop (Suc k) (st_closed s),
        st_outbox := st_outbox s @ [host_inventory_frame facts sid (st_seq s + of_nat k)
          (pools (1 + k)) (ck (1 + k))]\<rparr>))"
  unfolding send_host_inventory_with_retry_def HOST_INVENTORY_SEND_MAX_ATTEMPTS_def inventory_attempts_spec
  by (simp add: k_def)

text \<open>
  C33. The answer to a registration: the inventory is sent once, at the first attempt of at
  most three that the channel takes, with the number that attempt took; each refused
  attempt used a number up. It is an error exactly when three attempts are refused.
\<close>

theorem inventory_sent_once:
  fixes s :: stream
  defines "k \<equiv> length (takeWhile (\<lambda>b. b) (take 3 (st_closed s)))"
  shows "send_host_inventory_with_retry facts sid pools ck s =
    (if k = 3 then (Inl (context_err ''send host inventory after retries'' send_error),
        s\<lparr>st_seq := st_seq s + 3, st_closed := drop 3 (st_closed s)\<rparr>)
     else (Inr (), s\<lparr>st_seq := st_seq s + of_nat k + 1, st_closed := drop (Suc k) (st_closed s),
        st_outbox := st_outbox s @ [host_inventory_frame facts sid (st_seq s + of_nat k)
          (pools (1 + k)) (ck (1 + k))]\<rparr>))"
  unfolding k_def by (rule inventory_sent_eq)

section \<open>Safety of the handler\<close>

lemma inventory_numbered:
  assumes "fs.numbered s" and "unat (st_seq s) + left < 2 ^ 64"
  shows "fs.numbered (snd (inventory_attempts facts sid pools ck left attempt e s))"
  using assms
proof (induction left arbitrary: attempt e s)
  case (Suc left)
  let ?f = "\<lambda>seq. host_inventory_frame facts sid seq (pools attempt) (ck attempt)"
  have ne: "st_seq s \<noteq> -1" using Suc.prems(2) by (intro seq_not_max) simp
  have num: "fs.numbered (snd (stream_emit ?f s))"
    using Suc.prems(1) ne by (rule fs.emit_numbered) simp
  have "unat (st_seq s + 1) = Suc (unat (st_seq s))"
    using ne by (simp add: add.commute unatSuc add_eq_0_iff)
  then have "unat (st_seq (snd (stream_emit ?f s))) + left < 2 ^ 64"
    using Suc.prems(2) by (simp add: fs.emit_counter)
  with num Suc.IH show ?case by (auto split: prod.splits sum.splits)
qed simp

lemma handler_numbered:
  assumes "fs.numbered s" and "unat (st_seq s) + 3 < 2 ^ 64"
  shows "fs.numbered (snd (snd (handle_server_message L facts sid pools ck fr (l, s))))"
proof -
  have ne: "st_seq s \<noteq> -1" using assms(2) by (intro seq_not_max) simp
  have inv: "fs.numbered (snd (send_host_inventory_with_retry facts sid pools ck s))"
    using inventory_numbered [OF assms(1), of 3 facts sid pools ck 1 None] assms(2)
    by (auto simp: send_host_inventory_with_retry_def HOST_INVENTORY_SEND_MAX_ATTEMPTS_def
        split: prod.splits option.splits)
  have res: "fs.numbered (snd (stream_emit (command_result_frame facts sid i a t) s))" for i a t
    using assms(1) ne by (rule fs.emit_numbered) simp
  from inv res assms(1) show ?thesis
    by (auto simp: handle_server_message_def split: option.splits HypervisorMessage.splits prod.splits sum.splits)
       (metis snd_conv)+
qed

text \<open>Commands that have succeeded: in the ledger and in the frames sent.\<close>

definition reports_success :: "AgentToHypervisor \<Rightarrow> bool" where
  "reports_success fr = (case a2h_message fr of
     Some (CommandResultMsg r) \<Rightarrow> cr_status r = ''succeeded'' | _ \<Rightarrow> False)"

lemma stream_emit_reports:
  assumes "\<forall>f\<in>set (st_outbox s). \<not> reports_success f" and "\<not> reports_success (frame (st_seq s))"
  shows "\<forall>f\<in>set (st_outbox (snd (stream_emit frame s))). \<not> reports_success f"
  using assms by (simp add: fs.emit_outbox)

lemma inventory_reports:
  assumes "\<forall>f\<in>set (st_outbox s). \<not> reports_success f"
  shows "\<forall>f\<in>set (st_outbox (snd (send_host_inventory_with_retry facts sid pools ck s))). \<not> reports_success f"
  using assms unfolding inventory_sent_eq
  by (auto simp: reports_success_def host_inventory_frame_def)

definition none_succeeded :: "CommandLedger \<Rightarrow> bool" where
  "none_succeeded l \<longleftrightarrow> (\<forall>k r. rows l k = Some r \<longrightarrow> row_status r \<noteq> ''succeeded'')"

lemma none_succeeded_find:
  "none_succeeded l \<longleftrightarrow> (\<forall>k r. ledger_find l k = Some r \<longrightarrow> rec_status r \<noteq> ''succeeded'')"
  by (force simp: none_succeeded_def ledger_find_def)

lemma begin_none_succeeded:
  "none_succeeded l \<Longrightarrow> none_succeeded (snd (begin_or_get L l i t p n))"
  by (rule begin_or_get_cases [of L l i t p n])
     (auto simp: none_succeeded_def new_row_def split: if_splits)

lemma complete_none_succeeded:
  "none_succeeded l \<Longrightarrow> none_succeeded (snd (complete l i ''failed'' rj em n))"
  by (rule complete_cases [of l i "''failed''" rj em n]) (auto simp: none_succeeded_def complete_row_def)

lemma process_command_status:
  assumes "process_command L ck c l = (r, l1)" and "none_succeeded l"
  shows "none_succeeded l1" and "r = Inr a \<Longrightarrow> fst a \<noteq> ''succeeded''"
proof -
  let ?b = "begin_or_get L l (cmd_command_id c) (cmd_type c) (cmd_payload_json c) (unix_now (ck 0))"
  obtain m where x: "execute_agent_command L (cmd_type c) (cmd_payload_json c) = Inl (anyhow m)"
    using execute_agent_command_error by blast
  have begun: "none_succeeded (snd ?b)" using assms(2) by (rule begin_none_succeeded)
  then have "none_succeeded (snd (complete (snd ?b) (cmd_command_id c) ''failed'' ''{}'' m (unix_now (ck 1))))"
    by (rule complete_none_succeeded)
  with begun assms(1) x show "none_succeeded l1"
    by (auto simp: process_command_def split: prod.splits sum.splits BeginOrGet.splits)
  assume r: "r = Inr a"
  have "rec_status q \<noteq> ''succeeded''" if "fst ?b = Inr (Existing q)" for q
    using that assms(2)
    by (cases rule: begin_or_get_cases [of L l "cmd_command_id c" "cmd_type c" "cmd_payload_json c" "unix_now (ck 0)"])
       (auto simp: none_succeeded_find)
  with r assms(1) x show "fst a \<noteq> ''succeeded''"
    by (auto simp: process_command_def existing_answer_def
        split: prod.splits sum.splits BeginOrGet.splits if_splits)
qed

text \<open>
  As long as no command is implemented, the agent never claims that one succeeded: where
  the ledger holds no succeeded command and none was reported, no message makes it hold one
  and no result frame with that status is sent, even when statements or sends fail.
\<close>

lemma no_success_reported:
  assumes "none_succeeded l" and "\<forall>f\<in>set (st_outbox s). \<not> reports_success f"
    and "handle_server_message L facts sid pools ck fr (l, s) = (r, l1, s1)"
  shows "none_succeeded l1 \<and> (\<forall>f\<in>set (st_outbox s1). \<not> reports_success f)"
proof (cases "h2a_message fr")
  case None
  with assms show ?thesis by (simp add: handle_server_message_def)
next
  case (Some m)
  show ?thesis
  proof (cases m)
    case (RegisterAckMsg a)
    with Some assms inventory_reports [OF assms(2), of facts sid pools ck] show ?thesis
      by (auto simp: handle_server_message_def split: prod.splits)
  next
    case (HeartbeatAckMsg a)
    with Some assms show ?thesis by (simp add: handle_server_message_def)
  next
    case (CommandMsg c)
    obtain q l2 where q: "process_command L ck c l = (q, l2)" by (meson surj_pair)
    show ?thesis
    proof (cases q)
      case (Inl e)
      with Some CommandMsg q assms process_command_status(1) [OF q] show ?thesis
        by (simp add: handle_server_message_def)
    next
      case (Inr a)
      have "\<not> reports_success (command_result_frame facts sid i a t n)" for i t n
        using process_command_status(2) [OF q assms(1) Inr]
        by (cases a) (simp add: reports_success_def command_result_frame_def)
      then have "\<forall>f\<in>set (st_outbox (snd (stream_emit (command_result_frame facts sid
          (cmd_command_id c) a (ck 2)) s))). \<not> reports_success f"
        using assms(2) by (intro stream_emit_reports) auto
      with Some CommandMsg q Inr assms process_command_status(1) [OF q] show ?thesis
        by (auto simp: handle_server_message_def split: prod.splits)
    qed
  qed
qed

end
