(* ===== verification/Heartbeat.thy ===== *)
theory Heartbeat
  imports Frame_Stream
begin

text \<open>
  The heartbeat task (\<open>src/src/agent/heartbeat.rs\<close>), one step for each thing it awaits: its
  \<open>select!\<close> meets the shutdown token or a tick, and a tick takes a number, builds the frame
  and waits for the channel to take it. The counter and the channel are shared with the
  session's own loop, which may use them whenever the task waits; these uses stand between
  the task's own events.
\<close>

section \<open>The task\<close>

definition heartbeat_interval :: "duration \<Rightarrow> duration" where
  "heartbeat_interval d = max d (from_secs 1)"

definition heartbeat_frame ::
  "HostRegistration \<Rightarrow> string \<Rightarrow> system_time \<Rightarrow> u64 \<Rightarrow> AgentToHypervisor" where
  "heartbeat_frame registration stream_id now seq =
     \<lparr>a2h_stream_id = stream_id, a2h_seq = seq,
      a2h_message = Some (HeartbeatMsg
        \<lparr>hb_agent_id = reg_agent_id registration, hb_host_id = reg_host_id registration,
         hb_status = ''online'',
         hb_last_seen_at = Some (system_time_to_timestamp now)\<rparr>)\<rparr>"

text \<open>Where the task stands: at its \<open>select!\<close>, in \<open>tx.send(heartbeat).await\<close>, or past its loop.\<close>

datatype heartbeat_task = HbWaiting | HbSending AgentToHypervisor | HbStopped

text \<open>The shutdown token, a tick with the clock it reads, and the end of a send.\<close>

datatype heartbeat_event = HbShutdown | HbTick system_time | HbSent

text \<open>
  An event that does not fit has no effect: the token and the ticks are only looked at in
  \<open>select!\<close>, and a tick that comes during a send is delivered after it
  (\<open>MissedTickBehavior::Delay\<close>), as a later event.
\<close>

fun heartbeat_step ::
  "HostRegistration \<Rightarrow> string \<Rightarrow> heartbeat_event \<Rightarrow> heartbeat_task \<times> stream \<Rightarrow> heartbeat_task \<times> stream" where
  "heartbeat_step registration stream_id HbShutdown (HbWaiting, s) = (HbStopped, s)"
| "heartbeat_step registration stream_id (HbTick now) (HbWaiting, s) =
     (case seq_fetch_add s of (n, s1) \<Rightarrow> (HbSending (heartbeat_frame registration stream_id now n), s1))"
| "heartbeat_step registration stream_id HbSent (HbSending heartbeat, s) =
     (case tx_send heartbeat s of (Inl e, s1) \<Rightarrow> (HbStopped, s1) | (Inr _, s1) \<Rightarrow> (HbWaiting, s1))"
| "heartbeat_step registration stream_id e st = st"

text \<open>An event of the task, or what another task does to the stream meanwhile.\<close>

datatype stream_event = HbEvent heartbeat_event | OtherTake | OtherSend AgentToHypervisor

fun run_heartbeat_loop ::
  "HostRegistration \<Rightarrow> string \<Rightarrow> stream_event list \<Rightarrow> heartbeat_task \<times> stream \<Rightarrow> heartbeat_task \<times> stream" where
  "run_heartbeat_loop registration stream_id [] st = st"
| "run_heartbeat_loop registration stream_id (HbEvent e # es) st =
     run_heartbeat_loop registration stream_id es (heartbeat_step registration stream_id e st)"
| "run_heartbeat_loop registration stream_id (OtherTake # es) (t, s) =
     run_heartbeat_loop registration stream_id es (t, snd (seq_fetch_add s))"
| "run_heartbeat_loop registration stream_id (OtherSend f # es) (t, s) =
     run_heartbeat_loop registration stream_id es (t, snd (tx_send f s))"

lemma heartbeat_frame_seq [simp]: "a2h_seq (heartbeat_frame reg sid now n) = n"
  by (simp add: heartbeat_frame_def)

lemma heartbeat_frame_stream_id [simp]: "a2h_stream_id (heartbeat_frame reg sid now n) = sid"
  by (simp add: heartbeat_frame_def)

text \<open>The heartbeats among the frames of a stream.\<close>

definition is_heartbeat :: "AgentToHypervisor \<Rightarrow> bool" where
  "is_heartbeat f = (case a2h_message f of Some (HeartbeatMsg b) \<Rightarrow> True | _ \<Rightarrow> False)"

lemma is_heartbeat_frame [simp]: "is_heartbeat (heartbeat_frame reg sid now n)"
  by (simp add: is_heartbeat_def heartbeat_frame_def)

lemma heartbeat_step_stopped [simp]: "heartbeat_step reg sid e (HbStopped, s) = (HbStopped, s)"
  by (cases e) simp_all

section \<open>What the loop sends\<close>

text \<open>
  The ticks the loop reacts to as long as no send is refused: one at a time, each once the
  channel has taken the frame of the one before, and none after a shutdown. The flag says
  that the task is at its \<open>select!\<close>.
\<close>

fun ticks_taken :: "bool \<Rightarrow> stream_event list \<Rightarrow> system_time list" where
  "ticks_taken w [] = []"
| "ticks_taken True (HbEvent (HbTick t) # es) = t # ticks_taken False es"
| "ticks_taken True (HbEvent HbShutdown # es) = []"
| "ticks_taken False (HbEvent HbSent # es) = ticks_taken True es"
| "ticks_taken w (e # es) = ticks_taken w es"

text \<open>The numbers the other tasks take, and the frames they send: none of them is a heartbeat.\<close>

definition other_takes :: "stream_event list \<Rightarrow> nat" where
  "other_takes es = length (filter (\<lambda>e. e = OtherTake) es)"

fun foreign :: "stream_event \<Rightarrow> bool" where
  "foreign (OtherSend f) \<longleftrightarrow> \<not> is_heartbeat f"
| "foreign e \<longleftrightarrow> True"

abbreviation heartbeats :: "stream \<Rightarrow> AgentToHypervisor list" where
  "heartbeats s \<equiv> filter is_heartbeat (st_outbox s)"

lemma other_takes_simps [simp]:
  "other_takes [] = 0" "other_takes (OtherTake # es) = Suc (other_takes es)"
  "other_takes (HbEvent e # es) = other_takes es" "other_takes (OtherSend f # es) = other_takes es"
  by (simp_all add: other_takes_def)

lemma unat_seq_Suc: "unat (n :: u64) + 1 < 2 ^ 64 \<Longrightarrow> unat (n + 1) = Suc (unat n)"
  by (drule seq_not_max) (simp add: add.commute unatSuc add_eq_0_iff)

lemma foreign_send:
  "\<not> is_heartbeat f \<Longrightarrow> heartbeats (snd (tx_send f s)) = heartbeats s"
  by (simp add: tx_send_def Let_def)

lemma send_script: "set (st_closed (snd (tx_send f s))) \<subseteq> set (st_closed s)"
  by (cases "st_closed s") (auto simp: tx_send_def Let_def)

text \<open>A task past its loop takes and sends nothing.\<close>

lemma heartbeat_stopped_run:
  assumes "list_all foreign es" and "unat (st_seq s) + length es < 2 ^ 64"
    and "run_heartbeat_loop reg sid es (HbStopped, s) = (t', s')"
  shows "t' = HbStopped \<and> heartbeats s' = heartbeats s
    \<and> unat (st_seq s') = unat (st_seq s) + other_takes es"
  using assms
proof (induction es arbitrary: s)
  case (Cons e es)
  show ?case
  proof (cases e)
    case OtherTake
    with Cons.prems Cons.IH [of "snd (seq_fetch_add s)"] show ?thesis by (simp add: unat_seq_Suc)
  next
    case (OtherSend f)
    with Cons.prems Cons.IH [of "snd (tx_send f s)"] show ?thesis by (simp add: foreign_send)
  next
    case (HbEvent x)
    with Cons.prems Cons.IH [of s] show ?thesis by simp
  qed
qed simp

text \<open>
  What a run adds: the frame in flight at its start and one for each tick it takes. Those
  the channel has not taken (\<open>rest\<close>) are the one still in flight or the one it refused.
\<close>

fun in_flight :: "heartbeat_task \<Rightarrow> AgentToHypervisor list" where
  "in_flight (HbSending f) = [f]"
| "in_flight t = []"

definition beat_ok :: "stream_event list \<Rightarrow> bool list \<Rightarrow> heartbeat_task \<Rightarrow> system_time list \<Rightarrow> AgentToHypervisor list \<Rightarrow> bool" where
  "beat_ok es script t missed rest \<longleftrightarrow>
     (if t = HbStopped then (rest = [] \<and> missed = [] \<and> HbEvent HbShutdown \<in> set es)
        \<or> (length rest = 1 \<and> True \<in> set script)
      else missed = [] \<and> rest = in_flight t)"

lemma beat_ok_mono:
  "beat_ok es sc t m r \<Longrightarrow> set sc \<subseteq> set sc' \<Longrightarrow> beat_ok (e # es) sc' t m r"
  by (auto simp: beat_ok_def split: if_splits)

lemma heartbeat_run:
  assumes "list_all foreign es" and "unat (st_seq s) + length es < 2 ^ 64" and "w \<noteq> HbStopped"
    and "list_all is_heartbeat (in_flight w)"
    and "run_heartbeat_loop reg sid es (w, s) = (t', s')"
  shows "\<exists>beats missed sent rest. ticks_taken (w = HbWaiting) es = map fst beats @ missed
    \<and> sent @ rest = in_flight w @ map (\<lambda>(t, n). heartbeat_frame reg sid t n) beats
    \<and> heartbeats s' = heartbeats s @ sent
    \<and> sorted_wrt (<) (map snd beats) \<and> (\<forall>n\<in>snd ` set beats. st_seq s \<le> n \<and> n < st_seq s')
    \<and> unat (st_seq s') = unat (st_seq s) + length beats + other_takes es
    \<and> beat_ok es (st_closed s) t' missed rest"
  using assms
proof (induction es arbitrary: w s)
  case Nil
  then show ?case
    by (intro exI [of _ "[]"] exI [of _ "in_flight w"]) (auto simp: beat_ok_def)
next
  case (Cons e es)
  note len = Cons.prems(2)
  show ?case
  proof (cases e)
    case OtherTake
    have run: "run_heartbeat_loop reg sid es (w, snd (seq_fetch_add s)) = (t', s')"
      using Cons.prems(5) OtherTake by simp
    have up: "unat (st_seq s + 1) = Suc (unat (st_seq s))" using len by (intro unat_seq_Suc) simp
    have "st_seq s \<le> n" if "st_seq s + 1 \<le> n" for n using that up by (simp add: word_le_nat_alt)
    moreover have "beat_ok (e # es) (st_closed s) t' m r" if "beat_ok es (st_closed s) t' m r" for m r
      using that beat_ok_mono by blast
    ultimately show ?thesis
      using Cons.IH [OF _ _ Cons.prems(3,4) run] Cons.prems(1) len up OtherTake
      by (simp) blast
  next
    case (OtherSend f)
    have run: "run_heartbeat_loop reg sid es (w, snd (tx_send f s)) = (t', s')"
      using Cons.prems(5) OtherSend by simp
    have "beat_ok (e # es) (st_closed s) t' m r" if "beat_ok es (st_closed (snd (tx_send f s))) t' m r" for m r
      using that beat_ok_mono send_script by blast
    then show ?thesis
      using Cons.IH [OF _ _ Cons.prems(3,4) run] Cons.prems(1) len OtherSend
      by (simp add: foreign_send) blast
  next
    case (HbEvent x)
    have other: "other_takes (e # es) = other_takes es" using HbEvent by simp
    have frgn: "list_all foreign es" using Cons.prems(1) by simp
    have noop: ?thesis if "heartbeat_step reg sid x (w, s) = (w, s)"
      and eq: "ticks_taken (w = HbWaiting) (e # es) = ticks_taken (w = HbWaiting) es"
    proof -
      have run: "run_heartbeat_loop reg sid es (w, s) = (t', s')" using Cons.prems(5) HbEvent that(1) by simp
      have "unat (st_seq s) + length es < 2 ^ 64" using len by simp
      from Cons.IH [OF frgn this Cons.prems(3,4) run] obtain beats missed sent rest where ih: "ticks_taken (w = HbWaiting) es = map fst beats @ missed"
          "sent @ rest = in_flight w @ map (\<lambda>(t, n). heartbeat_frame reg sid t n) beats"
          "heartbeats s' = heartbeats s @ sent" "sorted_wrt (<) (map snd beats)"
          "\<forall>n\<in>snd ` set beats. st_seq s \<le> n \<and> n < st_seq s'"
          "unat (st_seq s') = unat (st_seq s) + length beats + other_takes es"
          "beat_ok es (st_closed s) t' missed rest"
        by (elim exE conjE) (rule that)
      show ?thesis unfolding eq other
        by (intro exI [of _ beats] exI [of _ missed] exI [of _ sent] exI [of _ rest] conjI ih(1-6)
            beat_ok_mono [OF ih(7) order_refl])
    qed
    show ?thesis
    proof (cases w)
      case HbWaiting
      show ?thesis
      proof (cases x)
        case HbShutdown
        then have "run_heartbeat_loop reg sid es (HbStopped, s) = (t', s')"
          using Cons.prems(5) HbEvent HbWaiting by simp
        from heartbeat_stopped_run [OF frgn _ this] len show ?thesis
          using HbEvent HbWaiting HbShutdown
          by (intro exI [of _ "[]"]) (simp add: beat_ok_def)
      next
        case (HbTick t)
        let ?c = "st_seq s" and ?s1 = "snd (seq_fetch_add s)"
        let ?f = "heartbeat_frame reg sid t ?c"
        have run: "run_heartbeat_loop reg sid es (HbSending ?f, ?s1) = (t', s')"
          using Cons.prems(5) HbEvent HbWaiting HbTick by (simp add: seq_fetch_add_def)
        have up: "unat (?c + 1) = Suc (unat ?c)" using len by (intro unat_seq_Suc) simp
        have above: "?c < n" if "?c + 1 \<le> n" for n
          using that up by (simp add: word_le_nat_alt word_less_nat_alt)
        have up': "unat (st_seq ?s1) + length es < 2 ^ 64" using up len by simp
        from Cons.IH [OF frgn up' _ _ run] obtain beats missed sent rest where
          ih: "ticks_taken False es = map fst beats @ missed"
            "sent @ rest = ?f # map (\<lambda>(t, n). heartbeat_frame reg sid t n) beats"
            "heartbeats s' = heartbeats s @ sent" "sorted_wrt (<) (map snd beats)"
            "\<forall>n\<in>snd ` set beats. ?c + 1 \<le> n \<and> n < st_seq s'"
            "unat (st_seq s') = unat (?c + 1) + length beats + other_takes es"
            "beat_ok es (st_closed s) t' missed rest"
          by auto
        have "?c < st_seq s'" using ih(6) up by (simp add: word_less_nat_alt)
        then have "\<forall>n\<in>snd ` set ((t, ?c) # beats). ?c \<le> n \<and> n < st_seq s'"
          using ih(5) above by (auto intro: less_imp_le)
        moreover have "sorted_wrt (<) (map snd ((t, ?c) # beats))" using ih(4,5) above by auto
        ultimately show ?thesis
          using ih up HbEvent HbWaiting HbTick beat_ok_mono [OF ih(7) order_refl]
          by (intro exI [of _ "(t, ?c) # beats"] exI [of _ missed] exI [of _ sent] exI [of _ rest]) simp
      next
        case HbSent
        with HbWaiting HbEvent show ?thesis by (intro noop) simp_all
      qed
    next
      case (HbSending f)
      show ?thesis
      proof (cases x)
        case HbSent
        show ?thesis
        proof (cases rule: tx_send_cases [of f s])
          case (accepted s1)
          have run: "run_heartbeat_loop reg sid es (HbWaiting, s1) = (t', s')"
            using Cons.prems(5) HbEvent HbSending HbSent accepted by simp
          have "set (st_closed s1) \<subseteq> set (st_closed s)" using send_script [of f s] accepted by simp
          moreover have "unat (st_seq s1) + length es < 2 ^ 64" using len accepted by simp
          from Cons.IH [OF frgn this _ _ run] obtain beats missed sent rest where
            ih: "ticks_taken True es = map fst beats @ missed"
              "sent @ rest = map (\<lambda>(t, n). heartbeat_frame reg sid t n) beats"
              "heartbeats s' = heartbeats s1 @ sent" "sorted_wrt (<) (map snd beats)"
              "\<forall>n\<in>snd ` set beats. st_seq s1 \<le> n \<and> n < st_seq s'"
              "unat (st_seq s') = unat (st_seq s1) + length beats + other_takes es"
              "beat_ok es (st_closed s1) t' missed rest"
            by auto
          ultimately show ?thesis
            using HbEvent HbSending HbSent accepted Cons.prems(4) beat_ok_mono [OF ih(7)]
            by (intro exI [of _ beats] exI [of _ missed] exI [of _ "f # sent"] exI [of _ rest]) simp
        next
          case (gone s1)
          have run: "run_heartbeat_loop reg sid es (HbStopped, s1) = (t', s')"
            using Cons.prems(5) HbEvent HbSending HbSent gone by simp
          have "unat (st_seq s1) + length es < 2 ^ 64" using len gone by simp
          from heartbeat_stopped_run [OF frgn this run] show ?thesis
            using HbEvent HbSending HbSent gone hd_in_set [of "st_closed s"]
            by (intro exI [of _ "[]"] exI [of _ "ticks_taken True es"] exI [of _ "[f]"]) (simp add: beat_ok_def)
        qed
      qed (use HbSending HbEvent in \<open>intro noop; simp\<close>)+
    qed (use Cons.prems(3) in simp)
  qed
qed


definition demo_registration :: HostRegistration where
  "demo_registration = \<lparr>reg_agent_id = ''a'', reg_host_id = ''h'', reg_hostname = ''n'',
     reg_private_ip = ''10.0.0.1'', reg_hypervisor_type = ''kvm'', reg_agent_version = ''0.1.0'',
     reg_capabilities_json = ''{}''\<rparr>"

text \<open>
  Another task takes a number between two ticks and sends its frame before the second; the
  channel refuses the third send.
\<close>

definition demo_stream_events :: "stream_event list" where
  "demo_stream_events = [HbEvent (HbTick 5), HbEvent HbSent, OtherTake, HbEvent (HbTick 6),
     OtherSend \<lparr>a2h_stream_id = ''s'', a2h_seq = 2, a2h_message = None\<rparr>, HbEvent HbSent, HbEvent (HbTick 7)]"


end
