(* ===== verification/Handler_Steps.thy ===== *)
theory Handler_Steps
  imports Registration Heartbeat
begin

text \<open>
  The handler of the server's messages once more, one step for each thing it awaits: the
  session's loop is inside \<open>handle_server_message\<close> (\<open>src/src/agent/registration.rs\<close>) while it
  waits for the channel to take a frame or pauses between two attempts at the inventory, and
  the session's other tasks run meanwhile. Run without interruption the steps are
  \<open>handle_server_message\<close>.
\<close>

section \<open>The steps\<close>

text \<open>
  Where the handler waits: in \<open>tx.send(..).await\<close> with the frame of a command's result, in
  the \<open>tx.send(frame).await\<close> of an attempt at the inventory, or in the pause before one.
\<close>

datatype handler =
    HandlerIdle
  | SendingResult AgentToHypervisor
  | SendingInventory nat "nat \<Rightarrow> StoragePool list" "nat \<Rightarrow> system_time" AgentToHypervisor
  | InventoryPause nat "nat \<Rightarrow> StoragePool list" "nat \<Rightarrow> system_time"

text \<open>One attempt: a number is taken and the frame built.\<close>

definition attempt_inventory ::
  "HostFacts \<Rightarrow> string \<Rightarrow> nat \<Rightarrow> (nat \<Rightarrow> StoragePool list) \<Rightarrow> (nat \<Rightarrow> system_time) \<Rightarrow> stream
     \<Rightarrow> handler \<times> stream" where
  "attempt_inventory facts stream_id attempt pools clock s =
     (case seq_fetch_add s of (n, s1) \<Rightarrow>
        (SendingInventory attempt pools clock
           (host_inventory_frame facts stream_id n (pools attempt) (clock attempt)), s1))"

text \<open>A message up to the first wait.\<close>

definition handler_start ::
  "'v libs \<Rightarrow> HostFacts \<Rightarrow> string \<Rightarrow> (nat \<Rightarrow> StoragePool list) \<Rightarrow> (nat \<Rightarrow> system_time)
     \<Rightarrow> HypervisorToAgent \<Rightarrow> CommandLedger \<times> stream
     \<Rightarrow> (error + handler) \<times> CommandLedger \<times> stream" where
  "handler_start L facts stream_id pools clock frame st =
     (case st of (l, s) \<Rightarrow>
      case h2a_message frame of
        Some (RegisterAckMsg ack) \<Rightarrow>
          (case attempt_inventory facts stream_id 1 pools clock s of (h, s1) \<Rightarrow> (Inr h, l, s1))
      | Some (HeartbeatAckMsg ack) \<Rightarrow> (Inr HandlerIdle, l, s)
      | Some (CommandMsg command) \<Rightarrow>
          (case process_command L clock command l of
             (Inl e, l1) \<Rightarrow> (Inl e, l1, s)
           | (Inr answer, l1) \<Rightarrow>
               (case seq_fetch_add s of (n, s1) \<Rightarrow>
                  (Inr (SendingResult (command_result_frame facts stream_id (cmd_command_id command)
                     answer (clock 2) n)), l1, s1)))
      | None \<Rightarrow> (Inr HandlerIdle, l, s))"

text \<open>The end of what the handler waits for, up to the next wait.\<close>

fun handler_step ::
  "HostFacts \<Rightarrow> string \<Rightarrow> handler \<Rightarrow> stream \<Rightarrow> (error + handler) \<times> stream" where
  "handler_step facts stream_id HandlerIdle s = (Inr HandlerIdle, s)"
| "handler_step facts stream_id (SendingResult frame) s =
     (case tx_send frame s of (r, s1) \<Rightarrow>
        (case with_context ''send command result'' r of Inl e \<Rightarrow> Inl e | Inr _ \<Rightarrow> Inr HandlerIdle, s1))"
| "handler_step facts stream_id (SendingInventory attempt pools clock frame) s =
     (case tx_send frame s of
        (Inr _, s1) \<Rightarrow> (Inr HandlerIdle, s1)
      | (Inl err, s1) \<Rightarrow>
          if attempt < HOST_INVENTORY_SEND_MAX_ATTEMPTS
          then (Inr (InventoryPause (Suc attempt) pools clock), s1)
          else (Inl (context_err ''send host inventory after retries'' err), s1))"
| "handler_step facts stream_id (InventoryPause attempt pools clock) s =
     (case attempt_inventory facts stream_id attempt pools clock s of (h, s1) \<Rightarrow> (Inr h, s1))"

text \<open>The handler alone on the stream, for as many steps as its fuel allows.\<close>

fun handler_run ::
  "HostFacts \<Rightarrow> string \<Rightarrow> nat \<Rightarrow> handler \<Rightarrow> stream \<Rightarrow> (error + handler) \<times> stream" where
  "handler_run facts stream_id 0 h s = (Inr h, s)"
| "handler_run facts stream_id (Suc n) h s =
     (case handler_step facts stream_id h s of
        (Inl e, s1) \<Rightarrow> (Inl e, s1)
      | (Inr h1, s1) \<Rightarrow> handler_run facts stream_id n h1 s1)"

section \<open>The steps make up the handler\<close>

lemma handler_run_idle [simp]: "handler_run facts sid n HandlerIdle s = (Inr HandlerIdle, s)"
  by (induction n) simp_all

text \<open>Each attempt takes a send and a pause; the last has no pause.\<close>

lemma handler_run_inventory:
  assumes "attempt + left = HOST_INVENTORY_SEND_MAX_ATTEMPTS"
    and "attempt_inventory facts sid attempt pools clock s = (h, s1)" and "2 * left < n"
  shows "handler_run facts sid n h s1 =
    (case inventory_attempts facts sid pools clock (Suc left) attempt last_error s of
       (Some err, s2) \<Rightarrow> (Inl (context_err ''send host inventory after retries'' err), s2)
     | (None, s2) \<Rightarrow> (Inr HandlerIdle, s2))"
  using assms
proof (induction left arbitrary: attempt s h s1 n last_error)
  case 0
  then show ?case
    by (cases n; cases rule: tx_send_cases [of "host_inventory_frame facts sid (st_seq s) (pools attempt) (clock attempt)"
          "snd (seq_fetch_add s)"])
       (auto simp: attempt_inventory_def emit_def seq_fetch_add_def)
next
  case (Suc left)
  let ?f = "host_inventory_frame facts sid (st_seq s) (pools attempt) (clock attempt)"
  obtain m where n: "n = Suc (Suc m)" "2 * left < m" using Suc.prems(3) by (cases n; cases "n - 1") auto
  have h: "h = SendingInventory attempt pools clock ?f" "s1 = snd (seq_fetch_add s)"
    using Suc.prems(2) by (auto simp: attempt_inventory_def seq_fetch_add_def)
  show ?case
  proof (cases rule: tx_send_cases [of ?f "snd (seq_fetch_add s)"])
    case (accepted s2)
    with h n show ?thesis by (simp add: emit_def seq_fetch_add_def)
  next
    case (gone s2)
    obtain h' s3 where a: "attempt_inventory facts sid (Suc attempt) pools clock s2 = (h', s3)"
      by (meson surj_pair)
    have "attempt < HOST_INVENTORY_SEND_MAX_ATTEMPTS" using Suc.prems(1) by simp
    moreover have "Suc attempt + left = HOST_INVENTORY_SEND_MAX_ATTEMPTS" using Suc.prems(1) by simp
    ultimately show ?thesis
      using gone h n a Suc.IH [OF _ a n(2), of "Some send_error"]
      by (simp add: emit_def seq_fetch_add_def)
  qed
qed

text \<open>
  C0. The handler in steps is the handler: a message that is handled without interruption, up
  to its first wait and then five steps, changes the ledger and the stream as
  \<open>handle_server_message\<close> does and ends with the same result; the handler is then idle or has
  returned an error.
\<close>

theorem handler_steps_refine:
  "(case handler_start L facts sid pools clock frame (l, s) of
      (Inl e, l1, s1) \<Rightarrow> (Inl e, l1, s1)
    | (Inr h, l1, s1) \<Rightarrow> (case handler_run facts sid 5 h s1 of (r, s2) \<Rightarrow> (r, l1, s2)))
   = (case handle_server_message L facts sid pools clock frame (l, s) of
        (Inl e, st) \<Rightarrow> (Inl e, st)
      | (Inr _, st) \<Rightarrow> (Inr HandlerIdle, st))"
proof (cases "h2a_message frame")
  case None
  then show ?thesis by (simp add: handler_start_def handle_server_message_def)
next
  case (Some m)
  show ?thesis
  proof (cases m)
    case (RegisterAckMsg ack)
    obtain h s1 where a: "attempt_inventory facts sid 1 pools clock s = (h, s1)" by (meson surj_pair)
    have "handler_run facts sid 5 h s1 =
      (case inventory_attempts facts sid pools clock (Suc 2) 1 None s of
         (Some err, s2) \<Rightarrow> (Inl (context_err ''send host inventory after retries'' err), s2)
       | (None, s2) \<Rightarrow> (Inr HandlerIdle, s2))"
      by (rule handler_run_inventory [OF _ a]) (simp_all add: HOST_INVENTORY_SEND_MAX_ATTEMPTS_def)
    with Some RegisterAckMsg a show ?thesis
      by (simp add: handler_start_def handle_server_message_def send_host_inventory_with_retry_def
          HOST_INVENTORY_SEND_MAX_ATTEMPTS_def eval_nat_numeral split: prod.split option.split)
  next
    case (HeartbeatAckMsg ack)
    with Some show ?thesis by (simp add: handler_start_def handle_server_message_def)
  next
    case (CommandMsg command)
    obtain r l1 where p: "process_command L clock command l = (r, l1)" by (meson surj_pair)
    show ?thesis
    proof (cases r)
      case (Inl e)
      with Some CommandMsg p show ?thesis by (simp add: handler_start_def handle_server_message_def)
    next
      case (Inr answer)
      let ?f = "command_result_frame facts sid (cmd_command_id command) answer (clock 2) (st_seq s)"
      obtain q s2 where "tx_send ?f (snd (seq_fetch_add s)) = (q, s2)" by (meson surj_pair)
      then show ?thesis using Some CommandMsg p Inr
        by (cases q) (simp_all add: handler_start_def handle_server_message_def emit_def seq_fetch_add_def
            eval_nat_numeral with_context_def)
    qed
  qed
qed

section \<open>The handler on a shared stream\<close>

text \<open>The frame the handler waits to send.\<close>

fun handler_pending :: "handler \<Rightarrow> AgentToHypervisor list" where
  "handler_pending (SendingResult frame) = [frame]"
| "handler_pending (SendingInventory attempt pools clock frame) = [frame]"
| "handler_pending h = []"

definition handler_idle :: "handler \<Rightarrow> bool" where
  "handler_idle h = (case h of HandlerIdle \<Rightarrow> True | _ \<Rightarrow> False)"

lemma handler_idle_iff [simp]: "handler_idle h \<longleftrightarrow> h = HandlerIdle"
  by (simp add: handler_idle_def split: handler.split)

text \<open>
  What a step does to the stream: it leaves it alone, takes a number for the frame it then
  waits to send, or sends the frame it waited to send.
\<close>

lemma handler_start_cases:
  assumes "handler_start L facts sid pools clock frame (l, s) = (r, l1, s1)"
  obtains (quiet) "s1 = s" "\<And>h. r = Inr h \<Longrightarrow> h = HandlerIdle"
  | (taken) h f where "r = Inr h" "handler_pending h = [f]" "s1 = snd (seq_fetch_add s)"
      "a2h_seq f = st_seq s" "a2h_stream_id f = sid" "\<not> is_heartbeat f"
  using assms
  by (auto simp: handler_start_def attempt_inventory_def seq_fetch_add_def host_inventory_frame_def
      command_result_frame_def is_heartbeat_def
      split: option.splits HypervisorMessage.splits prod.splits sum.splits)

lemma handler_step_cases:
  assumes "handler_step facts sid h s = (r, s1)"
  obtains (quiet) "s1 = s" "r = Inr HandlerIdle"
  | (taken) h1 f where "handler_pending h = []" "r = Inr h1" "handler_pending h1 = [f]"
      "s1 = snd (seq_fetch_add s)" "a2h_seq f = st_seq s" "a2h_stream_id f = sid" "\<not> is_heartbeat f"
  | (sent) f where "handler_pending h = [f]" "s1 = snd (tx_send f s)"
      "\<And>h1. r = Inr h1 \<Longrightarrow> handler_pending h1 = []"
proof (cases h)
  case HandlerIdle
  with assms quiet show ?thesis by simp
next
  case (SendingResult f)
  with assms show ?thesis by (intro sent [of f]) (auto split: prod.splits sum.splits)
next
  case (SendingInventory a p c f)
  with assms show ?thesis by (intro sent [of f]) (auto split: prod.splits sum.splits if_splits)
next
  case (InventoryPause a p c)
  with assms taken show ?thesis
    by (auto simp: attempt_inventory_def seq_fetch_add_def host_inventory_frame_def is_heartbeat_def)
qed

end
