(* ===== verification/App_Config.thy ===== *)
theory App_Config
  imports Rust_Text Rust_Time
begin

text \<open>
  The configuration (\<open>src/src/config\<close>): the sections with their \<open>validate\<close> methods and
  \<open>load_from_env\<close>, which reads the process environment. The environment is a function: for a
  key, \<open>Inr\<close> the value, or \<open>Inl\<close> the text of \<open>VarError\<close> where the variable is missing or
  not Unicode.
\<close>

type_synonym env = "string \<Rightarrow> string + string"

section \<open>Sections\<close>

datatype AppEnvironment = Dev | Prod

definition AppEnvironment_parse :: "string \<Rightarrow> string + AppEnvironment" where
  "AppEnvironment_parse raw =
     (let v = to_ascii_lowercase (trim raw) in
      if v = ''dev'' \<or> v = ''development'' then Inr Dev
      else if v = ''prod'' \<or> v = ''production'' then Inr Prod
      else Inl (''invalid APP_ENV value '' @ [CHR 0x27] @ raw @ [CHR 0x27]
        @ '', expected dev|development|prod|production''))"

fun AppEnvironment_as_str :: "AppEnvironment \<Rightarrow> string" where
  "AppEnvironment_as_str Dev = ''dev''"
| "AppEnvironment_as_str Prod = ''prod''"

record AppSection =
  app_name :: string
  app_environment :: AppEnvironment
  app_node_id :: string
  app_zone_id :: string
  app_shutdown_timeout :: duration

definition AppSection_validate :: "AppSection \<Rightarrow> string + unit" where
  "AppSection_validate a =
     (if trim (app_name a) = [] then Inl ''APP_NAME must not be empty''
      else if trim (app_node_id a) = [] then Inl ''APP_NODE_ID must not be empty''
      else if app_shutdown_timeout a = 0 then Inl ''SHUTDOWN_TIMEOUT_SEC must be > 0''
      else Inr ())"

record AgentConfig =
  ac_enabled :: bool
  ac_bootstrap_target_addr :: string
  ac_runtime_target_addr :: string
  ac_runtime_target_state_path :: string
  ac_server_name :: string
  ac_ca_path :: string
  ac_cert_path :: string
  ac_key_path :: string
  ac_bootstrap_token :: string
  ac_heartbeat_interval :: duration
  ac_telemetry_interval :: duration
  ac_connect_timeout :: duration
  ac_failover_base_backoff :: duration
  ac_failover_max_backoff :: duration
  ac_version :: string
  ac_command_ledger_path :: string

definition AgentConfig_validate :: "AgentConfig \<Rightarrow> string + unit" where
  "AgentConfig_validate c =
     (if trim (ac_bootstrap_target_addr c) = []
      then Inl ''AGENT_BOOTSTRAP_TARGET_ADDR must not be empty''
      else let bootstrap_target = to_ascii_lowercase (trim (ac_bootstrap_target_addr c)) in
      if starts_with ''https://'' bootstrap_target \<and> trim (ac_ca_path c) = []
      then Inl ''AGENT_CA_PATH must not be empty for https bootstrap''
      else if trim (ac_cert_path c) = [] then Inl ''AGENT_CERT_PATH must not be empty''
      else if trim (ac_key_path c) = [] then Inl ''AGENT_KEY_PATH must not be empty''
      else if ac_heartbeat_interval c = 0 then Inl ''AGENT_HEARTBEAT_INTERVAL_SEC must be > 0''
      else if ac_telemetry_interval c = 0 then Inl ''AGENT_TELEMETRY_INTERVAL_SEC must be > 0''
      else if ac_connect_timeout c = 0 then Inl ''AGENT_CONNECT_TIMEOUT_SEC must be > 0''
      else if ac_failover_base_backoff c = 0 then Inl ''AGENT_FAILOVER_BASE_BACKOFF_MS must be > 0''
      else if ac_failover_max_backoff c < ac_failover_base_backoff c
      then Inl ''AGENT_FAILOVER_MAX_BACKOFF_MS must be >= AGENT_FAILOVER_BASE_BACKOFF_MS''
      else if trim (ac_version c) = [] then Inl ''AGENT_VERSION must not be empty''
      else if trim (ac_command_ledger_path c) = []
      then Inl ''AGENT_COMMAND_LEDGER_PATH must not be empty''
      else if trim (ac_runtime_target_state_path c) = []
      then Inl ''AGENT_RUNTIME_TARGET_STATE_PATH must not be empty''
      else Inr ())"

record GrpcConfig =
  bind_addr :: string

definition GrpcConfig_validate :: "GrpcConfig \<Rightarrow> string + unit" where
  "GrpcConfig_validate g = (if trim (bind_addr g) = [] then Inl ''GRPC_BIND_ADDR must not be empty'' else Inr ())"

record WorkerConfig =
  max_workers :: nat

definition WorkerConfig_validate :: "WorkerConfig \<Rightarrow> string + unit" where
  "WorkerConfig_validate w = (if max_workers w = 0 then Inl ''WORKER_MAX must be > 0'' else Inr ())"

record LogConfig =
  log_level :: string
  log_format :: string
  log_service :: string
  log_environment :: string
  log_host_id :: string

definition LogConfig_validate :: "LogConfig \<Rightarrow> string + unit" where
  "LogConfig_validate l =
     (if to_ascii_uppercase (trim (log_level l))
          \<notin> set [''TRACE'', ''DEBUG'', ''INFO'', ''WARN'', ''WARNING'', ''ERROR'', ''OFF'']
      then Inl (''invalid LOG_LEVEL value '' @ [CHR 0x27] @ log_level l @ [CHR 0x27]
        @ '', expected TRACE|DEBUG|INFO|WARN|ERROR|OFF'')
      else if to_ascii_lowercase (trim (log_format l)) \<in> set [''json'', ''text''] then Inr ()
      else Inl (''invalid LOG_FORMAT value '' @ [CHR 0x27] @ log_format l @ [CHR 0x27]
        @ '', expected json|text''))"

record AppConfig =
  cfg_app :: AppSection
  cfg_agent :: AgentConfig
  cfg_grpc :: GrpcConfig
  cfg_worker :: WorkerConfig
  cfg_log :: LogConfig

section \<open>Reading the environment\<close>

definition optional_env :: "env \<Rightarrow> string \<Rightarrow> string option" where
  "optional_env env key =
     (case env key of Inr v \<Rightarrow> if trim v \<noteq> [] then Some v else None | Inl e \<Rightarrow> None)"

definition required_env :: "env \<Rightarrow> string \<Rightarrow> error + string" where
  "required_env env key =
     (case env key of
        Inl e \<Rightarrow> Inl (context_err (''missing required environment variable '' @ key) [Lib e])
      | Inr value \<Rightarrow>
          if trim value = []
          then Inl (anyhow (''required environment variable '' @ key @ '' must not be empty''))
          else Inr value)"

definition unwrap_or :: "'a option \<Rightarrow> 'a \<Rightarrow> 'a" where
  "unwrap_or x d = (case x of None \<Rightarrow> d | Some v \<Rightarrow> v)"

text \<open>\<open>optional_env(key).unwrap_or(d).parse().context(m)?\<close>\<close>

definition env_u64 :: "env \<Rightarrow> string \<Rightarrow> string \<Rightarrow> string \<Rightarrow> error + nat" where
  "env_u64 env key d m =
     (case parse_u64 (unwrap_or (optional_env env key) d) of
        None \<Rightarrow> Inl (context_err m [Lib ''ParseIntError''])
      | Some n \<Rightarrow> Inr n)"

text \<open>\<open>x.validate().map_err(|e| anyhow!(e))\<close>\<close>

definition map_anyhow :: "string + unit \<Rightarrow> error + unit" where
  "map_anyhow r = (case r of Inl e \<Rightarrow> Inl (anyhow e) | Inr _ \<Rightarrow> Inr ())"

definition CARGO_PKG_VERSION :: string where
  "CARGO_PKG_VERSION = ''0.1.0''"

definition load_app :: "env \<Rightarrow> error + AppSection" where
  "load_app env =
     (let app_name = unwrap_or (optional_env env ''APP_NAME'') ''aurora-kvm-agent'' in
      try_bind (required_env env ''APP_NODE_ID'') (\<lambda>node_id.
      let zone_id = unwrap_or (optional_env env ''APP_ZONE_ID'') [] in
      try_bind (env_u64 env ''SHUTDOWN_TIMEOUT_SEC'' ''15''
          ''invalid SHUTDOWN_TIMEOUT_SEC, expected unsigned integer seconds'') (\<lambda>shutdown_timeout_secs.
      let app = \<lparr>app_name = app_name, app_environment = Prod, app_node_id = node_id,
            app_zone_id = zone_id, app_shutdown_timeout = from_secs shutdown_timeout_secs\<rparr> in
      try_bind (map_anyhow (AppSection_validate app)) (\<lambda>_. Inr app))))"

text \<open>The section as \<open>load_from_env\<close> builds it, from the five numbers it parsed.\<close>

definition agent_section :: "env \<Rightarrow> nat \<Rightarrow> nat \<Rightarrow> nat \<Rightarrow> nat \<Rightarrow> nat \<Rightarrow> AgentConfig" where
  "agent_section env hb tel con base mx =
     (let opt = optional_env env in
     \<lparr>ac_enabled = True,
      ac_bootstrap_target_addr =
        unwrap_or (opt ''AGENT_BOOTSTRAP_TARGET_ADDR'') ''http://127.0.0.1:9090'',
      ac_runtime_target_addr = unwrap_or (opt ''AGENT_RUNTIME_TARGET_ADDR'') [],
      ac_runtime_target_state_path = unwrap_or (opt ''AGENT_RUNTIME_TARGET_STATE_PATH'')
        ''/var/lib/aurora-kvm-agent/runtime-target-addr'',
      ac_server_name = unwrap_or (opt ''AGENT_SERVER_NAME'') [],
      ac_ca_path = unwrap_or (opt ''AGENT_CA_PATH'') ''/etc/aurora-kvm-agent/tls/ca.crt'',
      ac_cert_path = unwrap_or (opt ''AGENT_CERT_PATH'') ''/etc/aurora-kvm-agent/tls/client.crt'',
      ac_key_path = unwrap_or (opt ''AGENT_KEY_PATH'') ''/etc/aurora-kvm-agent/tls/client.key'',
      ac_bootstrap_token = unwrap_or (opt ''AGENT_BOOTSTRAP_TOKEN'') ''bootstrap'',
      ac_heartbeat_interval = from_secs hb, ac_telemetry_interval = from_secs tel,
      ac_connect_timeout = from_secs con, ac_failover_base_backoff = from_millis base,
      ac_failover_max_backoff = from_millis mx,
      ac_version = unwrap_or (opt ''AGENT_VERSION'') CARGO_PKG_VERSION,
      ac_command_ledger_path = unwrap_or (opt ''AGENT_COMMAND_LEDGER_PATH'')
        ''/var/lib/aurora-kvm-agent/command-ledger.db''\<rparr>)"

definition load_agent :: "env \<Rightarrow> error + AgentConfig" where
  "load_agent env =
     (try_bind (env_u64 env ''AGENT_HEARTBEAT_INTERVAL_SEC'' ''10''
         ''invalid AGENT_HEARTBEAT_INTERVAL_SEC, expected unsigned integer seconds'') (\<lambda>hb.
      try_bind (env_u64 env ''AGENT_TELEMETRY_INTERVAL_SEC'' ''15''
         ''invalid AGENT_TELEMETRY_INTERVAL_SEC, expected unsigned integer seconds'') (\<lambda>tel.
      try_bind (env_u64 env ''AGENT_CONNECT_TIMEOUT_SEC'' ''3''
         ''invalid AGENT_CONNECT_TIMEOUT_SEC, expected unsigned integer seconds'') (\<lambda>con.
      try_bind (env_u64 env ''AGENT_FAILOVER_BASE_BACKOFF_MS'' ''200''
         ''invalid AGENT_FAILOVER_BASE_BACKOFF_MS, expected unsigned integer milliseconds'') (\<lambda>base.
      try_bind (env_u64 env ''AGENT_FAILOVER_MAX_BACKOFF_MS'' ''3000''
         ''invalid AGENT_FAILOVER_MAX_BACKOFF_MS, expected unsigned integer milliseconds'') (\<lambda>mx.
      let agent = agent_section env hb tel con base mx in
      try_bind (map_anyhow (AgentConfig_validate agent)) (\<lambda>_. Inr agent)))))))"

definition load_from_env :: "env \<Rightarrow> error + AppConfig" where
  "load_from_env env =
     (try_bind (load_app env) (\<lambda>app.
      let grpc = \<lparr>bind_addr = unwrap_or (optional_env env ''GRPC_BIND_ADDR'') ''0.0.0.0:8081''\<rparr> in
      try_bind (map_anyhow (GrpcConfig_validate grpc)) (\<lambda>_.
      try_bind (load_agent env) (\<lambda>agent.
      try_bind (env_u64 env ''WORKER_MAX'' ''4'' ''invalid WORKER_MAX, expected unsigned integer'') (\<lambda>mw.
      let worker = \<lparr>max_workers = mw\<rparr> in
      try_bind (map_anyhow (WorkerConfig_validate worker)) (\<lambda>_.
      let log = \<lparr>log_level = ''INFO'', log_format = ''json'', log_service = app_name app,
            log_environment = ''prod'', log_host_id = app_node_id app\<rparr> in
      try_bind (map_anyhow (LogConfig_validate log)) (\<lambda>_.
      Inr \<lparr>cfg_app = app, cfg_agent = agent, cfg_grpc = grpc, cfg_worker = worker, cfg_log = log\<rparr>)))))))"

section \<open>Lemmas\<close>

lemma map_anyhow_Inr [simp]: "map_anyhow r = Inr u \<longleftrightarrow> r = Inr ()"
  by (cases r) (auto simp: map_anyhow_def)

lemma optional_env_nonblank: "optional_env env key = Some v \<Longrightarrow> trim v \<noteq> []"
  by (auto simp: optional_env_def split: sum.splits if_splits)

text \<open>A setting that has a default that is not blank is never blank.\<close>

lemma setting_nonblank:
  "trim d \<noteq> [] \<Longrightarrow> trim (unwrap_or (optional_env env key) d) \<noteq> []"
  by (auto simp: unwrap_or_def dest: optional_env_nonblank split: option.splits)

lemma env_u64_Inr:
  "env_u64 env key d m = Inr n \<longleftrightarrow> parse_u64 (unwrap_or (optional_env env key) d) = Some n"
  by (auto simp: env_u64_def split: option.splits)

lemma required_env_Inr: "required_env env key = Inr v \<longleftrightarrow> env key = Inr v \<and> trim v \<noteq> []"
  by (auto simp: required_env_def split: sum.splits)

lemma defaults_nonblank [simp]:
  "trim ''aurora-kvm-agent'' \<noteq> []" "trim ''0.0.0.0:8081'' \<noteq> []" "trim ''http://127.0.0.1:9090'' \<noteq> []"
  "trim ''/var/lib/aurora-kvm-agent/runtime-target-addr'' \<noteq> []"
  "trim ''/etc/aurora-kvm-agent/tls/ca.crt'' \<noteq> []" "trim ''/etc/aurora-kvm-agent/tls/client.crt'' \<noteq> []"
  "trim ''/etc/aurora-kvm-agent/tls/client.key'' \<noteq> []"
  "trim ''/var/lib/aurora-kvm-agent/command-ledger.db'' \<noteq> []" "trim CARGO_PKG_VERSION \<noteq> []"
  by (simp_all add: text_simps CARGO_PKG_VERSION_def)

lemma from_secs_eq_0 [simp]: "from_secs n = 0 \<longleftrightarrow> n = 0"
  by (simp add: time_simps)

lemma from_millis_simps [simp]:
  "from_millis n = 0 \<longleftrightarrow> n = 0" "from_millis m < from_millis n \<longleftrightarrow> m < n"
  by (simp_all add: time_simps)

lemma log_section_valid [simp]:
  "LogConfig_validate \<lparr>log_level = ''INFO'', log_format = ''json'', log_service = a,
     log_environment = b, log_host_id = c\<rparr> = Inr ()"
  by (simp add: LogConfig_validate_def text_simps)

text \<open>A number as \<open>load_from_env\<close> reads it, with the default for a blank or missing variable.\<close>

definition env_number :: "env \<Rightarrow> string \<Rightarrow> string \<Rightarrow> nat option" where
  "env_number env key d = parse_u64 (unwrap_or (optional_env env key) d)"

lemma load_app_Inr:
  "(\<exists>a. load_app env = Inr a) \<longleftrightarrow> (\<exists>v. env ''APP_NODE_ID'' = Inr v \<and> trim v \<noteq> [])
     \<and> (\<exists>n>0. env_number env ''SHUTDOWN_TIMEOUT_SEC'' ''15'' = Some n)"
  by (simp add: load_app_def Let_def env_u64_Inr required_env_Inr AppSection_validate_def setting_nonblank
      env_number_def)
     blast

lemma agent_section_valid:
  "AgentConfig_validate (agent_section env hb tel con b m) = Inr () \<longleftrightarrow>
     0 < hb \<and> 0 < tel \<and> 0 < con \<and> 0 < b \<and> b \<le> m"
  by (simp add: AgentConfig_validate_def agent_section_def Let_def setting_nonblank not_less)

lemma load_agent_eq:
  "load_agent env = Inr a \<longleftrightarrow>
     (\<exists>hb tel con b m. env_number env ''AGENT_HEARTBEAT_INTERVAL_SEC'' ''10'' = Some hb
        \<and> env_number env ''AGENT_TELEMETRY_INTERVAL_SEC'' ''15'' = Some tel
        \<and> env_number env ''AGENT_CONNECT_TIMEOUT_SEC'' ''3'' = Some con
        \<and> env_number env ''AGENT_FAILOVER_BASE_BACKOFF_MS'' ''200'' = Some b
        \<and> env_number env ''AGENT_FAILOVER_MAX_BACKOFF_MS'' ''3000'' = Some m
        \<and> 0 < hb \<and> 0 < tel \<and> 0 < con \<and> 0 < b \<and> b \<le> m \<and> a = agent_section env hb tel con b m)"
  by (simp add: load_agent_def Let_def env_u64_Inr agent_section_valid env_number_def) blast

lemma env_number_bounds:
  assumes "env_number env key d = Some n"
  shows "n < 2 ^ 64" and "from_secs n \<le> dur_max" and "2 * from_millis n \<le> dur_max"
  using parse_u64_bound [OF assms [unfolded env_number_def]]
  by (simp_all only: from_secs_le_dur_max from_millis_le_dur_max)

text \<open>The backoff settings of a loaded configuration.\<close>

lemma loaded_backoff:
  assumes "load_from_env env = Inr c"
  shows "0 < ac_failover_base_backoff (cfg_agent c)"
    and "ac_failover_base_backoff (cfg_agent c) \<le> ac_failover_max_backoff (cfg_agent c)"
    and "ac_failover_max_backoff (cfg_agent c) \<le> from_millis (2 ^ 64 - 1)"
proof -
  have g: "load_agent env = Inr (cfg_agent c)" using assms by (auto simp: load_from_env_def Let_def)
  then obtain hb tel con b m where eq: "cfg_agent c = agent_section env hb tel con b m" "0 < b" "b \<le> m"
    and m: "env_number env ''AGENT_FAILOVER_MAX_BACKOFF_MS'' ''3000'' = Some m"
    unfolding load_agent_eq by blast
  then show "0 < ac_failover_base_backoff (cfg_agent c)"
    "ac_failover_base_backoff (cfg_agent c) \<le> ac_failover_max_backoff (cfg_agent c)"
    by (simp_all add: agent_section_def Let_def from_millis_def nanos_per_milli_def)
  have "m \<le> 2 ^ 64 - 1" using env_number_bounds(1) [OF m] by simp
  then show "ac_failover_max_backoff (cfg_agent c) \<le> from_millis (2 ^ 64 - 1)"
    using eq by (simp add: agent_section_def Let_def from_millis_def)
qed

section \<open>Properties\<close>

text \<open>
  C37. When the configuration loads: exactly when \<open>APP_NODE_ID\<close> is set and not blank and the
  seven numeric settings, with their defaults for the blank ones, are numbers of 64 bits,
  positive (the upper backoff at least the lower). No other variable can make it fail.
\<close>

theorem config_loads_iff:
  "(\<exists>c. load_from_env env = Inr c) \<longleftrightarrow>
     (\<exists>v. env ''APP_NODE_ID'' = Inr v \<and> trim v \<noteq> [])
     \<and> (\<exists>n>0. env_number env ''SHUTDOWN_TIMEOUT_SEC'' ''15'' = Some n)
     \<and> (\<exists>n>0. env_number env ''AGENT_HEARTBEAT_INTERVAL_SEC'' ''10'' = Some n)
     \<and> (\<exists>n>0. env_number env ''AGENT_TELEMETRY_INTERVAL_SEC'' ''15'' = Some n)
     \<and> (\<exists>n>0. env_number env ''AGENT_CONNECT_TIMEOUT_SEC'' ''3'' = Some n)
     \<and> (\<exists>b>0. \<exists>m\<ge>b. env_number env ''AGENT_FAILOVER_BASE_BACKOFF_MS'' ''200'' = Some b
          \<and> env_number env ''AGENT_FAILOVER_MAX_BACKOFF_MS'' ''3000'' = Some m)
     \<and> (\<exists>n>0. env_number env ''WORKER_MAX'' ''4'' = Some n)"
proof -
  have grpc: "GrpcConfig_validate \<lparr>bind_addr = unwrap_or (optional_env env ''GRPC_BIND_ADDR'') ''0.0.0.0:8081''\<rparr> = Inr ()"
    by (simp add: GrpcConfig_validate_def setting_nonblank)
  have "(\<exists>c. load_from_env env = Inr c) \<longleftrightarrow> (\<exists>a. load_app env = Inr a) \<and> (\<exists>a. load_agent env = Inr a)
      \<and> (\<exists>n>0. env_number env ''WORKER_MAX'' ''4'' = Some n)"
    by (auto simp: load_from_env_def Let_def grpc env_u64_Inr WorkerConfig_validate_def env_number_def)
  then show ?thesis unfolding load_app_Inr load_agent_eq by blast
qed

text \<open>
  C38. What a loaded configuration guarantees the rest of the program: every section passes
  its \<open>validate\<close>, the identity is not blank, all intervals are positive and fit a
  \<open>Duration\<close>, the backoff can be doubled without overflow and never exceeds its upper
  bound at the start, there is a worker, and the log carries the application's identity.
\<close>

theorem config_loaded_is_valid:
  assumes "load_from_env env = Inr c"
  shows "AppSection_validate (cfg_app c) = Inr () \<and> AgentConfig_validate (cfg_agent c) = Inr ()
    \<and> GrpcConfig_validate (cfg_grpc c) = Inr () \<and> WorkerConfig_validate (cfg_worker c) = Inr ()
    \<and> LogConfig_validate (cfg_log c) = Inr ()
    \<and> env ''APP_NODE_ID'' = Inr (app_node_id (cfg_app c)) \<and> trim (app_node_id (cfg_app c)) \<noteq> []
    \<and> app_shutdown_timeout (cfg_app c) \<in> {0<..dur_max}
    \<and> ac_heartbeat_interval (cfg_agent c) \<in> {0<..dur_max}
    \<and> ac_telemetry_interval (cfg_agent c) \<in> {0<..dur_max}
    \<and> ac_connect_timeout (cfg_agent c) \<in> {0<..dur_max}
    \<and> 0 < ac_failover_base_backoff (cfg_agent c)
    \<and> ac_failover_base_backoff (cfg_agent c) \<le> ac_failover_max_backoff (cfg_agent c)
    \<and> 2 * ac_failover_max_backoff (cfg_agent c) \<le> dur_max
    \<and> trim (ac_bootstrap_token (cfg_agent c)) \<noteq> [] \<and> trim (ac_ca_path (cfg_agent c)) \<noteq> []
    \<and> 0 < max_workers (cfg_worker c) \<and> max_workers (cfg_worker c) < 2 ^ 64
    \<and> log_host_id (cfg_log c) = app_node_id (cfg_app c) \<and> log_service (cfg_log c) = app_name (cfg_app c)"
proof -
  obtain a g where a: "load_app env = Inr a" and g: "load_agent env = Inr g"
    and c: "cfg_app c = a" "cfg_agent c = g" "GrpcConfig_validate (cfg_grpc c) = Inr ()"
      "WorkerConfig_validate (cfg_worker c) = Inr ()" "LogConfig_validate (cfg_log c) = Inr ()"
      "env_u64 env ''WORKER_MAX'' ''4'' ''invalid WORKER_MAX, expected unsigned integer'' = Inr (max_workers (cfg_worker c))"
      "log_host_id (cfg_log c) = app_node_id a" "log_service (cfg_log c) = app_name a"
    using assms by (auto simp: load_from_env_def Let_def)
  have app: "AppSection_validate a = Inr ()" "env ''APP_NODE_ID'' = Inr (app_node_id a)"
      "app_shutdown_timeout a \<le> dur_max"
    using a by (auto simp: load_app_def Let_def env_u64_Inr required_env_Inr
        env_number_def [symmetric] dest: env_number_bounds(2))
  have v: "AgentConfig_validate g = Inr ()"
    using g by (auto simp: load_agent_eq agent_section_valid)
  have token: "trim ''bootstrap'' \<noteq> []" by (simp add: text_simps)
  have agent: "ac_heartbeat_interval g \<le> dur_max" "ac_telemetry_interval g \<le> dur_max"
      "ac_connect_timeout g \<le> dur_max" "2 * ac_failover_max_backoff g \<le> dur_max"
      "trim (ac_bootstrap_token g) \<noteq> []" "trim (ac_ca_path g) \<noteq> []"
    using g by (auto simp: load_agent_eq agent_section_def Let_def setting_nonblank token
        dest: env_number_bounds)
  have "0 < max_workers (cfg_worker c)" "max_workers (cfg_worker c) < 2 ^ 64"
    using c(4,6) env_number_bounds(1) [of env "''WORKER_MAX''" "''4''"]
    by (auto simp: WorkerConfig_validate_def env_u64_Inr env_number_def split: if_splits)
  moreover have "trim (app_node_id a) \<noteq> []" "0 < app_shutdown_timeout a"
    using app(1) by (auto simp: AppSection_validate_def split: if_splits)
  moreover have "0 < ac_heartbeat_interval g" "0 < ac_telemetry_interval g" "0 < ac_connect_timeout g"
      "0 < ac_failover_base_backoff g" "ac_failover_base_backoff g \<le> ac_failover_max_backoff g"
    using v by (auto simp: AgentConfig_validate_def Let_def split: if_splits)
  ultimately show ?thesis using app v agent c by simp
qed

text \<open>An environment that sets the node's name and the connect timeout.\<close>

definition demo_env :: env where
  "demo_env key = (if key = ''APP_NODE_ID'' then Inr ''node-1''
     else if key = ''AGENT_CONNECT_TIMEOUT_SEC'' then Inr ''5''
     else Inl ''environment variable not found'')"

theorem config_loaded_is_valid_witness:
  "\<exists>c. load_from_env demo_env = Inr c \<and> app_node_id (cfg_app c) = ''node-1''
     \<and> trim (ac_ca_path (cfg_agent c)) \<noteq> []"
proof -
  have "\<exists>c. load_from_env demo_env = Inr c"
    unfolding config_loads_iff by (simp add: demo_env_def env_number_def optional_env_def unwrap_or_def text_simps)
  then obtain c where c: "load_from_env demo_env = Inr c" ..
  have "demo_env ''APP_NODE_ID'' = Inr ''node-1''" by (simp add: demo_env_def)
  with config_loaded_is_valid [OF c] c show ?thesis by auto
qed

text \<open>
  The defaults: with nothing but \<open>APP_NODE_ID\<close> set, the configuration is the documented
  one (heartbeats every 10 seconds, telemetry every 15, a connect timeout of 3 seconds, a
  backoff from 200 to 3000 milliseconds, 4 workers, 15 seconds to shut down).
\<close>

lemma config_defaults:
  assumes "env ''APP_NODE_ID'' = Inr node" and "trim node \<noteq> []"
    and "\<And>key. key \<noteq> ''APP_NODE_ID'' \<Longrightarrow> optional_env env key = None"
  shows "load_from_env env = Inr
    \<lparr>cfg_app = \<lparr>app_name = ''aurora-kvm-agent'', app_environment = Prod, app_node_id = node,
        app_zone_id = [], app_shutdown_timeout = 15 * 10 ^ 9\<rparr>,
     cfg_agent = \<lparr>ac_enabled = True, ac_bootstrap_target_addr = ''http://127.0.0.1:9090'',
        ac_runtime_target_addr = [],
        ac_runtime_target_state_path = ''/var/lib/aurora-kvm-agent/runtime-target-addr'',
        ac_server_name = [], ac_ca_path = ''/etc/aurora-kvm-agent/tls/ca.crt'',
        ac_cert_path = ''/etc/aurora-kvm-agent/tls/client.crt'',
        ac_key_path = ''/etc/aurora-kvm-agent/tls/client.key'', ac_bootstrap_token = ''bootstrap'',
        ac_heartbeat_interval = 10 * 10 ^ 9, ac_telemetry_interval = 15 * 10 ^ 9,
        ac_connect_timeout = 3 * 10 ^ 9, ac_failover_base_backoff = 200 * 10 ^ 6,
        ac_failover_max_backoff = 3000 * 10 ^ 6, ac_version = ''0.1.0'',
        ac_command_ledger_path = ''/var/lib/aurora-kvm-agent/command-ledger.db''\<rparr>,
     cfg_grpc = \<lparr>bind_addr = ''0.0.0.0:8081''\<rparr>, cfg_worker = \<lparr>max_workers = 4\<rparr>,
     cfg_log = \<lparr>log_level = ''INFO'', log_format = ''json'', log_service = ''aurora-kvm-agent'',
        log_environment = ''prod'', log_host_id = node\<rparr>\<rparr>"
proof -
  have app: "load_app env = Inr \<lparr>app_name = ''aurora-kvm-agent'', app_environment = Prod,
      app_node_id = node, app_zone_id = [], app_shutdown_timeout = 15 * 10 ^ 9\<rparr>"
    using assms by (simp add: load_app_def env_u64_def required_env_def unwrap_or_def
        AppSection_validate_def map_anyhow_def text_simps time_simps)
  have "load_agent env = Inr (agent_section env 10 15 3 200 3000)"
    using assms(3) by (simp add: load_agent_eq env_number_def unwrap_or_def parse_eval)
  then show ?thesis
    using assms(3)
    by (simp add: load_from_env_def app agent_section_def env_u64_def unwrap_or_def GrpcConfig_validate_def
        WorkerConfig_validate_def map_anyhow_def CARGO_PKG_VERSION_def Let_def parse_eval time_simps)
qed

lemma config_defaults_example:
  "\<exists>c. load_from_env (\<lambda>key. if key = ''APP_NODE_ID'' then Inr ''n1'' else Inr '' '') = Inr c
     \<and> max_workers (cfg_worker c) = 4 \<and> ac_connect_timeout (cfg_agent c) = 3 * 10 ^ 9"
proof -
  let ?env = "\<lambda>key. if key = ''APP_NODE_ID'' then Inr ''n1'' else Inr '' ''"
  have "trim ''n1'' \<noteq> []" "\<And>key. key \<noteq> ''APP_NODE_ID'' \<Longrightarrow> optional_env ?env key = None"
    by (simp_all add: optional_env_def text_simps)
  from config_defaults [of ?env "''n1''", OF _ this] show ?thesis by simp
qed

end
