(* ===== verification/Rust_Lines.thy ===== *)
theory Rust_Lines
  imports Rust_Text
begin

text \<open>
  The parts of \<open>str\<close> and \<open>String\<close> that read the output of other programs and the files of
  \<open>/proc\<close>: UTF-8 checks and repair, lines, words, and signed numbers.
\<close>

section \<open>UTF-8\<close>

text \<open>The check of \<open>fs::read_to_string\<close> and \<open>String::from_utf8\<close>.\<close>

definition utf8_cont :: "char \<Rightarrow> bool" where
  "utf8_cont c \<longleftrightarrow> 128 \<le> (of_char c :: nat) \<and> (of_char c :: nat) < 192"

text \<open>
  The second bytes allowed after a lead byte of three and of four.
\<close>

definition second3 :: "nat \<Rightarrow> char \<Rightarrow> bool" where
  "second3 n b \<longleftrightarrow> utf8_cont b \<and> (n = 224 \<longrightarrow> 160 \<le> (of_char b :: nat)) \<and> (n = 237 \<longrightarrow> (of_char b :: nat) < 160)"

definition second4 :: "nat \<Rightarrow> char \<Rightarrow> bool" where
  "second4 n b \<longleftrightarrow> utf8_cont b \<and> (n = 240 \<longrightarrow> 144 \<le> (of_char b :: nat)) \<and> (n = 244 \<longrightarrow> (of_char b :: nat) < 144)"

fun utf8_valid :: "string \<Rightarrow> bool" where
  "utf8_valid [] \<longleftrightarrow> True"
| "utf8_valid (a # s) \<longleftrightarrow>
     (let n = of_char a :: nat in
      if n < 128 then utf8_valid s
      else if 194 \<le> n \<and> n < 224 then
        (case s of b # t \<Rightarrow> utf8_cont b \<and> utf8_valid t | [] \<Rightarrow> False)
      else if 224 \<le> n \<and> n < 240 then
        (case s of b # c # t \<Rightarrow> second3 n b \<and> utf8_cont c \<and> utf8_valid t | _ \<Rightarrow> False)
      else if 240 \<le> n \<and> n < 245 then
        (case s of b # c # d # t \<Rightarrow> second4 n b \<and> utf8_cont c \<and> utf8_cont d \<and> utf8_valid t | _ \<Rightarrow> False)
      else False)"

text \<open>
  \<open>String::from_utf8_lossy\<close>: each maximal prefix of a sequence that goes wrong becomes one
  U+FFFD.
\<close>

definition replacement :: string where
  "replacement = [CHR 0xEF, CHR 0xBF, CHR 0xBD]"

fun from_utf8_lossy :: "string \<Rightarrow> string" where
  "from_utf8_lossy [] = []"
| "from_utf8_lossy (a # s) =
     (let n = of_char a :: nat in
      if n < 128 then a # from_utf8_lossy s
      else if 194 \<le> n \<and> n < 224 then
        (case s of
           [] \<Rightarrow> replacement
         | b # t \<Rightarrow> if utf8_cont b then a # b # from_utf8_lossy t else replacement @ from_utf8_lossy s)
      else if 224 \<le> n \<and> n < 240 then
        (case s of
           [] \<Rightarrow> replacement
         | b # t \<Rightarrow>
             if \<not> second3 n b then replacement @ from_utf8_lossy s
             else case t of
                 [] \<Rightarrow> replacement
               | c # u \<Rightarrow>
                   if utf8_cont c then a # b # c # from_utf8_lossy u else replacement @ from_utf8_lossy t)
      else if 240 \<le> n \<and> n < 245 then
        (case s of
           [] \<Rightarrow> replacement
         | b # t \<Rightarrow>
             if \<not> second4 n b then replacement @ from_utf8_lossy s
             else case t of
                 [] \<Rightarrow> replacement
               | c # u \<Rightarrow>
                   if \<not> utf8_cont c then replacement @ from_utf8_lossy t
                   else case u of
                       [] \<Rightarrow> replacement
                     | d # v \<Rightarrow>
                         if utf8_cont d then a # b # c # d # from_utf8_lossy v
                         else replacement @ from_utf8_lossy u)
      else replacement @ from_utf8_lossy s)"

lemmas lossy_eval [text_simps] = utf8_cont_def second3_def second4_def replacement_def

text \<open>Text that is UTF-8 already comes back as it is, and what comes back always is.\<close>

lemma utf8_valid_replacement [simp]: "utf8_valid (replacement @ s) = utf8_valid s"
  by (simp add: replacement_def second3_def utf8_cont_def)

lemma from_utf8_lossy_valid: "utf8_valid s \<Longrightarrow> from_utf8_lossy s = s"
proof (induction s rule: length_induct)
  case (1 s)
  then have IH: "from_utf8_lossy t = t" if "length t < length s" "utf8_valid t" for t
    using that by blast
  show ?case
  proof (cases s)
    case (Cons a r)
    obtain n where n: "(of_char a :: nat) = n" by simp
    consider (one) "n < 128" | (two) "194 \<le> n" "n < 224" | (three) "224 \<le> n" "n < 240"
      | (four) "240 \<le> n" "n < 245" | (bad) "128 \<le> n" "n < 194 \<or> 245 \<le> n" by linarith
    then show ?thesis
    proof cases
      case one
      with 1(2) Cons n IH [of r] show ?thesis by simp
    next
      case two
      with 1(2) Cons n obtain b t where "r = b # t" "utf8_cont b" "utf8_valid t" by (cases r) simp_all
      with two Cons n IH [of t] show ?thesis by simp
    next
      case three
      with 1(2) Cons n obtain b c t where "r = b # c # t" "second3 n b" "utf8_cont c" "utf8_valid t"
        by (cases r; cases "tl r") simp_all
      with three Cons n IH [of t] show ?thesis by simp
    next
      case four
      with 1(2) Cons n obtain b c d t
        where "r = b # c # d # t" "second4 n b" "utf8_cont c" "utf8_cont d" "utf8_valid t"
        by (cases r; cases "tl r"; cases "tl (tl r)") simp_all
      with four Cons n IH [of t] show ?thesis by simp
    next
      case bad
      with 1(2) Cons n show ?thesis by auto
    qed
  qed simp
qed

lemma utf8_valid_lossy: "utf8_valid (from_utf8_lossy s)"
proof (induction s rule: from_utf8_lossy.induct)
  case (2 a s)
  have "utf8_valid replacement" using utf8_valid_replacement [of "[]"] by simp
  with 2 show ?case by (simp add: Let_def split: list.splits)
qed simp

section \<open>Lines and words\<close>

text \<open>
  \<open>str::lines\<close>: pieces that end in a line feed, less it and a carriage return before it; a
  last piece without one stays as it is, and an empty one is no line.
\<close>

fun str_lines_acc :: "string \<Rightarrow> string \<Rightarrow> string list" where
  "str_lines_acc acc [] = (if acc = [] then [] else [rev acc])"
| "str_lines_acc acc (c # s) =
     (if c = CHR 0x0A
      then rev (case acc of d # ds \<Rightarrow> if d = CHR 0x0D then ds else acc | [] \<Rightarrow> []) # str_lines_acc [] s
      else str_lines_acc (c # acc) s)"

definition str_lines :: "string \<Rightarrow> string list" where
  "str_lines s = str_lines_acc [] s"

text \<open>\<open>str::split_whitespace\<close>: the pieces between white space, less the empty ones.\<close>

definition push_word :: "string \<Rightarrow> string list \<Rightarrow> string list" where
  "push_word acc ws = (if acc = [] then ws else rev acc # ws)"

fun split_ws_acc :: "string \<Rightarrow> string \<Rightarrow> string list" where
  "split_ws_acc acc (a # b # c # s) =
     (if ascii_ws a then push_word acc (split_ws_acc [] (b # c # s))
      else if ws2 a b then push_word acc (split_ws_acc [] (c # s))
      else if ws3 a b c then push_word acc (split_ws_acc [] s)
      else split_ws_acc (a # acc) (b # c # s))"
| "split_ws_acc acc [a, b] =
     (if ascii_ws a then push_word acc (split_ws_acc [] [b])
      else if ws2 a b then push_word acc []
      else split_ws_acc (a # acc) [b])"
| "split_ws_acc acc [a] = (if ascii_ws a then push_word acc [] else push_word (a # acc) [])"
| "split_ws_acc acc [] = push_word acc []"

definition split_whitespace :: "string \<Rightarrow> string list" where
  "split_whitespace s = split_ws_acc [] s"

text \<open>\<open>str::contains\<close> and \<open>str::replace\<close> of one byte by another.\<close>

fun str_contains :: "string \<Rightarrow> string \<Rightarrow> bool" where
  "str_contains p [] \<longleftrightarrow> p = []"
| "str_contains p (c # s) \<longleftrightarrow> starts_with p (c # s) \<or> str_contains p s"

definition replace_char :: "char \<Rightarrow> char \<Rightarrow> string \<Rightarrow> string" where
  "replace_char a b s = map (\<lambda>c. if c = a then b else c) s"

section \<open>Signed numbers\<close>

text \<open>\<open>s.parse::<i64>()\<close> and \<open>s.parse::<i32>()\<close>: a sign, digits, nothing else, in range.\<close>

definition parse_signed :: "int \<Rightarrow> int \<Rightarrow> string \<Rightarrow> int option" where
  "parse_signed lo hi s =
     (let neg = (case s of c # r \<Rightarrow> c = CHR ''-'' | [] \<Rightarrow> False);
          d = (case s of c # r \<Rightarrow> if c = CHR ''-'' \<or> c = CHR ''+'' then r else s | [] \<Rightarrow> [])
      in if d = [] then None
         else case parse_digits 0 d of
             None \<Rightarrow> None
           | Some n \<Rightarrow>
               let v = (if neg then - int n else int n)
               in if lo \<le> v \<and> v \<le> hi then Some v else None)"

definition parse_i64 :: "string \<Rightarrow> int option" where
  "parse_i64 = parse_signed (- (2 ^ 63)) (2 ^ 63 - 1)"

definition parse_i32 :: "string \<Rightarrow> int option" where
  "parse_i32 = parse_signed (- (2 ^ 31)) (2 ^ 31 - 1)"

lemmas lines_eval [text_simps] = str_lines_def split_whitespace_def push_word_def replace_char_def
  parse_signed_def parse_i64_def parse_i32_def

lemma parse_signed_range: "parse_signed lo hi s = Some v \<Longrightarrow> lo \<le> v \<and> v \<le> hi"
  by (auto simp: parse_signed_def Let_def split: option.splits if_splits)

lemma parse_i64_range: "parse_i64 s = Some v \<Longrightarrow> - (2 ^ 63) \<le> v \<and> v \<le> 2 ^ 63 - 1"
  unfolding parse_i64_def by (rule parse_signed_range)

lemma parse_i32_range: "parse_i32 s = Some v \<Longrightarrow> - (2 ^ 31) \<le> v \<and> v \<le> 2 ^ 31 - 1"
  unfolding parse_i32_def by (rule parse_signed_range)

lemma parse_signed_show_nat: "int n \<le> hi \<Longrightarrow> lo \<le> 0 \<Longrightarrow> parse_signed lo hi (show_nat n) = Some (int n)"
proof -
  assume n: "int n \<le> hi" "lo \<le> 0"
  obtain d s where d: "d < 10" "show_nat n = digit_char d # s"
    using show_nat_hd by blast
  then have "digit_char d \<noteq> CHR ''+'' \<and> digit_char d \<noteq> CHR ''-''"
    using digit_val_char [of d] by (auto simp: digit_val_def Let_def)
  with d n show ?thesis
    using parse_digits_show_nat [of n] by (simp add: parse_signed_def)
qed

text \<open>A word has at least a byte.\<close>

lemma split_ws_acc_nonempty: "[] \<notin> set (split_ws_acc acc s)"
  by (induction acc s rule: split_ws_acc.induct) (auto simp: push_word_def)

lemma split_whitespace_nonempty: "[] \<notin> set (split_whitespace s)"
  by (simp add: split_whitespace_def split_ws_acc_nonempty)

text \<open>No line holds a line feed.\<close>

lemma str_lines_acc_no_lf: "CHR 0x0A \<notin> set acc \<Longrightarrow> l \<in> set (str_lines_acc acc s) \<Longrightarrow> CHR 0x0A \<notin> set l"
proof (induction acc s rule: str_lines_acc.induct)
  case (2 acc c s)
  then show ?case by (auto split: if_splits list.splits)
qed (auto split: if_splits)

lemma str_lines_no_lf: "l \<in> set (str_lines s) \<Longrightarrow> CHR 0x0A \<notin> set l"
  unfolding str_lines_def by (rule str_lines_acc_no_lf) simp_all

end
