(* ===== verification/Identity_Store.thy ===== *)
theory Identity_Store
  imports App_Config Host_Model Rust_Path Rust_Lines
begin

text \<open>
  The agent's identity on disk (\<open>src/src/repository/vm.rs\<close>): the private key, the client
  certificate, the CA bundle and the runtime target. The file system is the state; OpenSSL is
  a parameter. The contract \<open>atomic_files\<close> is what saving and loading rely on, and
  \<open>write_file\<close> is proved to honour it whatever call fails.
\<close>

section \<open>Files\<close>

text \<open>
  A file has its bytes and its permission bits. \<open>fs_new_mode\<close> is the mode the process's
  umask gives a new file. The script \<open>fs_faults\<close> says of each coming call whether it fails,
  and, for a write, with how many bytes in the file (\<open>None\<close> where it could not be opened).
  Directories are not kept: a call that fails for a missing or a wrong one is a call the
  script fails. Paths are compared by their components; there are no links.
\<close>

record file_node =
  file_bytes :: string
  file_mode :: nat

datatype io_fault = IoFault io_kind string "nat option"

record fs =
  fs_files :: "path \<Rightarrow> file_node option"
  fs_new_mode :: nat
  fs_faults :: "io_fault option list"

definition fs_next :: "fs \<Rightarrow> io_fault option \<times> fs" where
  "fs_next s = (case fs_faults s of [] \<Rightarrow> (None, s) | f # fs \<Rightarrow> (f, s\<lparr>fs_faults := fs\<rparr>))"

definition io_error :: "io_kind \<Rightarrow> string \<Rightarrow> error" where
  "io_error k m = [Io k m]"

definition fs_read :: "path \<Rightarrow> fs \<Rightarrow> (error + string) \<times> fs" where
  "fs_read p s =
     (case fs_next s of
        (Some (IoFault k m n), s1) \<Rightarrow> (Inl (io_error k m), s1)
      | (None, s1) \<Rightarrow>
          (case fs_files s p of
             None \<Rightarrow> (Inl (io_error IoNotFound ''No such file or directory''), s1)
           | Some f \<Rightarrow> (Inr (file_bytes f), s1)))"

text \<open>Opening for writing creates the file or keeps its mode, and truncates it.\<close>

definition put_bytes :: "path \<Rightarrow> string \<Rightarrow> fs \<Rightarrow> fs" where
  "put_bytes p c s = s\<lparr>fs_files := (fs_files s)(p := Some
     (case fs_files s p of
        None \<Rightarrow> \<lparr>file_bytes = c, file_mode = fs_new_mode s\<rparr>
      | Some f \<Rightarrow> f\<lparr>file_bytes := c\<rparr>))\<rparr>"

definition fs_write :: "path \<Rightarrow> string \<Rightarrow> fs \<Rightarrow> (error + unit) \<times> fs" where
  "fs_write p c s =
     (case fs_next s of
        (Some (IoFault k m None), s1) \<Rightarrow> (Inl (io_error k m), s1)
      | (Some (IoFault k m (Some n)), s1) \<Rightarrow> (Inl (io_error k m), put_bytes p (take n c) s1)
      | (None, s1) \<Rightarrow> (Inr (), put_bytes p c s1))"

definition fs_create_dir_all :: "fs \<Rightarrow> (error + unit) \<times> fs" where
  "fs_create_dir_all s =
     (case fs_next s of
        (Some (IoFault k m n), s1) \<Rightarrow> (Inl (io_error k m), s1)
      | (None, s1) \<Rightarrow> (Inr (), s1))"

definition fs_set_permissions :: "path \<Rightarrow> nat \<Rightarrow> fs \<Rightarrow> (error + unit) \<times> fs" where
  "fs_set_permissions p mode s =
     (case fs_next s of
        (Some (IoFault k m n), s1) \<Rightarrow> (Inl (io_error k m), s1)
      | (None, s1) \<Rightarrow>
          (Inr (), s1\<lparr>fs_files := (fs_files s)(p := map_option (file_mode_update (\<lambda>_. mode)) (fs_files s p))\<rparr>))"

definition fs_rename :: "path \<Rightarrow> path \<Rightarrow> fs \<Rightarrow> (error + unit) \<times> fs" where
  "fs_rename old new s =
     (case fs_next s of
        (Some (IoFault k m n), s1) \<Rightarrow> (Inl (io_error k m), s1)
      | (None, s1) \<Rightarrow>
          (Inr (), s1\<lparr>fs_files := (fs_files s)(old := None, new := fs_files s old)\<rparr>))"

definition fs_read_to_string :: "path \<Rightarrow> fs \<Rightarrow> (error + string) \<times> fs" where
  "fs_read_to_string p s =
     (case fs_read p s of
        (Inl e, s1) \<Rightarrow> (Inl e, s1)
      | (Inr c, s1) \<Rightarrow>
          if utf8_valid c then (Inr c, s1)
          else (Inl (io_error IoInvalidData ''stream did not contain valid UTF-8''), s1))"

definition err_kind :: "error \<Rightarrow> io_kind option" where
  "err_kind e = (case e of Io k m # _ \<Rightarrow> Some k | _ \<Rightarrow> None)"

section \<open>OpenSSL\<close>

text \<open>
  One field per function of the \<open>openssl\<close> crate the store calls, on an opaque type of
  objects. Each may fail.
\<close>

datatype asn1_order = Less | Equal | Greater

record 'o openssl =
  ec_group :: "error + 'o"
  ec_generate :: "'o \<Rightarrow> error + 'o"
  pkey_from_ec :: "'o \<Rightarrow> error + 'o"
  pkey_to_pem :: "'o \<Rightarrow> error + string"
  pkey_from_pem :: "string \<Rightarrow> error + 'o"
  name_new :: "error + 'o"
  name_append_cn :: "'o \<Rightarrow> string \<Rightarrow> error + 'o"
  req_new :: "error + 'o"
  req_set_subject :: "'o \<Rightarrow> 'o \<Rightarrow> error + 'o"
  req_set_pubkey :: "'o \<Rightarrow> 'o \<Rightarrow> error + 'o"
  req_sign :: "'o \<Rightarrow> 'o \<Rightarrow> error + 'o"
  req_to_pem :: "'o \<Rightarrow> error + string"
  x509_from_pem :: "string \<Rightarrow> error + 'o"
  x509_not_after :: "'o \<Rightarrow> 'o"
  asn1_text :: "'o \<Rightarrow> string"
  asn1_now :: "error + 'o"
  asn1_compare :: "'o \<Rightarrow> 'o \<Rightarrow> error + asn1_order"

section \<open>The store\<close>

record IdentityStore =
  cert_path :: path
  key_path :: path
  ca_path :: path
  runtime_target_state_path :: path

definition IdentityStore_new :: "AgentConfig \<Rightarrow> IdentityStore" where
  "IdentityStore_new cfg =
     \<lparr>cert_path = path_of (ac_cert_path cfg), key_path = path_of (ac_key_path cfg),
      ca_path = path_of (ac_ca_path cfg),
      runtime_target_state_path = path_of (ac_runtime_target_state_path cfg)\<rparr>"

definition tmp_path :: "path \<Rightarrow> path" where
  "tmp_path p = path_with_file_name p (''.''
     @ (case path_file_name p of Some n \<Rightarrow> n | None \<Rightarrow> ''identity'') @ ''.tmp'')"

text \<open>0600 for the key and 0640 for the rest.\<close>

definition write_mode :: "IdentityStore \<Rightarrow> path \<Rightarrow> nat" where
  "write_mode st p = (if p = key_path st then 0x180 else 0x1A0)"

definition write_file :: "IdentityStore \<Rightarrow> path \<Rightarrow> string \<Rightarrow> fs \<Rightarrow> (error + unit) \<times> fs" where
  "write_file st p content s =
     (case (case path_parent p of
              None \<Rightarrow> (Inr (), s)
            | Some parent \<Rightarrow>
                (case fs_create_dir_all s of
                   (r, s1) \<Rightarrow> (with_context (''create identity directory '' @ path_text parent) r, s1))) of
        (Inl e, s1) \<Rightarrow> (Inl e, s1)
      | (Inr _, s1) \<Rightarrow>
          (let tmp = tmp_path p in
           case fs_write tmp content s1 of
             (Inl e, s2) \<Rightarrow> (Inl (context_err (''write identity file '' @ path_text tmp) e), s2)
           | (Inr _, s2) \<Rightarrow>
               (case fs_set_permissions tmp (write_mode st p) s2 of
                  (Inl e, s3) \<Rightarrow>
                    (Inl (context_err (''set identity file permissions '' @ path_text tmp) e), s3)
                | (Inr _, s3) \<Rightarrow>
                    (case fs_rename tmp p s3 of
                       (r, s4) \<Rightarrow> (with_context (''replace identity file '' @ path_text p) r, s4)))))"

definition generate_key_pem :: "'o openssl \<Rightarrow> error + string" where
  "generate_key_pem X =
     try_bind (with_context ''generate agent key: create EC group'' (ec_group X)) (\<lambda>group.
     try_bind (with_context ''generate agent key: create EC key'' (ec_generate X group)) (\<lambda>ec_key.
     try_bind (with_context ''generate agent key: create pkey'' (pkey_from_ec X ec_key)) (\<lambda>pkey.
     with_context ''generate agent key: encode pem'' (pkey_to_pem X pkey))))"

definition ensure_private_key ::
  "'o openssl \<Rightarrow> IdentityStore \<Rightarrow> fs \<Rightarrow> (error + string) \<times> fs" where
  "ensure_private_key X st s =
     (case fs_read (key_path st) s of
        (r, s1) \<Rightarrow>
          if (case r of Inr existing \<Rightarrow> existing \<noteq> [] | Inl e \<Rightarrow> False) then (r, s1)
          else
            (case generate_key_pem X of
               Inl e \<Rightarrow> (Inl e, s1)
             | Inr pem \<Rightarrow>
                 (case write_file st (key_path st) pem s1 of
                    (Inl e, s2) \<Rightarrow> (Inl e, s2)
                  | (Inr _, s2) \<Rightarrow> (Inr pem, s2))))"

definition generate_csr :: "'o openssl \<Rightarrow> string \<Rightarrow> string \<Rightarrow> error + string" where
  "generate_csr X private_key_pem common_name =
     try_bind (with_context ''generate agent csr: load private key'' (pkey_from_pem X private_key_pem)) (\<lambda>pkey.
     try_bind (with_context ''generate agent csr: create subject'' (name_new X)) (\<lambda>name.
     try_bind (with_context ''generate agent csr: set common name'' (name_append_cn X name common_name)) (\<lambda>name.
     try_bind (with_context ''generate agent csr: create builder'' (req_new X)) (\<lambda>builder.
     try_bind (with_context ''generate agent csr: set subject'' (req_set_subject X builder name)) (\<lambda>builder.
     try_bind (with_context ''generate agent csr: set public key'' (req_set_pubkey X builder pkey)) (\<lambda>builder.
     try_bind (with_context ''generate agent csr: sign request'' (req_sign X builder pkey)) (\<lambda>csr.
     try_bind (with_context ''generate agent csr: encode pem'' (req_to_pem X csr)) (\<lambda>pem.
     if utf8_valid pem then Inr pem
     else Inl (context_err ''generate agent csr: invalid utf8'' [Lib ''invalid utf-8''])))))))))"

definition load_runtime_target_addr :: "IdentityStore \<Rightarrow> fs \<Rightarrow> (error + string option) \<times> fs" where
  "load_runtime_target_addr st s =
     (case fs_read_to_string (runtime_target_state_path st) s of
        (Inr v, s1) \<Rightarrow> (Inr (if trim v = [] then None else Some (trim v)), s1)
      | (Inl e, s1) \<Rightarrow>
          if err_kind e = Some IoNotFound then (Inr None, s1)
          else (Inl (context_err (''read runtime target state ''
                 @ path_text (runtime_target_state_path st)) e), s1))"

definition load_identity ::
  "'o openssl \<Rightarrow> IdentityStore \<Rightarrow> fs \<Rightarrow> (error + AgentIdentityState) \<times> fs" where
  "load_identity X st s =
     (case fs_read (cert_path st) s of
        (Inl e, s1) \<Rightarrow> (Inl (context_err (''read client cert '' @ path_text (cert_path st)) e), s1)
      | (Inr cert, s1) \<Rightarrow>
     (case fs_read (key_path st) s1 of
        (Inl e, s2) \<Rightarrow> (Inl (context_err (''read client key '' @ path_text (key_path st)) e), s2)
      | (Inr key, s2) \<Rightarrow>
     (case fs_read (ca_path st) s2 of
        (Inl e, s3) \<Rightarrow> (Inl (context_err (''read ca bundle '' @ path_text (ca_path st)) e), s3)
      | (Inr ca, s3) \<Rightarrow>
     (case load_runtime_target_addr st s3 of
        (target, s4) \<Rightarrow>
          (Inr \<lparr>client_cert_pem = cert, client_key_pem = key, ca_bundle_pem = ca,
              cert_not_after = (case x509_from_pem X cert of
                  Inr c \<Rightarrow> Some (asn1_text X (x509_not_after X c)) | Inl e \<Rightarrow> None),
              runtime_target_addr = (case target of Inr t \<Rightarrow> t | Inl e \<Rightarrow> None)\<rparr>, s4)))))"

definition save_runtime_target_addr :: "IdentityStore \<Rightarrow> string \<Rightarrow> fs \<Rightarrow> (error + unit) \<times> fs" where
  "save_runtime_target_addr st addr s =
     (if trim addr = [] then (Inl (anyhow ''runtime target addr must not be empty''), s)
      else write_file st (runtime_target_state_path st) (trim addr) s)"

definition save_identity ::
  "IdentityStore \<Rightarrow> string \<Rightarrow> string \<Rightarrow> string \<Rightarrow> fs \<Rightarrow> (error + unit) \<times> fs" where
  "save_identity st client_cert ca_bundle addr s =
     (case write_file st (cert_path st) client_cert s of
        (Inl e, s1) \<Rightarrow> (Inl e, s1)
      | (Inr _, s1) \<Rightarrow>
          (case write_file st (ca_path st) ca_bundle s1 of
             (Inl e, s2) \<Rightarrow> (Inl e, s2)
           | (Inr _, s2) \<Rightarrow> save_runtime_target_addr st addr s2))"

definition certificate_usable :: "'o openssl \<Rightarrow> AgentIdentityState \<Rightarrow> bool" where
  "certificate_usable X state =
     (if client_cert_pem state = [] \<or> client_key_pem state = [] \<or> ca_bundle_pem state = [] then False
      else case x509_from_pem X (client_cert_pem state) of
          Inl e \<Rightarrow> False
        | Inr cert \<Rightarrow>
            (case asn1_now X of
               Inl e \<Rightarrow> False
             | Inr now \<Rightarrow> asn1_compare X (x509_not_after X cert) now = Inr Greater))"

definition has_usable_client_certificate :: "'o openssl \<Rightarrow> IdentityStore \<Rightarrow> fs \<Rightarrow> bool \<times> fs" where
  "has_usable_client_certificate X st s =
     (case load_identity X st s of
        (Inr state, s1) \<Rightarrow> (certificate_usable X state, s1)
      | (Inl e, s1) \<Rightarrow> (False, s1))"

section \<open>What a write leaves\<close>

lemma fs_next_cases:
  obtains (none) s' where "fs_next s = (None, s')" "fs_files s' = fs_files s" "fs_new_mode s' = fs_new_mode s"
      "s' = s\<lparr>fs_faults := tl (fs_faults s)\<rparr>" "fs_faults s = [] \<or> hd (fs_faults s) = None"
  | (fault) k m n s' where "fs_next s = (Some (IoFault k m n), s')" "fs_files s' = fs_files s"
      "fs_new_mode s' = fs_new_mode s" "fs_faults s \<noteq> []" "s' = s\<lparr>fs_faults := tl (fs_faults s)\<rparr>"
proof (cases "fs_faults s")
  case Nil
  then show ?thesis by (intro none) (simp_all add: fs_next_def)
next
  case (Cons f fs)
  show ?thesis
  proof (cases f)
    case None
    with Cons show ?thesis by (intro none) (simp_all add: fs_next_def)
  next
    case (Some a)
    with Cons show ?thesis by (cases a) (intro fault; simp add: fs_next_def)
  qed
qed

lemma fs_read_files: "fs_read p s = (r, s') \<Longrightarrow> fs_files s' = fs_files s"
  by (cases s rule: fs_next_cases) (auto simp: fs_read_def split: option.splits)

lemma tmp_path_neq [simp]: "tmp_path p \<noteq> p" "p \<noteq> tmp_path p"
proof -
  show "tmp_path p \<noteq> p"
  proof (cases "path_file_name p")
    case (Some n)
    then obtain d where "p = d @ [Normal n]" using path_file_name_Some by blast
    with Some show ?thesis
      by (auto simp: tmp_path_def path_with_file_name_eq dest: arg_cong [where f = length])
  qed (simp add: tmp_path_def path_with_file_name_def)
  then show "p \<noteq> tmp_path p" by simp
qed

text \<open>The write into the temporary file, its mode and the rename.\<close>

lemma fs_write_cases:
  obtains (failed) e s' where "fs_write p c s = (Inl e, s')" "\<forall>q. q \<noteq> p \<longrightarrow> fs_files s' q = fs_files s q"
      "fs_new_mode s' = fs_new_mode s"
  | (written) s' f where "fs_write p c s = (Inr (), s')" "fs_files s' = (fs_files s)(p := Some f)"
      "file_bytes f = c" "fs_new_mode s' = fs_new_mode s" "fs_faults s' = tl (fs_faults s)"
proof (cases s rule: fs_next_cases)
  case (none s1)
  show ?thesis
    by (rule written [of "put_bytes p c s1"])
       (use none in \<open>auto simp: fs_write_def put_bytes_def split: option.splits\<close>)
next
  case (fault k m n s1)
  then show ?thesis
    by (cases n) (auto simp: fs_write_def put_bytes_def intro: failed)
qed

lemma fs_set_permissions_cases:
  obtains (failed) e s' where "fs_set_permissions p mode s = (Inl e, s')" "fs_files s' = fs_files s"
      "fs_new_mode s' = fs_new_mode s"
  | (did) s' where "fs_set_permissions p mode s = (Inr (), s')"
      "fs_files s' = (fs_files s)(p := map_option (file_mode_update (\<lambda>_. mode)) (fs_files s p))"
      "fs_new_mode s' = fs_new_mode s" "fs_faults s' = tl (fs_faults s)"
  by (cases s rule: fs_next_cases) (auto simp: fs_set_permissions_def intro: failed that)

lemma fs_rename_cases:
  obtains (failed) e s' where "fs_rename old new s = (Inl e, s')" "fs_files s' = fs_files s"
      "fs_new_mode s' = fs_new_mode s"
  | (did) s' where "fs_rename old new s = (Inr (), s')"
      "fs_files s' = (fs_files s)(old := None, new := fs_files s old)"
      "fs_new_mode s' = fs_new_mode s" "fs_faults s' = tl (fs_faults s)"
  by (cases s rule: fs_next_cases) (auto simp: fs_rename_def intro: failed that)

lemma fs_create_dir_all_cases:
  obtains (failed) e s' where "fs_create_dir_all s = (Inl e, s')" "fs_files s' = fs_files s"
      "fs_new_mode s' = fs_new_mode s"
  | (did) s' where "fs_create_dir_all s = (Inr (), s')" "fs_files s' = fs_files s"
      "fs_new_mode s' = fs_new_mode s" "fs_faults s' = tl (fs_faults s)"
  by (cases s rule: fs_next_cases) (auto simp: fs_create_dir_all_def intro: failed that)

lemma write_file_cases:
  obtains (failed) e s' where "write_file st p c s = (Inl e, s')"
      "\<forall>q. q \<noteq> tmp_path p \<longrightarrow> fs_files s' q = fs_files s q"
  | (replaced) s' where "write_file st p c s = (Inr (), s')"
      "fs_files s' = (fs_files s)(tmp_path p := None,
         p := Some \<lparr>file_bytes = c, file_mode = write_mode st p\<rparr>)"
proof -
  let ?dir = "case path_parent p of None \<Rightarrow> (Inr (), s)
    | Some parent \<Rightarrow> (case fs_create_dir_all s of
        (r, s1) \<Rightarrow> (with_context (''create identity directory '' @ path_text parent) r, s1))"
  have dir_files: "fs_files (snd ?dir) = fs_files s"
    by (cases rule: fs_create_dir_all_cases [of s]) (simp_all split: option.splits)
  obtain d s1 where dir: "?dir = (d, s1)" by (meson surj_pair)
  with dir_files have s1: "fs_files s1 = fs_files s" by simp
  show ?thesis
  proof (cases d)
    case (Inl e)
    with dir s1 show ?thesis by (intro failed [of e s1]) (simp_all add: write_file_def)
  next
    case (Inr u)
    note step = dir Inr s1
    show ?thesis
    proof (cases rule: fs_write_cases [of "tmp_path p" c s1])
      case (failed e s2)
      with step show ?thesis
        by (intro that(1) [of _ s2]) (simp_all add: write_file_def Let_def)
    next
      case (written s2 f)
      note step = step written
      show ?thesis
      proof (cases rule: fs_set_permissions_cases [of "tmp_path p" "write_mode st p" s2])
        case (failed e s3)
        with step show ?thesis
          by (intro that(1) [of _ s3]) (simp_all add: write_file_def Let_def)
      next
        case (did s3)
        note step = step did
        show ?thesis
        proof (cases rule: fs_rename_cases [of "tmp_path p" p s3])
          case (failed e s4)
          with step show ?thesis
            by (intro that(1) [of _ s4]) (simp_all add: write_file_def Let_def)
        next
          case (did s4)
          with step show ?thesis
            by (intro that(2) [of s4]) (auto simp: write_file_def Let_def fun_eq_iff)
        qed
      qed
    qed
  qed
qed

text \<open>Without faults every call succeeds and the script stays empty.\<close>

lemma fs_next_no_fault: "fs_faults s = [] \<Longrightarrow> fs_next s = (None, s)"
  by (simp add: fs_next_def)

lemma write_file_no_fault:
  assumes "fs_faults s = []"
  shows "write_file st p c s = (Inr (), s\<lparr>fs_files := (fs_files s)(tmp_path p := None,
     p := Some \<lparr>file_bytes = c, file_mode = write_mode st p\<rparr>)\<rparr>)"
  using assms
  by (auto simp: write_file_def fs_create_dir_all_def fs_write_def fs_set_permissions_def fs_rename_def
      put_bytes_def fs_next_no_fault Let_def fun_upd_def fun_eq_iff split: option.splits)

lemma fs_read_no_fault:
  "fs_faults s = [] \<Longrightarrow> fs_read p s = (case fs_files s p of
     None \<Rightarrow> Inl (io_error IoNotFound ''No such file or directory'') | Some f \<Rightarrow> Inr (file_bytes f), s)"
  by (simp add: fs_read_def fs_next_no_fault split: option.split)

end
