(* ===== verification/Identity_Safety.thy ===== *)
theory Identity_Safety
  imports Identity_Store
begin

text \<open>
  What the identity store guarantees: the contract \<open>atomic_files\<close> of a replaceable file, the
  sequence of replacements it supports, its instance on \<open>write_file\<close>, and the properties of
  saving, loading and key generation.
\<close>

section \<open>The contract of a replaceable file\<close>

text \<open>Replacing several files, one after the other, up to the first that fails.\<close>

fun put_all ::
  "('p \<Rightarrow> string \<Rightarrow> 's \<Rightarrow> (error + unit) \<times> 's) \<Rightarrow> ('p \<times> string) list \<Rightarrow> 's \<Rightarrow> (error + unit) \<times> 's" where
  "put_all put [] s = (Inr (), s)"
| "put_all put ((p, c) # xs) s =
     (case put p c s of (Inl e, s1) \<Rightarrow> (Inl e, s1) | (Inr _, s1) \<Rightarrow> put_all put xs s1)"

text \<open>The contents after the first \<open>k\<close> replacements.\<close>

definition after_puts :: "('p \<times> string) list \<Rightarrow> nat \<Rightarrow> ('p \<Rightarrow> string option) \<Rightarrow> 'p \<Rightarrow> string option" where
  "after_puts xs k old p = (case map_of (take k xs) p of Some c \<Rightarrow> Some c | None \<Rightarrow> old p)"

lemma after_puts_0 [simp]: "after_puts xs 0 old p = old p"
  by (simp add: after_puts_def)

lemma after_puts_Suc:
  "p \<notin> fst ` set xs \<Longrightarrow>
     after_puts ((p, c) # xs) (Suc k) old q = after_puts xs k (old(p := Some c)) q"
proof (cases "q = p")
  assume p: "p \<notin> fst ` set xs"
  case True
  have "map_of (take k xs) p = None"
    using p by (auto simp: map_of_eq_None_iff dest: in_set_takeD)
  with True show ?thesis by (simp add: after_puts_def)
qed (simp add: after_puts_def split: option.splits)

locale atomic_files =
  fixes put :: "'p \<Rightarrow> string \<Rightarrow> 's \<Rightarrow> (error + unit) \<times> 's"
    and content :: "'s \<Rightarrow> 'p \<Rightarrow> string option"
    and owned :: "'p \<Rightarrow> bool"
  assumes put_ok: "owned p \<Longrightarrow> put p c s = (Inr u, s') \<Longrightarrow> content s' p = Some c"
    and put_err: "owned p \<Longrightarrow> put p c s = (Inl e, s') \<Longrightarrow> content s' p = content s p"
    and put_other: "owned p \<Longrightarrow> owned q \<Longrightarrow> q \<noteq> p \<Longrightarrow> content (snd (put p c s)) q = content s q"
begin

text \<open>However it ends, a sequence of replacements has been done up to some point.\<close>

lemma put_all_prefix:
  assumes "distinct (map fst xs)" and "\<forall>x\<in>set xs. owned (fst x)" and "put_all put xs s = (r, s')"
  shows "\<exists>k\<le>length xs. (r = Inr () \<longleftrightarrow> k = length xs)
    \<and> (\<forall>q. owned q \<longrightarrow> content s' q = after_puts xs k (content s) q)"
  using assms
proof (induction xs arbitrary: s)
  case (Cons x xs)
  obtain p c where x: "x = (p, c)" by fastforce
  obtain u s1 where put1: "put p c s = (u, s1)" by (meson surj_pair)
  have p: "owned p" "p \<notin> fst ` set xs" using Cons.prems x by auto
  show ?case
  proof (cases u)
    case (Inl e)
    have "content s1 q = content s q" if "owned q" for q
      using put_err [OF p(1)] put_other [OF p(1) that, of c s] put1 Inl by (cases "q = p") auto
    with Cons.prems x put1 Inl show ?thesis by (intro exI [of _ 0]) auto
  next
    case (Inr v)
    then have run: "put_all put xs s1 = (r, s')" using Cons.prems x put1 by simp
    from Cons.IH [OF _ _ run] Cons.prems obtain k where k: "k \<le> length xs" "r = Inr () \<longleftrightarrow> k = length xs"
      "\<forall>q. owned q \<longrightarrow> content s' q = after_puts xs k (content s1) q" by auto
    have "content s1 q = ((content s)(p := Some c)) q" if "owned q" for q
      using put_ok [OF p(1)] put_other [OF p(1) that, of c s] put1 Inr by (cases "q = p") auto
    then have "after_puts xs k (content s1) q = after_puts (x # xs) (Suc k) (content s) q" if "owned q" for q
      using that p(2) x by (simp add: after_puts_Suc) (simp add: after_puts_def split: option.splits)
    with k show ?thesis by (intro exI [of _ "Suc k"]) auto
  qed
qed simp

end

section \<open>The identity store's files\<close>

definition store_paths :: "IdentityStore \<Rightarrow> path list" where
  "store_paths st = [cert_path st, key_path st, ca_path st, runtime_target_state_path st]"

text \<open>The configured paths are four files, none of them another's temporary file.\<close>

definition store_wf :: "IdentityStore \<Rightarrow> bool" where
  "store_wf st \<longleftrightarrow> distinct (store_paths st)
     \<and> (\<forall>p\<in>set (store_paths st). tmp_path p \<notin> set (store_paths st))"

definition fs_content :: "fs \<Rightarrow> path \<Rightarrow> string option" where
  "fs_content s p = map_option file_bytes (fs_files s p)"

definition identity_file :: "IdentityStore \<Rightarrow> path \<Rightarrow> bool" where
  "identity_file st p \<longleftrightarrow> store_wf st \<and> p \<in> set (store_paths st)"

interpretation idf: atomic_files "write_file st" fs_content "identity_file st" for st
proof unfold_locales
  fix p q c s e s' and u :: unit
  assume p: "identity_file st p"
  show "write_file st p c s = (Inr u, s') \<Longrightarrow> fs_content s' p = Some c"
    by (cases rule: write_file_cases [of st p c s]) (auto simp: fs_content_def)
  show "write_file st p c s = (Inl e, s') \<Longrightarrow> fs_content s' p = fs_content s p"
    by (cases rule: write_file_cases [of st p c s]) (auto simp: fs_content_def)
  assume "identity_file st q" "q \<noteq> p"
  then have "q \<noteq> tmp_path p" using p by (auto simp: identity_file_def store_wf_def)
  with \<open>q \<noteq> p\<close> show "fs_content (snd (write_file st p c s)) q = fs_content s q"
    by (cases rule: write_file_cases [of st p c s]) (auto simp: fs_content_def)
qed

lemma save_identity_put_all:
  "trim addr \<noteq> [] \<Longrightarrow> save_identity st cert ca addr s = put_all (write_file st)
     [(cert_path st, cert), (ca_path st, ca), (runtime_target_state_path st, trim addr)] s"
  by (auto simp: save_identity_def save_runtime_target_addr_def split: prod.splits sum.splits)

section \<open>Properties\<close>


lemma save_identity_effect:
  assumes "store_wf st" and "trim addr \<noteq> []"
    and "save_identity st cert ca addr s = (r, s')"
  shows "\<exists>k\<le>3::nat. (r = Inr () \<longleftrightarrow> k = 3)
    \<and> fs_content s' (cert_path st) = (if 1 \<le> k then Some cert else fs_content s (cert_path st))
    \<and> fs_content s' (ca_path st) = (if 2 \<le> k then Some ca else fs_content s (ca_path st))
    \<and> fs_content s' (runtime_target_state_path st) =
        (if k = 3 then Some (trim addr) else fs_content s (runtime_target_state_path st))
    \<and> fs_content s' (key_path st) = fs_content s (key_path st)"
proof -
  let ?xs = "[(cert_path st, cert), (ca_path st, ca), (runtime_target_state_path st, trim addr)]"
  have d: "distinct (store_paths st)" using assms(1) by (simp add: store_wf_def)
  have own: "identity_file st p \<longleftrightarrow> p \<in> set (store_paths st)" for p
    using assms(1) by (simp add: identity_file_def)
  have "distinct (map fst ?xs)" "\<forall>x\<in>set ?xs. identity_file st (fst x)" "put_all (write_file st) ?xs s = (r, s')"
    using d assms(2,3) by (simp_all add: save_identity_put_all own store_paths_def)
  from idf.put_all_prefix [OF this] obtain k where k: "k \<le> 3" "r = Inr () \<longleftrightarrow> k = 3"
      "\<forall>q. identity_file st q \<longrightarrow> fs_content s' q = after_puts ?xs k (fs_content s) q"
    by (metis One_nat_def Suc_eq_plus1 list.size(3,4) numeral_3_eq_3 plus_1_eq_Suc)
  let ?at = "\<lambda>p. fs_content s' p = after_puts ?xs k (fs_content s) p"
  have at: "?at (cert_path st)" "?at (ca_path st)" "?at (runtime_target_state_path st)" "?at (key_path st)"
    using k(3) by (simp_all only: own store_paths_def) simp_all
  have ne: "cert_path st \<noteq> ca_path st" "cert_path st \<noteq> runtime_target_state_path st"
      "ca_path st \<noteq> runtime_target_state_path st" "key_path st \<noteq> cert_path st" "key_path st \<noteq> ca_path st"
      "key_path st \<noteq> runtime_target_state_path st"
    using d by (auto simp: store_paths_def)
  consider "k = 0" | "k = 1" | "k = 2" | "k = 3" using k(1) by linarith
  then show ?thesis
    by cases (rule exI [of _ k], use k(2) at ne ne [symmetric] in \<open>simp add: after_puts_def numeral_eq_Suc\<close>)+
qed

text \<open>
  C9. Saving an enrollment: the certificate, the CA bundle and the runtime target are
  replaced in this order, up to the first that fails. What is replaced is new as a whole,
  the rest is as it was, the private key always; it returns Ok exactly when all three are
  replaced.
\<close>

theorem save_identity_in_order:
  assumes "store_wf st" and "trim addr \<noteq> []"
    and "save_identity st cert ca addr s = (r, s')"
  shows "\<exists>k\<le>3::nat. (r = Inr () \<longleftrightarrow> k = 3)
    \<and> fs_content s' (cert_path st) = (if 1 \<le> k then Some cert else fs_content s (cert_path st))
    \<and> fs_content s' (ca_path st) = (if 2 \<le> k then Some ca else fs_content s (ca_path st))
    \<and> fs_content s' (runtime_target_state_path st) =
        (if k = 3 then Some (trim addr) else fs_content s (runtime_target_state_path st))
    \<and> fs_content s' (key_path st) = fs_content s (key_path st)"
  using assms by (rule save_identity_effect)

definition demo_store :: IdentityStore where
  "demo_store = \<lparr>cert_path = [RootDir, Normal ''c''], key_path = [RootDir, Normal ''k''],
     ca_path = [RootDir, Normal ''a''], runtime_target_state_path = [RootDir, Normal ''t'']\<rparr>"

definition demo_fs :: fs where
  "demo_fs = \<lparr>fs_files = [[RootDir, Normal ''k''] \<mapsto> \<lparr>file_bytes = ''key'', file_mode = 0x180\<rparr>],
     fs_new_mode = 0x1A4, fs_faults = []\<rparr>"

definition demo_openssl :: "string openssl" where
  "demo_openssl = \<lparr>ec_group = Inr [], ec_generate = Inr, pkey_from_ec = Inr,
     pkey_to_pem = (\<lambda>o'. Inr ''PEM''), pkey_from_pem = Inr, name_new = Inr [],
     name_append_cn = (\<lambda>o' n. Inr (o' @ n)), req_new = Inr [], req_set_subject = (\<lambda>r n. Inr (r @ n)),
     req_set_pubkey = (\<lambda>r k. Inr (r @ k)), req_sign = (\<lambda>r k. Inr r), req_to_pem = Inr,
     x509_from_pem = (\<lambda>c. if c = [] then Inl [] else Inr c), x509_not_after = id, asn1_text = id, asn1_now = Inr [],
     asn1_compare = (\<lambda>a b. Inr Greater)\<rparr>"

lemma demo_store_wf [simp]: "store_wf demo_store"
  by (simp add: store_wf_def store_paths_def demo_store_def tmp_path_def text_simps)

theorem save_identity_in_order_witness:
  "\<exists>r s'. save_identity demo_store ''CERT'' ''CA'' '' h:1 '' (demo_fs\<lparr>fs_faults := replicate 5 None @ [Some (IoFault IoOther ''disk full'' (Some 1))]\<rparr>) = (r, s')
     \<and> fs_content s' (key_path demo_store) = Some ''key''"
proof -
  let ?s = "demo_fs\<lparr>fs_faults := replicate 5 None @ [Some (IoFault IoOther ''disk full'' (Some 1))]\<rparr>"
  obtain r s' where run: "save_identity demo_store ''CERT'' ''CA'' '' h:1 '' ?s = (r, s')"
    by (meson surj_pair)
  have "trim '' h:1 '' \<noteq> []" by (simp add: text_simps)
  from save_identity_in_order [OF demo_store_wf this run]
  have "fs_content s' (key_path demo_store) = fs_content ?s (key_path demo_store)" by blast
  with run show ?thesis by (simp add: fs_content_def demo_fs_def demo_store_def)
qed

lemma load_identity_no_fault:
  assumes "fs_faults s = []" and "fs_content s (cert_path st) = Some cert"
    and "fs_content s (key_path st) = Some key" and "fs_content s (ca_path st) = Some ca"
    and "fs_content s (runtime_target_state_path st) = Some t" and "utf8_valid t"
  shows "load_identity X st s = (Inr
    \<lparr>client_cert_pem = cert, client_key_pem = key, ca_bundle_pem = ca,
     cert_not_after = (case x509_from_pem X cert of
        Inr c \<Rightarrow> Some (asn1_text X (x509_not_after X c)) | Inl e \<Rightarrow> None),
     runtime_target_addr = (if trim t = [] then None else Some (trim t))\<rparr>, s)"
proof -
  obtain f1 f2 f3 f4 where "fs_files s (cert_path st) = Some f1" "file_bytes f1 = cert"
      "fs_files s (key_path st) = Some f2" "file_bytes f2 = key"
      "fs_files s (ca_path st) = Some f3" "file_bytes f3 = ca"
      "fs_files s (runtime_target_state_path st) = Some f4" "file_bytes f4 = t"
    using assms(2-5) by (auto simp: fs_content_def)
  with assms(1,6) show ?thesis
    by (simp add: load_identity_def load_runtime_target_addr_def fs_read_to_string_def fs_read_no_fault)
qed

lemma identity_save_load_effect:
  assumes "store_wf st" and "fs_faults s = []" and "trim addr \<noteq> []" and "utf8_valid (trim addr)"
    and "fs_content s (key_path st) = Some key"
  shows "\<exists>s' state. save_identity st cert ca addr s = (Inr (), s')
    \<and> load_identity X st s' = (Inr state, s')
    \<and> client_cert_pem state = cert \<and> client_key_pem state = key \<and> ca_bundle_pem state = ca
    \<and> runtime_target_addr state = Some (trim addr)
    \<and> (cert_not_after state = None \<longleftrightarrow> isl (x509_from_pem X cert))"
proof -
  obtain s' where save: "save_identity st cert ca addr s = (Inr (), s')" and nf: "fs_faults s' = []"
    using assms(2,3) by (simp add: save_identity_def save_runtime_target_addr_def write_file_no_fault)
  have k: "fs_content s' (cert_path st) = Some cert" "fs_content s' (ca_path st) = Some ca"
      "fs_content s' (runtime_target_state_path st) = Some (trim addr)" "fs_content s' (key_path st) = Some key"
    using save_identity_effect [OF assms(1,3) save] assms(5) by (auto split: if_splits)
  have "\<exists>state. load_identity X st s' = (Inr state, s') \<and> client_cert_pem state = cert
      \<and> client_key_pem state = key \<and> ca_bundle_pem state = ca
      \<and> runtime_target_addr state = Some (trim addr)
      \<and> (cert_not_after state = None \<longleftrightarrow> isl (x509_from_pem X cert))"
    using load_identity_no_fault [OF nf k(1,4,2,3) assms(4), of X] assms(3) by (auto split: sum.splits)
  with save show ?thesis by auto
qed

text \<open>
  C28. Round trip: without faults, loading after a successful save returns the saved
  certificate, CA bundle and trimmed runtime target, with the key that was there.
\<close>

theorem identity_save_load:
  assumes "store_wf st" and "fs_faults s = []" and "trim addr \<noteq> []" and "utf8_valid (trim addr)"
    and "fs_content s (key_path st) = Some key"
  shows "\<exists>s' state. save_identity st cert ca addr s = (Inr (), s')
    \<and> load_identity X st s' = (Inr state, s')
    \<and> client_cert_pem state = cert \<and> client_key_pem state = key \<and> ca_bundle_pem state = ca
    \<and> runtime_target_addr state = Some (trim addr)
    \<and> (cert_not_after state = None \<longleftrightarrow> isl (x509_from_pem X cert))"
  using assms by (rule identity_save_load_effect)

theorem identity_save_load_witness:
  "\<exists>s' state. save_identity demo_store ''CERT'' ''CA'' '' h:1 '' demo_fs = (Inr (), s')
     \<and> load_identity demo_openssl demo_store s' = (Inr state, s')
     \<and> client_key_pem state = ''key'' \<and> runtime_target_addr state = Some ''h:1''"
proof -
  have "trim '' h:1 '' = ''h:1''" by (simp add: text_simps)
  moreover have "utf8_valid ''h:1''" by simp
  moreover have "fs_content demo_fs (key_path demo_store) = Some ''key''"
    by (simp add: fs_content_def demo_fs_def demo_store_def)
  ultimately show ?thesis
    using identity_save_load [OF demo_store_wf, of demo_fs "'' h:1 ''" "''key''" "''CERT''" "''CA''" demo_openssl]
    by (auto simp: demo_fs_def)
qed

section \<open>The private key\<close>

lemma ensure_private_key_existing:
  assumes "fs_read (key_path st) s = (Inr k, s1)" and "k \<noteq> []"
  shows "ensure_private_key X st s = (Inr k, s1)"
  using assms by (simp add: ensure_private_key_def)

lemma fs_read_Inr: "fs_read p s = (Inr c, s1) \<Longrightarrow> fs_content s1 p = Some c"
  by (cases s rule: fs_next_cases) (auto simp: fs_read_def fs_content_def split: option.splits)

lemma ensure_private_key_stored:
  assumes "ensure_private_key X st s = (Inr k, s')"
  shows "fs_content s' (key_path st) = Some k"
proof -
  obtain r s1 where rd: "fs_read (key_path st) s = (r, s1)" by (meson surj_pair)
  show ?thesis
  proof (cases "case r of Inr c \<Rightarrow> c \<noteq> [] | Inl e \<Rightarrow> False")
    case True
    with rd assms show ?thesis
      by (auto simp: ensure_private_key_def dest: fs_read_Inr split: sum.splits)
  next
    case False
    then obtain pem where pem: "generate_key_pem X = Inr pem"
        and w: "(case write_file st (key_path st) pem s1 of (Inl e, s2) \<Rightarrow> (Inl e, s2) | (Inr _, s2) \<Rightarrow> (Inr pem, s2)) = (Inr k, s')"
      using rd assms by (auto simp: ensure_private_key_def split: sum.splits)
    from w show ?thesis
      by (cases rule: write_file_cases [of st "key_path st" pem s1]) (auto simp: fs_content_def)
  qed
qed

text \<open>
  C30. The key is stable: when \<open>ensure_private_key\<close> returns a key, the key file holds it; and
  as long as the file can be read, every further call returns the same key and writes
  nothing.
\<close>

theorem private_key_stable:
  assumes "ensure_private_key X st s = (Inr k, s1)" and "k \<noteq> []"
    and "fs_files s2 (key_path st) = fs_files s1 (key_path st)" and "fs_faults s2 = []"
  shows "fs_content s1 (key_path st) = Some k \<and> ensure_private_key Y st s2 = (Inr k, s2)"
proof -
  have k: "fs_content s1 (key_path st) = Some k" using assms(1) by (rule ensure_private_key_stored)
  then have "fs_read (key_path st) s2 = (Inr k, s2)"
    using assms(3,4) by (auto simp: fs_read_no_fault fs_content_def)
  with k assms(2) show ?thesis by (simp add: ensure_private_key_existing)
qed

theorem private_key_stable_witness:
  "\<exists>s1. ensure_private_key demo_openssl demo_store (demo_fs\<lparr>fs_files := Map.empty\<rparr>) = (Inr ''PEM'', s1)
     \<and> ensure_private_key demo_openssl demo_store s1 = (Inr ''PEM'', s1)"
proof -
  let ?s = "demo_fs\<lparr>fs_files := Map.empty\<rparr>"
  have "fst (ensure_private_key demo_openssl demo_store ?s) = Inr ''PEM''"
    "fs_faults (snd (ensure_private_key demo_openssl demo_store ?s)) = []"
    by (simp_all add: ensure_private_key_def fs_read_no_fault write_file_no_fault generate_key_pem_def
        demo_fs_def demo_openssl_def)
  then obtain s1 where s1: "ensure_private_key demo_openssl demo_store ?s = (Inr ''PEM'', s1)" "fs_faults s1 = []"
    by (metis prod.collapse)
  from private_key_stable [OF s1(1) _ refl s1(2)] s1(1) show ?thesis by auto
qed

text \<open>
  A key that cannot be read is replaced: when the read of the key file fails, for whatever
  reason and whatever the file holds, a new key is generated and takes the file's place, so
  a certificate issued for the old key no longer matches.
\<close>

lemma unreadable_key_replaced:
  assumes "fs_faults s = [Some f]" and "generate_key_pem X = Inr pem"
  shows "\<exists>s'. ensure_private_key X st s = (Inr pem, s') \<and> fs_content s' (key_path st) = Some pem
    \<and> (\<forall>q. fs_files s' q = (if q = key_path st then Some \<lparr>file_bytes = pem, file_mode = 0x180\<rparr>
         else if q = tmp_path (key_path st) then None else fs_files s q))"
proof -
  obtain k m n where f: "f = IoFault k m n" by (cases f)
  let ?s1 = "s\<lparr>fs_faults := []\<rparr>"
  have "fs_read (key_path st) s = (Inl (io_error k m), ?s1)"
    using assms(1) f by (simp add: fs_read_def fs_next_def)
  with assms(2) show ?thesis
    by (simp add: ensure_private_key_def write_file_no_fault fs_content_def write_mode_def)
qed

lemma unreadable_key_replaced_example:
  "\<exists>s'. ensure_private_key demo_openssl demo_store
         (demo_fs\<lparr>fs_faults := [Some (IoFault IoOther ''Input/output error'' None)]\<rparr>) = (Inr ''PEM'', s')
     \<and> fs_content demo_fs (key_path demo_store) = Some ''key''
     \<and> fs_content s' (key_path demo_store) = Some ''PEM''"
proof -
  have "generate_key_pem demo_openssl = Inr ''PEM''" by (simp add: generate_key_pem_def demo_openssl_def)
  from unreadable_key_replaced [OF _ this, of "demo_fs\<lparr>fs_faults := [Some (IoFault IoOther ''Input/output error'' None)]\<rparr>"
      "IoFault IoOther ''Input/output error'' None" demo_store]
  show ?thesis by (auto simp: fs_content_def demo_fs_def demo_store_def)
qed

text \<open>
  The key in the temporary file: between the write and the change of its permissions the
  new key stands in a file with the mode the umask gives new files, and it stays there when
  that change fails.
\<close>

lemma key_left_with_default_mode:
  assumes "fs_faults s = [None, None, Some f]" and "path_parent (key_path st) \<noteq> None"
    and "fs_files s (tmp_path (key_path st)) = None"
  shows "\<exists>e s'. write_file st (key_path st) pem s = (Inl e, s')
    \<and> fs_files s' (tmp_path (key_path st)) = Some \<lparr>file_bytes = pem, file_mode = fs_new_mode s\<rparr>"
proof -
  obtain k m n where f: "f = IoFault k m n" by (cases f)
  obtain d where "path_parent (key_path st) = Some d" using assms(2) by blast
  with assms(1,3) f show ?thesis
    by (simp add: write_file_def fs_create_dir_all_def fs_write_def fs_set_permissions_def fs_next_def
        put_bytes_def Let_def)
qed

lemma key_left_with_default_mode_example:
  "\<exists>e s'. write_file demo_store (key_path demo_store) ''PEM''
        (demo_fs\<lparr>fs_faults := [None, None, Some (IoFault IoPermissionDenied ''denied'' None)]\<rparr>) = (Inl e, s')
     \<and> fs_files s' [RootDir, Normal ''.k.tmp''] = Some \<lparr>file_bytes = ''PEM'', file_mode = 0x1A4\<rparr>"
proof -
  have "path_parent (key_path demo_store) \<noteq> None" "tmp_path (key_path demo_store) = [RootDir, Normal ''.k.tmp'']"
    by (simp_all add: demo_store_def tmp_path_def text_simps)
  then show ?thesis
    using key_left_with_default_mode [of "demo_fs\<lparr>fs_faults := [None, None, Some (IoFault IoPermissionDenied ''denied'' None)]\<rparr>"
        "IoFault IoPermissionDenied ''denied'' None" demo_store "''PEM''"]
    by (auto simp: demo_fs_def)
qed

end
