(* ===== verification/Bootstrap.thy ===== *)
theory Bootstrap
  imports Identity_Safety
begin

text \<open>
  Enrollment and the channels (\<open>src/src/agent/bootstrap.rs\<close>): endpoints, server names, the
  plaintext or TLS channel of the bootstrap call, the mTLS channel of everything after it,
  and the classification of errors. tonic's transport is a parameter (\<open>net\<close>); a channel is
  the description of what was dialled.
\<close>

section \<open>Channels\<close>

record tls =
  tls_domain :: string
  tls_ca :: string
  tls_identity :: "(string \<times> string) option"

record channel =
  ch_uri :: string
  ch_connect_timeout :: duration
  ch_tls :: "tls option"

record BootstrapEnrollAgentRequest =
  br_bootstrap_token :: string
  br_requested_agent_id :: string
  br_csr_pem :: string
  br_hostname :: string

record BootstrapEnrollAgentResponse =
  bs_agent_id :: string
  bs_client_cert_pem :: string
  bs_ca_cert_pem :: string
  bs_runtime_target_addr :: string

text \<open>
  \<open>Endpoint::from_shared\<close>, \<open>tls_config\<close>, \<open>connect\<close> and the enrollment RPC, at the moment they
  are called.
\<close>

record net =
  endpoint_from_shared :: "string \<Rightarrow> error + unit"
  endpoint_tls_config :: "tls \<Rightarrow> error + unit"
  endpoint_connect :: "channel \<Rightarrow> error + unit"
  rpc_bootstrap_enroll ::
    "channel \<Rightarrow> BootstrapEnrollAgentRequest \<Rightarrow> error + BootstrapEnrollAgentResponse"

section \<open>Addresses\<close>

definition normalize_bootstrap_endpoint :: "string \<Rightarrow> error + string" where
  "normalize_bootstrap_endpoint raw =
     (let trimmed = trim raw in
      if trimmed = [] then Inl (anyhow ''AGENT_BOOTSTRAP_TARGET_ADDR must not be empty'')
      else if starts_with ''https://'' trimmed \<or> starts_with ''http://'' trimmed then Inr trimmed
      else Inr (''http://'' @ trimmed))"

definition normalize_mtls_endpoint :: "string \<Rightarrow> string" where
  "normalize_mtls_endpoint raw =
     (let trimmed = trim raw in
      if starts_with ''https://'' trimmed then trimmed
      else if starts_with ''http://'' trimmed
      then ''https://'' @ trim_start_matches ''http://'' trimmed
      else ''https://'' @ trimmed)"

definition server_name_for_target :: "AgentConfig \<Rightarrow> string \<Rightarrow> string" where
  "server_name_for_target config target_addr =
     (let name = trim (ac_server_name config) in
      if name \<noteq> [] then name
      else let raw = trim target_addr;
               without_scheme = (case strip_prefix ''https://'' raw of Some r \<Rightarrow> r
                 | None \<Rightarrow> (case strip_prefix ''http://'' raw of Some r \<Rightarrow> r | None \<Rightarrow> raw));
               host_port = split_first CHR ''/'' without_scheme
           in (case split_once CHR '':'' host_port of Some (host, _) \<Rightarrow> host | None \<Rightarrow> host_port))"

section \<open>Building channels\<close>

definition build_mtls_channel_for_target ::
  "net \<Rightarrow> AgentConfig \<Rightarrow> string \<Rightarrow> AgentIdentityState \<Rightarrow> error + channel" where
  "build_mtls_channel_for_target N config target_addr identity =
     (let target = normalize_mtls_endpoint target_addr in
      try_bind (with_context ''build hypervisor mTLS endpoint'' (endpoint_from_shared N target)) (\<lambda>_.
      if ca_bundle_pem identity = []
      then Inl (anyhow ''missing CA bundle for mTLS controlplane/dataplane connection'')
      else if client_cert_pem identity = [] \<or> client_key_pem identity = []
      then Inl (anyhow ''missing client certificate or private key for mTLS controlplane/dataplane connection'')
      else let tls = \<lparr>tls_domain = server_name_for_target config target_addr,
                 tls_ca = ca_bundle_pem identity,
                 tls_identity = Some (client_cert_pem identity, client_key_pem identity)\<rparr>;
               ch = \<lparr>ch_uri = target, ch_connect_timeout = ac_connect_timeout config, ch_tls = Some tls\<rparr> in
      try_bind (endpoint_tls_config N tls) (\<lambda>_.
      try_bind (endpoint_connect N ch) (\<lambda>_. Inr ch))))"

definition build_mtls_channel_for_controlplane ::
  "net \<Rightarrow> AgentConfig \<Rightarrow> AgentIdentityState \<Rightarrow> error + channel" where
  "build_mtls_channel_for_controlplane N config identity =
     (let nonblank = (\<lambda>v. if trim v = [] then None else Some (trim v));
          target = (case Option.bind (runtime_target_addr identity) nonblank of
             Some t \<Rightarrow> t
           | None \<Rightarrow> (case nonblank (ac_runtime_target_addr config) of
                Some t \<Rightarrow> t
              | None \<Rightarrow> ac_bootstrap_target_addr config))
      in build_mtls_channel_for_target N config target identity)"

definition build_bootstrap_channel ::
  "net \<Rightarrow> AgentConfig \<Rightarrow> fs \<Rightarrow> (error + channel) \<times> fs" where
  "build_bootstrap_channel N config s =
     (case normalize_bootstrap_endpoint (ac_bootstrap_target_addr config) of
        Inl e \<Rightarrow> (Inl e, s)
      | Inr target \<Rightarrow>
     (case with_context ''build hypervisor bootstrap endpoint'' (endpoint_from_shared N target) of
        Inl e \<Rightarrow> (Inl e, s)
      | Inr _ \<Rightarrow>
          if starts_with ''http://'' target
          then let ch = \<lparr>ch_uri = target, ch_connect_timeout = ac_connect_timeout config, ch_tls = None\<rparr>
               in (try_bind (endpoint_connect N ch) (\<lambda>_. Inr ch), s)
          else let domain = server_name_for_target config (ac_bootstrap_target_addr config) in
          (case fs_read (path_of (ac_ca_path config)) s of
             (Inl e, s1) \<Rightarrow> (Inl (context_err (''read ca bundle '' @ ac_ca_path config) e), s1)
           | (Inr ca_pem, s1) \<Rightarrow>
               (let tls = \<lparr>tls_domain = domain, tls_ca = ca_pem, tls_identity = None\<rparr>;
                    ch = \<lparr>ch_uri = target, ch_connect_timeout = ac_connect_timeout config,
                          ch_tls = Some tls\<rparr>
                in (try_bind (endpoint_tls_config N tls) (\<lambda>_.
                    try_bind (endpoint_connect N ch) (\<lambda>_. Inr ch)), s1)))))"

section \<open>Enrollment\<close>

definition bootstrap_enroll ::
  "'o openssl \<Rightarrow> net \<Rightarrow> AgentConfig \<Rightarrow> IdentityStore \<Rightarrow> HostFacts \<Rightarrow> fs
     \<Rightarrow> (error + AgentIdentityState) \<times> fs" where
  "bootstrap_enroll X N config st facts s =
     (if trim (ac_bootstrap_token config) = []
      then (Inl (anyhow ''bootstrap token is required until the first enrollment succeeds''), s)
      else case ensure_private_key X st s of
        (Inl e, s1) \<Rightarrow> (Inl e, s1)
      | (Inr private_key, s1) \<Rightarrow>
     (case with_context ''generate bootstrap csr''
         (generate_csr X private_key (''vm-agent:'' @ agent_id facts)) of
        Inl e \<Rightarrow> (Inl e, s1)
      | Inr csr_pem \<Rightarrow>
     (case build_bootstrap_channel N config s1 of
        (Inl e, s2) \<Rightarrow> (Inl e, s2)
      | (Inr ch, s2) \<Rightarrow>
     (case with_context ''bootstrap enroll agent'' (rpc_bootstrap_enroll N ch
         \<lparr>br_bootstrap_token = ac_bootstrap_token config, br_requested_agent_id = agent_id facts,
          br_csr_pem = csr_pem, br_hostname = hostname facts\<rparr>) of
        Inl e \<Rightarrow> (Inl e, s2)
      | Inr response \<Rightarrow>
          if trim (bs_agent_id response) = []
          then (Inl (anyhow ''bootstrap enrollment returned empty agent id''), s2)
          else if trim (bs_runtime_target_addr response) = []
          then (Inl (anyhow ''bootstrap enrollment returned empty runtime target addr''), s2)
          else
     (case save_identity st (bs_client_cert_pem response) (bs_ca_cert_pem response)
         (bs_runtime_target_addr response) s2 of
        (Inl e, s3) \<Rightarrow> (Inl (context_err ''persist bootstrap enrollment'' e), s3)
      | (Inr _, s3) \<Rightarrow>
     (case load_identity X st s3 of
        (r, s4) \<Rightarrow> (with_context ''reload enrolled identity'' r, s4)))))))"

definition ensure_identity ::
  "'o openssl \<Rightarrow> net \<Rightarrow> AgentConfig \<Rightarrow> IdentityStore \<Rightarrow> HostFacts \<Rightarrow> fs
     \<Rightarrow> (error + AgentIdentityState) \<times> fs" where
  "ensure_identity X N config st facts s =
     (case has_usable_client_certificate X st s of
        (True, s1) \<Rightarrow> load_identity X st s1
      | (False, s1) \<Rightarrow> bootstrap_enroll X N config st facts s1)"

section \<open>Classifying errors\<close>

fun grpc_status_in_chain :: "error \<Rightarrow> grpc_code option" where
  "grpc_status_in_chain [] = None"
| "grpc_status_in_chain (Status code m # e) = Some code"
| "grpc_status_in_chain (c # e) = grpc_status_in_chain e"

definition is_fatal_bootstrap_error :: "error \<Rightarrow> bool" where
  "is_fatal_bootstrap_error err =
     (case grpc_status_in_chain err of
        Some code \<Rightarrow> code = Unauthenticated \<or> code = InvalidArgument | None \<Rightarrow> False)"

definition is_auth_failure :: "error \<Rightarrow> bool" where
  "is_auth_failure err =
     (case grpc_status_in_chain err of
        Some code \<Rightarrow> code = Unauthenticated \<or> code = PermissionDenied | None \<Rightarrow> False)"

lemma grpc_status_context [simp]: "grpc_status_in_chain (context_err m e) = grpc_status_in_chain e"
  by (simp add: context_err_def)

section \<open>Lemmas\<close>

lemma grpc_status_messages [simp]:
  "grpc_status_in_chain (map Msg ms @ e) = grpc_status_in_chain e"
  by (induction ms) simp_all

lemma normalize_mtls_https: "starts_with ''https://'' (normalize_mtls_endpoint raw)"
proof -
  have "starts_with ''https://'' (''https://'' @ r)" for r by (rule starts_with_append)
  then show ?thesis by (simp add: normalize_mtls_endpoint_def Let_def)
qed

lemma build_mtls_Inr:
  assumes "build_mtls_channel_for_target N c target i = Inr ch"
  shows "ch = \<lparr>ch_uri = normalize_mtls_endpoint target, ch_connect_timeout = ac_connect_timeout c,
      ch_tls = Some \<lparr>tls_domain = server_name_for_target c target, tls_ca = ca_bundle_pem i,
         tls_identity = Some (client_cert_pem i, client_key_pem i)\<rparr>\<rparr>
    \<and> ca_bundle_pem i \<noteq> [] \<and> client_cert_pem i \<noteq> [] \<and> client_key_pem i \<noteq> []"
  using assms by (auto simp: build_mtls_channel_for_target_def Let_def split: if_splits)

lemma read_only:
  "fs_files (snd (fs_read p s)) = fs_files s"
  "fs_files (snd (load_runtime_target_addr st s)) = fs_files s"
  "fs_files (snd (load_identity X st s)) = fs_files s"
  "fs_files (snd (has_usable_client_certificate X st s)) = fs_files s"
  "fs_files (snd (build_bootstrap_channel N c s)) = fs_files s"
proof -
  show rd: "fs_files (snd (fs_read p s)) = fs_files s" for p s
    using fs_read_files [of p s] by (cases "fs_read p s") simp
  have rds: "fs_read p s = (r, s1) \<Longrightarrow> fs_files s1 = fs_files s" for p s r s1
    by (rule fs_read_files)
  show lt: "fs_files (snd (load_runtime_target_addr st s)) = fs_files s" for s
    using rd [of "runtime_target_state_path st" s]
    by (auto simp: load_runtime_target_addr_def fs_read_to_string_def split: prod.splits sum.splits)
  have lts: "load_runtime_target_addr st s = (r, s1) \<Longrightarrow> fs_files s1 = fs_files s" for s r s1
    using lt [of s] by simp
  show li: "fs_files (snd (load_identity X st s)) = fs_files s"
    by (auto simp: load_identity_def dest!: rds lts split: prod.splits sum.splits)
  then show "fs_files (snd (has_usable_client_certificate X st s)) = fs_files s"
    by (auto simp: has_usable_client_certificate_def split: prod.splits sum.splits)
  show "fs_files (snd (build_bootstrap_channel N c s)) = fs_files s"
    by (auto simp: build_bootstrap_channel_def Let_def dest!: rds split: prod.splits sum.splits)
qed

text \<open>Without faults, what only reads leaves the whole file system as it is.\<close>

lemma read_only_no_fault:
  assumes "fs_faults s = []"
  shows "snd (load_identity X st s) = s" and "snd (has_usable_client_certificate X st s) = s"
    and "snd (build_bootstrap_channel N c s) = s"
proof -
  show li: "snd (load_identity X st s) = s"
    using assms by (auto simp: load_identity_def load_runtime_target_addr_def fs_read_to_string_def
        fs_read_no_fault split: sum.splits option.splits)
  then show "snd (has_usable_client_certificate X st s) = s"
    by (auto simp: has_usable_client_certificate_def split: prod.splits sum.splits)
  show "snd (build_bootstrap_channel N c s) = s"
    using assms by (auto simp: build_bootstrap_channel_def fs_read_no_fault Let_def split: sum.splits option.splits)
qed

text \<open>Generating the key touches no file but the key's and its temporary one.\<close>

lemma ensure_private_key_frame:
  assumes "q \<noteq> key_path st" and "q \<noteq> tmp_path (key_path st)"
  shows "fs_files (snd (ensure_private_key X st s)) q = fs_files s q"
proof -
  obtain r s1 where rd: "fs_read (key_path st) s = (r, s1)" by (meson surj_pair)
  then have s1: "fs_files s1 = fs_files s" by (rule fs_read_files)
  have "fs_files (snd (write_file st (key_path st) pem s1)) q = fs_files s q" for pem
    using assms s1 by (cases rule: write_file_cases [of st "key_path st" pem s1]) auto
  with rd s1 show ?thesis
    by (auto simp: ensure_private_key_def split: prod.splits sum.splits) (metis snd_conv)+
qed

section \<open>Properties\<close>


definition demo_net :: net where
  "demo_net = \<lparr>endpoint_from_shared = (\<lambda>u. Inr ()), endpoint_tls_config = (\<lambda>t. Inr ()),
     endpoint_connect = (\<lambda>c. Inr ()),
     rpc_bootstrap_enroll = (\<lambda>ch rq. Inr \<lparr>bs_agent_id = ''a'', bs_client_cert_pem = ''CERT'',
        bs_ca_cert_pem = ''CA'', bs_runtime_target_addr = ''dp:1''\<rparr>)\<rparr>"

definition demo_agent :: AgentConfig where
  "demo_agent = \<lparr>ac_enabled = True, ac_bootstrap_target_addr = ''HTTPS://cp:9443'',
     ac_runtime_target_addr = ''http://cp:1'', ac_runtime_target_state_path = ''/t'', ac_server_name = [],
     ac_ca_path = ''/a'', ac_cert_path = ''/c'', ac_key_path = ''/k'', ac_bootstrap_token = ''tok'',
     ac_heartbeat_interval = from_secs 10, ac_telemetry_interval = from_secs 15,
     ac_connect_timeout = from_secs 3, ac_failover_base_backoff = from_millis 200,
     ac_failover_max_backoff = from_millis 3000, ac_version = ''0.1.0'', ac_command_ledger_path = ''/l''\<rparr>"

definition demo_identity :: AgentIdentityState where
  "demo_identity = \<lparr>client_cert_pem = ''CERT'', client_key_pem = ''KEY'', ca_bundle_pem = ''CA'',
     cert_not_after = None, runtime_target_addr = None\<rparr>"


lemma build_bootstrap_Inr:
  assumes "build_bootstrap_channel N c s = (Inr ch, s')"
  shows "ch_connect_timeout ch = ac_connect_timeout c
    \<and> (if starts_with ''https://'' (trim (ac_bootstrap_target_addr c))
       then ch_uri ch = trim (ac_bootstrap_target_addr c)
         \<and> (\<exists>ca. fs_read (path_of (ac_ca_path c)) s = (Inr ca, s')
             \<and> ch_tls ch = Some \<lparr>tls_domain = server_name_for_target c (ac_bootstrap_target_addr c),
                  tls_ca = ca, tls_identity = None\<rparr>)
       else ch_tls ch = None \<and> s' = s
         \<and> (if starts_with ''http://'' (trim (ac_bootstrap_target_addr c))
             then ch_uri ch = trim (ac_bootstrap_target_addr c)
             else ch_uri ch = ''http://'' @ trim (ac_bootstrap_target_addr c)))"
proof -
  have sw: "starts_with ''http://'' (''http://'' @ x)" "\<not> (starts_with ''http://'' y \<and> starts_with ''https://'' y)"
    for x y by (auto simp: starts_with_iff)
  show ?thesis
    using assms sw [of "trim (ac_bootstrap_target_addr c)"]
    by (auto simp: build_bootstrap_channel_def normalize_bootstrap_endpoint_def Let_def
        split: prod.splits sum.splits if_splits)
qed



section \<open>Properties of the enrollment\<close>

lemma bootstrap_enroll_Inr:
  assumes "bootstrap_enroll X N c st facts s = (Inr state, s')"
  obtains key s1 csr ch s2 resp s3 where
    "ensure_private_key X st s = (Inr key, s1)"
    "generate_csr X key (''vm-agent:'' @ agent_id facts) = Inr csr"
    "build_bootstrap_channel N c s1 = (Inr ch, s2)"
    "rpc_bootstrap_enroll N ch \<lparr>br_bootstrap_token = ac_bootstrap_token c,
       br_requested_agent_id = agent_id facts, br_csr_pem = csr, br_hostname = hostname facts\<rparr> = Inr resp"
    "trim (bs_runtime_target_addr resp) \<noteq> []" "trim (bs_agent_id resp) \<noteq> []"
    "save_identity st (bs_client_cert_pem resp) (bs_ca_cert_pem resp) (bs_runtime_target_addr resp) s2 = (Inr (), s3)"
    "load_identity X st s3 = (Inr state, s')"
  using assms
  by (auto simp: bootstrap_enroll_def with_context_def split: prod.splits sum.splits if_splits)

lemma ensure_private_key_no_fault:
  assumes "fs_faults s = []" and "ensure_private_key X st s = (r, s1)"
  shows "fs_faults s1 = []"
  using assms
  by (auto simp: ensure_private_key_def fs_read_no_fault write_file_no_fault
      split: option.splits sum.splits if_splits)

text \<open>The server's text fields are strings, so valid UTF-8.\<close>

definition net_text :: "net \<Rightarrow> bool" where
  "net_text N \<longleftrightarrow> (\<forall>ch rq resp. rpc_bootstrap_enroll N ch rq = Inr resp \<longrightarrow>
     utf8_valid (trim (bs_runtime_target_addr resp)))"

text \<open>
  C8. Enrollment: without file faults, the identity it returns is the certificate, the CA
  and the trimmed runtime target the server sent for a request with the configured token
  and a CSR of the key the identity holds. While the certificate is usable,
  \<open>ensure_identity\<close> returns this identity again without asking the server, whichever it is.
\<close>

theorem enrolled_identity:
  assumes "bootstrap_enroll X N c st facts s = (Inr state, s')"
    and "store_wf st" and "fs_faults s = []" and "net_text N"
  shows "\<exists>csr ch resp. generate_csr X (client_key_pem state) (''vm-agent:'' @ agent_id facts) = Inr csr
    \<and> rpc_bootstrap_enroll N ch \<lparr>br_bootstrap_token = ac_bootstrap_token c,
         br_requested_agent_id = agent_id facts, br_csr_pem = csr, br_hostname = hostname facts\<rparr> = Inr resp
    \<and> client_cert_pem state = bs_client_cert_pem resp \<and> ca_bundle_pem state = bs_ca_cert_pem resp
    \<and> runtime_target_addr state = Some (trim (bs_runtime_target_addr resp))
    \<and> (certificate_usable X state \<longrightarrow> (\<forall>N' c' facts'. ensure_identity X N' c' st facts' s' = (Inr state, s')))"
  using assms(1)
proof (cases rule: bootstrap_enroll_Inr)
  case (1 key s1 csr ch s2 resp s3)
  have nf1: "fs_faults s1 = []" using ensure_private_key_no_fault [OF assms(3) 1(1)] .
  have s2: "s2 = s1" using read_only_no_fault(3) [OF nf1, of N c] 1(3) by simp
  have "fs_content s1 (key_path st) = Some key" using 1(1) by (rule ensure_private_key_stored)
  moreover have "utf8_valid (trim (bs_runtime_target_addr resp))"
    using assms(4) 1(4) by (auto simp: net_text_def)
  ultimately have loaded: "client_cert_pem state = bs_client_cert_pem resp" "client_key_pem state = key"
      "ca_bundle_pem state = bs_ca_cert_pem resp"
      "runtime_target_addr state = Some (trim (bs_runtime_target_addr resp))"
    using identity_save_load_effect [OF assms(2) nf1 1(5), of key "bs_client_cert_pem resp" "bs_ca_cert_pem resp" X]
      1(7,8) s2 by auto
  have nf3: "fs_faults s3 = []"
    using 1(7) nf1 s2 1(5) by (auto simp: save_identity_def save_runtime_target_addr_def write_file_no_fault)
  have s': "s' = s3" using read_only_no_fault(1) [OF nf3, of X st] 1(8) by simp
  have "ensure_identity X N' c' st facts' s' = (Inr state, s')" if "certificate_usable X state" for N' c' facts'
    using 1(8) s' that by (simp add: ensure_identity_def has_usable_client_certificate_def)
  with loaded 1(2,4) show ?thesis by blast
qed

lemma demo_enroll:
  "\<exists>state s'. bootstrap_enroll demo_openssl demo_net demo_agent demo_store demo_facts demo_fs = (Inr state, s')
     \<and> certificate_usable demo_openssl state"
proof -
  have a: "trim ''dp:1'' = ''dp:1''" "utf8_valid ''dp:1''" "trim ''a'' \<noteq> []" "trim ''tok'' \<noteq> []"
      "trim (ac_bootstrap_target_addr demo_agent) = ''HTTPS://cp:9443''"
    by (simp_all add: demo_agent_def text_simps)
  have key: "ensure_private_key demo_openssl demo_store demo_fs = (Inr ''key'', demo_fs)"
    by (simp add: ensure_private_key_def fs_read_no_fault demo_fs_def demo_store_def)
  have csr: "\<exists>csr. generate_csr demo_openssl ''key'' (''vm-agent:'' @ agent_id demo_facts) = Inr csr"
    by (simp add: generate_csr_def demo_openssl_def demo_facts_def)
  have ch: "\<exists>ch. build_bootstrap_channel demo_net demo_agent demo_fs = (Inr ch, demo_fs)"
    using a by (simp add: build_bootstrap_channel_def normalize_bootstrap_endpoint_def demo_net_def starts_with_def)
  have nf: "fs_faults demo_fs = []" "fs_content demo_fs (key_path demo_store) = Some ''key''"
    by (simp_all add: demo_fs_def demo_store_def fs_content_def)
  have ne: "trim ''dp:1'' \<noteq> []" "utf8_valid (trim ''dp:1'')" using a by simp_all
  obtain s' state where s': "save_identity demo_store ''CERT'' ''CA'' ''dp:1'' demo_fs = (Inr (), s')"
      "load_identity demo_openssl demo_store s' = (Inr state, s')" "client_cert_pem state = ''CERT''"
      "client_key_pem state = ''key''" "ca_bundle_pem state = ''CA''"
    using identity_save_load_effect [OF demo_store_wf nf(1) ne nf(2), of "''CERT''" "''CA''" demo_openssl]
    by blast
  have "certificate_usable demo_openssl state"
    using s'(3-5) by (simp add: certificate_usable_def demo_openssl_def)
  moreover have "ac_bootstrap_token demo_agent = ''tok''" by (simp add: demo_agent_def)
  ultimately show ?thesis
    using key csr ch s' a by (auto simp: bootstrap_enroll_def demo_net_def)
qed

theorem enrolled_identity_witness:
  "\<exists>state s'. bootstrap_enroll demo_openssl demo_net demo_agent demo_store demo_facts demo_fs = (Inr state, s')
     \<and> client_cert_pem state = ''CERT''
     \<and> ensure_identity demo_openssl demo_net demo_agent demo_store demo_facts s' = (Inr state, s')"
proof -
  obtain state s' where run: "bootstrap_enroll demo_openssl demo_net demo_agent demo_store demo_facts demo_fs = (Inr state, s')"
      "certificate_usable demo_openssl state" using demo_enroll by blast
  have "utf8_valid (trim ''dp:1'')" by (simp add: text_simps)
  then have net: "net_text demo_net" by (simp add: net_text_def demo_net_def)
  have "fs_faults demo_fs = []" by (simp add: demo_fs_def)
  from enrolled_identity [OF run(1) demo_store_wf this net] run
  have "client_cert_pem state = ''CERT''"
      "ensure_identity demo_openssl demo_net demo_agent demo_store demo_facts s' = (Inr state, s')"
    by (auto simp: demo_net_def)
  with run(1) show ?thesis by blast
qed

text \<open>A server that answers no enrollment with a complete identity.\<close>

definition refuses :: "net \<Rightarrow> bool" where
  "refuses N \<longleftrightarrow> (\<forall>ch rq resp. rpc_bootstrap_enroll N ch rq = Inr resp \<longrightarrow>
     trim (bs_agent_id resp) = [] \<or> trim (bs_runtime_target_addr resp) = [])"

lemma bootstrap_enroll_refused:
  assumes "refuses N" and "bootstrap_enroll X N c st facts s = (r, s')"
  shows "(\<exists>e. r = Inl e) \<and> (fs_files s' = fs_files s
    \<or> fs_files s' = fs_files (snd (ensure_private_key X st s)))"
proof (cases "trim (ac_bootstrap_token c) = []")
  case True
  with assms(2) show ?thesis by (auto simp: bootstrap_enroll_def)
next
  case False
  obtain k s1 where k: "ensure_private_key X st s = (k, s1)" by (meson surj_pair)
  obtain b s2 where b: "build_bootstrap_channel N c s1 = (b, s2)" by (meson surj_pair)
  have s2: "fs_files s2 = fs_files s1" using read_only(5) [of N c s1] b by simp
  have blank: "rpc_bootstrap_enroll N ch rq = Inr resp \<Longrightarrow>
      trim (bs_agent_id resp) \<noteq> [] \<Longrightarrow> trim (bs_runtime_target_addr resp) = []" for ch rq resp
    using assms(1) by (auto simp: refuses_def)
  show ?thesis
    using assms(2) False k b s2
    by (auto simp: bootstrap_enroll_def with_context_def dest: blank split: sum.splits if_splits)
qed


definition refusing_net :: net where
  "refusing_net = demo_net\<lparr>rpc_bootstrap_enroll := (\<lambda>ch rq. Inl [Status Unauthenticated ''bad token''])\<rparr>"


text \<open>
  How a refused enrollment is classified: when the RPC fails with a gRPC status, below
  any number of messages, the error of \<open>bootstrap_enroll\<close> is fatal exactly for
  \<open>Unauthenticated\<close> and \<open>InvalidArgument\<close>, and an authorisation failure exactly for
  \<open>Unauthenticated\<close> and \<open>PermissionDenied\<close>.
\<close>

lemma refused_enrollment_classified:
  assumes "trim (ac_bootstrap_token c) \<noteq> []"
    and "ensure_private_key X st s = (Inr key, s1)"
    and "generate_csr X key (''vm-agent:'' @ agent_id facts) = Inr csr"
    and "build_bootstrap_channel N c s1 = (Inr ch, s2)"
    and "rpc_bootstrap_enroll N ch \<lparr>br_bootstrap_token = ac_bootstrap_token c,
       br_requested_agent_id = agent_id facts, br_csr_pem = csr, br_hostname = hostname facts\<rparr>
       = Inl (map Msg ms @ Status code m # rest)"
  shows "\<exists>e. bootstrap_enroll X N c st facts s = (Inl e, s2)
    \<and> (is_fatal_bootstrap_error e \<longleftrightarrow> code = Unauthenticated \<or> code = InvalidArgument)
    \<and> (is_auth_failure e \<longleftrightarrow> code = Unauthenticated \<or> code = PermissionDenied)"
  using assms
  by (simp add: bootstrap_enroll_def is_fatal_bootstrap_error_def is_auth_failure_def)

lemma refused_enrollment_classified_example:
  "\<exists>e. bootstrap_enroll demo_openssl refusing_net demo_agent demo_store demo_facts demo_fs = (Inl e, demo_fs)
     \<and> is_fatal_bootstrap_error e \<and> is_auth_failure e"
proof -
  have tok: "trim (ac_bootstrap_token demo_agent) \<noteq> []" "trim (ac_bootstrap_target_addr demo_agent) = ''HTTPS://cp:9443''"
    by (simp_all add: demo_agent_def text_simps)
  have key: "ensure_private_key demo_openssl demo_store demo_fs = (Inr ''key'', demo_fs)"
    by (simp add: ensure_private_key_def fs_read_no_fault demo_fs_def demo_store_def)
  obtain csr where csr: "generate_csr demo_openssl ''key'' (''vm-agent:'' @ agent_id demo_facts) = Inr csr"
    by (simp add: generate_csr_def demo_openssl_def demo_facts_def)
  obtain ch where ch: "build_bootstrap_channel refusing_net demo_agent demo_fs = (Inr ch, demo_fs)"
    using tok by (simp add: build_bootstrap_channel_def normalize_bootstrap_endpoint_def demo_net_def
        refusing_net_def starts_with_def)
  show ?thesis
    using refused_enrollment_classified [OF tok(1) key csr ch, of "[]" Unauthenticated "''bad token''" "[]"]
    by (auto simp: refusing_net_def)
qed

end
