(* ===== verification/Assignment.thy ===== *)
theory Assignment
  imports Bootstrap
begin

text \<open>
  The runtime assignment (\<open>resolve_assignment\<close> in \<open>src/src/agent/registry.rs\<close>): the control
  plane names the candidates of the runtime stream, how long the answer holds and when to
  ask again.
\<close>

record AssignmentCache =
  preferred_dp_id :: string
  preferred_target :: string
  candidates :: "string list"
  assignment_epoch :: int
  refresh_after :: duration
  expires_at :: system_time

record ResolveRuntimeAssignmentRequest =
  rr_agent_id :: string
  rr_host_id :: string
  rr_zone_id :: string
  rr_last_assignment_epoch :: int
  rr_current_dp_id :: string

record DataplaneCandidate =
  dc_dp_id :: string
  dc_grpc_addr :: string
  dc_weight :: int

record ResolveRuntimeAssignmentResponse =
  rs_preferred_dp_id :: string
  rs_preferred_dp_addr :: string
  rs_candidate_dps :: "DataplaneCandidate list"
  rs_assignment_epoch :: int
  rs_refresh_after_sec :: int

text \<open>
  What the control plane and the data plane answer at one moment: the transport, the
  assignment RPC and the opening of the control stream.
\<close>

record plane =
  pl_net :: net
  pl_resolve :: "channel \<Rightarrow> ResolveRuntimeAssignmentRequest \<Rightarrow> error + ResolveRuntimeAssignmentResponse"
  pl_control_stream :: "channel \<Rightarrow> error + unit"

text \<open>The loop over \<open>candidate_dps\<close>.\<close>

fun push_candidates :: "DataplaneCandidate list \<Rightarrow> string list \<Rightarrow> string list" where
  "push_candidates [] acc = acc"
| "push_candidates (item # items) acc =
     (if trim (dc_grpc_addr item) = [] then push_candidates items acc
      else push_candidates items (acc @ [trim (dc_grpc_addr item)]))"

definition assignment_candidates :: "ResolveRuntimeAssignmentResponse \<Rightarrow> string list" where
  "assignment_candidates response =
     (let cs = push_candidates (rs_candidate_dps response) [] in
      if cs = [] \<and> trim (rs_preferred_dp_addr response) \<noteq> []
      then [trim (rs_preferred_dp_addr response)] else cs)"

text \<open>\<open>checks\<close> says whether the build checks integer overflow.\<close>

definition resolve_assignment ::
  "bool \<Rightarrow> plane \<Rightarrow> AppConfig \<Rightarrow> AgentIdentityState \<Rightarrow> HostFacts \<Rightarrow> AssignmentCache option
     \<Rightarrow> system_time \<Rightarrow> (error + AssignmentCache) exec" where
  "resolve_assignment checks P config identity facts current now =
     (case build_mtls_channel_for_controlplane (pl_net P) (cfg_agent config) identity of
        Inl e \<Rightarrow> Done (Inl e)
      | Inr ch \<Rightarrow>
     (case pl_resolve P ch
         \<lparr>rr_agent_id = agent_id facts, rr_host_id = host_id facts,
          rr_zone_id = app_zone_id (cfg_app config),
          rr_last_assignment_epoch = (case current of None \<Rightarrow> 0 | Some c \<Rightarrow> assignment_epoch c),
          rr_current_dp_id = (case current of None \<Rightarrow> [] | Some c \<Rightarrow> preferred_dp_id c)\<rparr> of
        Inl e \<Rightarrow> Done (Inl e)
      | Inr response \<Rightarrow>
          (let cs = assignment_candidates response;
               secs = max (rs_refresh_after_sec response) 5 in
           if cs = [] then Done (Inl (anyhow ''runtime assignment returned no dataplane candidates''))
           else exec_bind (i64_mul checks secs 2) (\<lambda>twice.
                exec_bind (systime_add now (from_secs (i64_as_u64 twice))) (\<lambda>expires.
                Done (Inr \<lparr>preferred_dp_id = rs_preferred_dp_id response,
                   preferred_target = rs_preferred_dp_addr response, candidates = cs,
                   assignment_epoch = rs_assignment_epoch response,
                   refresh_after = from_secs (i64_as_u64 secs), expires_at = expires\<rparr>))))))"

lemma push_candidates_eq:
  "push_candidates items acc = acc @ filter (\<lambda>a. a \<noteq> []) (map (\<lambda>c. trim (dc_grpc_addr c)) items)"
  by (induction items acc rule: push_candidates.induct) auto

lemma assignment_candidates_nonblank:
  "t \<in> set (assignment_candidates r) \<Longrightarrow> t \<noteq> [] \<and> trim t = t"
  by (auto simp: assignment_candidates_def Let_def push_candidates_eq split: if_splits)

lemma assignment_candidates_Nil:
  "assignment_candidates r = [] \<longleftrightarrow>
     trim (rs_preferred_dp_addr r) = [] \<and> (\<forall>c\<in>set (rs_candidate_dps r). trim (dc_grpc_addr c) = [])"
  by (auto simp: assignment_candidates_def Let_def push_candidates_eq filter_empty_conv)

text \<open>The clock of a host: after the epoch, and its seconds in 63 bits.\<close>

definition clock_ok :: "system_time \<Rightarrow> bool" where
  "clock_ok t \<longleftrightarrow> 0 \<le> t \<and> t div int nanos_per_sec < 2 ^ 63"

text \<open>The arithmetic of \<open>expires_at\<close>: exact, or a panic.\<close>

lemma expiry_arith:
  assumes "clock_ok now" and "5 \<le> r" and "r < 2 ^ 63"
  shows "exec_bind (i64_mul checks r 2) (\<lambda>twice. systime_add now (from_secs (i64_as_u64 twice)))
    = (if now div int nanos_per_sec + 2 * r < 2 ^ 63 then Done (now + int (from_secs (nat (2 * r)))) else Panic)"
proof -
  have div: "(now + int (from_secs n)) div int nanos_per_sec = now div int nanos_per_sec + int n" for n
    by (simp add: from_secs_def nanos_per_sec_def)
  have pos: "0 \<le> now div int nanos_per_sec" using assms(1) by (simp add: clock_ok_def nanos_per_sec_def pos_imp_zdiv_nonneg_iff)
  show ?thesis
  proof (cases "2 * r < 2 ^ 63")
    case True
    then have "i64_mul checks r 2 = Done (2 * r)" using assms(2) by (simp add: i64_mul_def mult.commute)
    moreover have "i64_as_u64 (2 * r) = nat (2 * r)" using True assms(2) by (simp add: i64_as_u64_def)
    ultimately show ?thesis using assms(2) by (simp add: systime_add_def div)
  next
    case False
    have "i64_as_u64 (i64_wrap (r * 2)) = nat (2 * r)"
    proof -
      have "(i64_wrap (r * 2)) mod 2 ^ 64 = (r * 2) mod 2 ^ 64"
        unfolding i64_wrap_def by (simp add: mod_diff_left_eq)
      then show ?thesis using assms(2,3) by (simp add: i64_as_u64_def mult.commute)
    qed
    then show ?thesis
      using False pos assms(2) by (simp add: i64_mul_def systime_add_def div mult.commute)
  qed
qed

section \<open>Properties\<close>

text \<open>
  C35. What a resolved assignment is, or that there is none: with the channel and the
  response at hand, the candidates are the nonblank addresses, trimmed and in order, or the
  preferred one where there is none; the refresh interval is at least five seconds and the
  assignment holds twice as long. The call panics exactly when the expiry leaves the range
  of the clock, which a response with a large interval brings about.
\<close>

theorem resolve_assignment_spec:
  assumes "build_mtls_channel_for_controlplane (pl_net P) (cfg_agent c) i = Inr ch"
    and "pl_resolve P ch
         \<lparr>rr_agent_id = agent_id facts, rr_host_id = host_id facts, rr_zone_id = app_zone_id (cfg_app c),
          rr_last_assignment_epoch = (case current of None \<Rightarrow> 0 | Some a \<Rightarrow> assignment_epoch a),
          rr_current_dp_id = (case current of None \<Rightarrow> [] | Some a \<Rightarrow> preferred_dp_id a)\<rparr> = Inr r"
    and "clock_ok now" and "rs_refresh_after_sec r < 2 ^ 63"
  shows "resolve_assignment checks P c i facts current now =
    (if trim (rs_preferred_dp_addr r) = [] \<and> (\<forall>d\<in>set (rs_candidate_dps r). trim (dc_grpc_addr d) = [])
     then Done (Inl (anyhow ''runtime assignment returned no dataplane candidates''))
     else let secs = max (rs_refresh_after_sec r) 5;
              listed = filter (\<lambda>a. a \<noteq> []) (map (\<lambda>d. trim (dc_grpc_addr d)) (rs_candidate_dps r))
       in if now div int nanos_per_sec + 2 * secs < 2 ^ 63
          then Done (Inr \<lparr>preferred_dp_id = rs_preferred_dp_id r, preferred_target = rs_preferred_dp_addr r,
             candidates = (if listed = [] then [trim (rs_preferred_dp_addr r)] else listed),
             assignment_epoch = rs_assignment_epoch r, refresh_after = from_secs (nat secs),
             expires_at = now + 2 * int (from_secs (nat secs))\<rparr>)
          else Panic)"
proof -
  let ?secs = "max (rs_refresh_after_sec r) 5"
  have secs: "5 \<le> ?secs" "?secs < 2 ^ 63" using assms(4) by auto
  have cast: "i64_as_u64 ?secs = nat ?secs" using secs by (simp add: i64_as_u64_def)
  have twice: "int (from_secs (nat (2 * ?secs))) = 2 * int (from_secs (nat ?secs))"
    using order_trans [OF _ secs(1), of 0] by (simp add: from_secs_def nat_mult_distrib)
  have assoc: "exec_bind m (\<lambda>x. exec_bind (f x) g) = exec_bind (exec_bind m f) g" for m :: "int exec" and f g
    by (cases m) simp_all
  show ?thesis
    using assms(1,2) expiry_arith [OF assms(3) secs, of checks] cast twice
    by (auto simp: resolve_assignment_def Let_def assoc assignment_candidates_Nil [symmetric])
       (auto simp: assignment_candidates_def Let_def push_candidates_eq)
qed

definition demo_plane :: "int \<Rightarrow> plane" where
  "demo_plane secs = \<lparr>pl_net = demo_net,
     pl_resolve = (\<lambda>ch rq. Inr \<lparr>rs_preferred_dp_id = ''d'', rs_preferred_dp_addr = '' dp:1 '',
        rs_candidate_dps = [\<lparr>dc_dp_id = ''d'', dc_grpc_addr = '' '', dc_weight = 1\<rparr>],
        rs_assignment_epoch = 7, rs_refresh_after_sec = secs\<rparr>),
     pl_control_stream = (\<lambda>ch. Inr ())\<rparr>"

definition demo_config :: AppConfig where
  "demo_config = \<lparr>cfg_app = \<lparr>app_name = ''aurora'', app_environment = Prod, app_node_id = ''n'', app_zone_id = [],
        app_shutdown_timeout = from_secs 15\<rparr>,
     cfg_agent = demo_agent, cfg_grpc = \<lparr>bind_addr = ''0.0.0.0:8081''\<rparr>, cfg_worker = \<lparr>max_workers = 4\<rparr>,
     cfg_log = \<lparr>log_level = ''INFO'', log_format = ''json'', log_service = ''aurora'',
        log_environment = ''prod'', log_host_id = ''n''\<rparr>\<rparr>"

theorem resolve_assignment_spec_witness:
  "resolve_assignment True (demo_plane (2 ^ 62)) demo_config demo_identity demo_facts None 0 = Panic
   \<and> (\<exists>a. resolve_assignment False (demo_plane 1) demo_config demo_identity demo_facts None 0 = Done (Inr a)
        \<and> candidates a = [''dp:1''] \<and> refresh_after a = from_secs 5 \<and> expires_at a = int (from_secs 10))"
proof -
  have addr: "trim '' dp:1 '' = ''dp:1''" "trim '' '' = []" by (simp_all add: text_simps)
  have ok: "clock_ok 0" by (simp add: clock_ok_def nanos_per_sec_def)
  obtain ch where ch: "build_mtls_channel_for_controlplane (pl_net (demo_plane n)) (cfg_agent demo_config) demo_identity = Inr ch" for n
    by (simp add: build_mtls_channel_for_controlplane_def build_mtls_channel_for_target_def demo_net_def
        demo_identity_def demo_plane_def Let_def)
  show ?thesis
    using resolve_assignment_spec [OF ch [of "2 ^ 62"], of demo_facts None _ 0 True]
      resolve_assignment_spec [OF ch [of 1], of demo_facts None _ 0 False] ok addr
    by (simp add: demo_plane_def nanos_per_sec_def from_secs_def)
qed

end
