(* ===== verification/Session.thy ===== *)
theory Session
  imports Handler_Steps Assignment
begin

text \<open>
  One session on a runtime target (\<open>run_session\<close> in \<open>src/src/agent/registry.rs\<close>). The tasks
  it spawns and its \<open>select!\<close> loop advance on events, in any order, one for each thing a task
  awaits: for the loop the shutdown token, the note of the refresh task, a message, the end
  of the stream and, inside the handler of a message, the end of a send or of a pause; for the
  heartbeat task its token, a tick and the end of its send; for the refresh task its token and
  a round. The telemetry task sends on a channel of its own and appears as a flag. A task that
  is aborted takes no further step; what it held, it drops.
\<close>

section \<open>State and events\<close>

record session =
  se_ledger :: CommandLedger
  se_stream :: stream
  se_heartbeat :: heartbeat_task
  se_handler :: handler
  se_telemetry :: bool
  se_refresh :: bool
  se_changed :: bool

datatype session_event =
    EvShutdown
  | EvAssignmentRecv
  | EvFrame HypervisorToAgent "nat \<Rightarrow> StoragePool list" "nat \<Rightarrow> system_time"
  | EvHandler
  | EvClosed
  | EvStreamError grpc_code string
  | EvHeartbeat heartbeat_event
  | EvRefresh plane system_time
  | EvRefreshShutdown

text \<open>What a session is started with.\<close>

record 'v session_args =
  sa_libs :: "'v libs"
  sa_checks :: bool
  sa_config :: AppConfig
  sa_facts :: HostFacts
  sa_identity :: AgentIdentityState
  sa_assignment :: AssignmentCache
  sa_target :: string

definition new_stream_id :: "string \<Rightarrow> system_time \<Rightarrow> string" where
  "new_stream_id agent now = agent @ ''-'' @ show_nat (as_secs (since_epoch now))"

definition abort_tasks :: "session \<Rightarrow> session" where
  "abort_tasks se = se\<lparr>se_heartbeat := HbStopped, se_telemetry := False, se_refresh := False\<rparr>"

section \<open>The loop\<close>

text \<open>
  The first component is the result once the session has ended. While the handler waits, the
  loop is not at its \<open>select!\<close> and what it would meet there has no effect; it comes again as
  a later event. \<open>recv\<close> returns the note when there is one, \<open>None\<close> when the refresh task is
  gone, and is not ready otherwise; the loop goes on in the last two cases. A refresh that
  panics ends its task.
\<close>

fun session_step ::
  "'v session_args \<Rightarrow> string \<Rightarrow> session_event \<Rightarrow> session \<Rightarrow> (error + unit) option \<times> session" where
  "session_step A sid EvShutdown se =
     (if handler_idle (se_handler se) then (Some (Inr ()), abort_tasks se) else (None, se))"
| "session_step A sid EvAssignmentRecv se =
     (if handler_idle (se_handler se) \<and> se_changed se
      then (Some (Inl (anyhow ''runtime assignment changed'')), abort_tasks (se\<lparr>se_changed := False\<rparr>))
      else (None, se))"
| "session_step A sid (EvFrame frame pools clock) se =
     (if handler_idle (se_handler se)
      then (case handler_start (sa_libs A) (sa_facts A) sid pools clock frame (se_ledger se, se_stream se) of
              (r, l, s) \<Rightarrow>
                (let se1 = se\<lparr>se_ledger := l, se_stream := s\<rparr> in
                 case r of
                   Inl err \<Rightarrow> (Some (Inl err), abort_tasks se1)
                 | Inr h \<Rightarrow> (None, se1\<lparr>se_handler := h\<rparr>)))
      else (None, se))"
| "session_step A sid EvHandler se =
     (case handler_step (sa_facts A) sid (se_handler se) (se_stream se) of
        (Inl err, s) \<Rightarrow> (Some (Inl err), abort_tasks (se\<lparr>se_stream := s, se_handler := HandlerIdle\<rparr>))
      | (Inr h, s) \<Rightarrow> (None, se\<lparr>se_stream := s, se_handler := h\<rparr>))"
| "session_step A sid EvClosed se =
     (if handler_idle (se_handler se) then (Some (Inr ()), abort_tasks se) else (None, se))"
| "session_step A sid (EvStreamError code m) se =
     (if handler_idle (se_handler se) then (Some (Inl [Status code m]), abort_tasks se) else (None, se))"
| "session_step A sid (EvHeartbeat e) se =
     (case heartbeat_step (host_registration_from_facts (sa_facts A)) sid e (se_heartbeat se, se_stream se) of
        (t, s) \<Rightarrow> (None, se\<lparr>se_stream := s, se_heartbeat := t\<rparr>))"
| "session_step A sid (EvRefresh P now) se =
     (if se_refresh se
      then (case resolve_assignment (sa_checks A) P (sa_config A) (sa_identity A) (sa_facts A)
                (Some (sa_assignment A)) now of
              Panic \<Rightarrow> (None, se\<lparr>se_refresh := False\<rparr>)
            | Done (Inl e) \<Rightarrow> (None, se)
            | Done (Inr updated) \<Rightarrow>
                if preferred_target updated \<noteq> sa_target A
                then (None, se\<lparr>se_changed := True, se_refresh := False\<rparr>) else (None, se))
      else (None, se))"
| "session_step A sid EvRefreshShutdown se = (None, se\<lparr>se_refresh := False\<rparr>)"

fun session_loop ::
  "'v session_args \<Rightarrow> string \<Rightarrow> session_event list \<Rightarrow> session \<Rightarrow> (error + unit) option \<times> session" where
  "session_loop A sid [] se = (None, se)"
| "session_loop A sid (e # es) se =
     (case session_step A sid e se of
        (Some r, se1) \<Rightarrow> (Some r, se1)
      | (None, se1) \<Rightarrow> session_loop A sid es se1)"

text \<open>
  The session from its start: \<open>P1\<close> and \<open>P2\<close> are the network when the first and the telemetry
  channel are built, \<open>script\<close> the sends the channel of the stream will refuse, \<open>early\<close> what
  the heartbeat task meets while the telemetry channel is being built.
\<close>

definition run_session ::
  "'v session_args \<Rightarrow> plane \<Rightarrow> plane \<Rightarrow> system_time \<Rightarrow> bool list \<Rightarrow> heartbeat_event list
     \<Rightarrow> session_event list \<Rightarrow> CommandLedger \<Rightarrow> (error + unit) option \<times> session" where
  "run_session A P1 P2 now script early events ledger =
     (let sid = new_stream_id (agent_id (sa_facts A)) now;
          se0 = \<lparr>se_ledger = ledger, se_stream = new_stream script, se_heartbeat = HbStopped,
                 se_handler = HandlerIdle, se_telemetry = False, se_refresh = False, se_changed = False\<rparr>;
          open_channel = (\<lambda>P. build_mtls_channel_for_target (pl_net P) (cfg_agent (sa_config A))
             (sa_target A) (sa_identity A)) in
      case open_channel P1 of
        Inl e \<Rightarrow> (Some (Inl e), se0)
      | Inr ch \<Rightarrow>
     (case stream_emit (\<lambda>seq. register_frame (sa_facts A) sid seq) (se_stream se0) of
        (Inl e, s1) \<Rightarrow>
          (Some (Inl (anyhow (''failed to send initial register frame: '' @ err_text e))),
           se0\<lparr>se_stream := s1\<rparr>)
      | (Inr _, s1) \<Rightarrow>
     (case pl_control_stream P1 ch of
        Inl e \<Rightarrow> (Some (Inl e), se0\<lparr>se_stream := s1\<rparr>)
      | Inr _ \<Rightarrow>
     (case run_heartbeat_loop (host_registration_from_facts (sa_facts A)) sid (map HbEvent early)
             (HbWaiting, s1) of
        (t, s2) \<Rightarrow>
          (let se1 = se0\<lparr>se_stream := s2, se_heartbeat := t\<rparr> in
           case open_channel P2 of
             Inl e \<Rightarrow> (Some (Inl e), se1)
           | Inr _ \<Rightarrow> session_loop A sid events (se1\<lparr>se_telemetry := True, se_refresh := True\<rparr>))))))"

lemma abort_tasks_simps [simp]:
  "se_ledger (abort_tasks se) = se_ledger se" "se_stream (abort_tasks se) = se_stream se"
  "se_heartbeat (abort_tasks se) = HbStopped" "se_handler (abort_tasks se) = se_handler se"
  "\<not> se_telemetry (abort_tasks se)" "\<not> se_refresh (abort_tasks se)"
  by (simp_all add: abort_tasks_def)

lemma register_frame_simps [simp]:
  "a2h_seq (register_frame f sid n) = n" "a2h_stream_id (register_frame f sid n) = sid"
  "\<not> is_heartbeat (register_frame f sid n)"
  by (simp_all add: register_frame_def is_heartbeat_def)

section \<open>How a session ends\<close>

lemma session_step_end:
  assumes "session_step A sid e se = (Some r, se')"
  shows "se_heartbeat se' = HbStopped \<and> \<not> se_telemetry se' \<and> \<not> se_refresh se'
    \<and> (r = Inr () \<longrightarrow> e = EvShutdown \<or> e = EvClosed)"
  using assms
  by (cases e) (auto simp: Let_def split: prod.splits sum.splits if_splits exec.splits)

lemma session_loop_end:
  assumes "session_loop A sid es se = (Some r, se')"
  shows "se_heartbeat se' = HbStopped \<and> \<not> se_telemetry se' \<and> \<not> se_refresh se'
    \<and> (r = Inr () \<longrightarrow> EvShutdown \<in> set es \<or> EvClosed \<in> set es)"
  using assms
proof (induction es arbitrary: se)
  case (Cons e es)
  obtain q se1 where step: "session_step A sid e se = (q, se1)" by (meson surj_pair)
  show ?case
  proof (cases q)
    case (Some r')
    with Cons.prems step have "session_step A sid e se = (Some r, se')" by simp
    from session_step_end [OF this] show ?thesis by auto
  next
    case None
    with Cons.prems step have "session_loop A sid es se1 = (Some r, se')" by simp
    from Cons.IH [OF this] show ?thesis by auto
  qed
qed simp

text \<open>
  The start that fails at its last step: the first channel is opened, the registration is
  accepted and the control stream opened, but the telemetry channel cannot be opened.
\<close>

definition telemetry_channel_fails ::
  "'v session_args \<Rightarrow> plane \<Rightarrow> plane \<Rightarrow> bool list \<Rightarrow> error \<Rightarrow> bool" where
  "telemetry_channel_fails A P1 P2 script e \<longleftrightarrow>
     (case build_mtls_channel_for_target (pl_net P1) (cfg_agent (sa_config A)) (sa_target A) (sa_identity A) of
        Inl _ \<Rightarrow> False
      | Inr ch \<Rightarrow> (script = [] \<or> hd script = False) \<and> (\<exists>x. pl_control_stream P1 ch = Inr x)
          \<and> build_mtls_channel_for_target (pl_net P2) (cfg_agent (sa_config A)) (sa_target A) (sa_identity A)
              = Inl e)"

text \<open>
  C34. How a session ends: with Ok only after a shutdown or the end of the stream. Its
  telemetry and refresh tasks are stopped then, however it ends, and so is the heartbeat,
  except where the telemetry channel could not be opened: there the heartbeat is left as it
  is, running unless it met a shutdown or a refused send meanwhile.
\<close>

theorem session_end_stops_tasks:
  assumes "run_session A P1 P2 now script early es l = (Some r, se)"
  shows "\<not> se_telemetry se \<and> \<not> se_refresh se
    \<and> (r = Inr () \<longrightarrow> EvShutdown \<in> set es \<or> EvClosed \<in> set es)
    \<and> ((\<forall>e. \<not> telemetry_channel_fails A P1 P2 script e) \<longrightarrow> se_heartbeat se = HbStopped)
    \<and> (\<forall>e. telemetry_channel_fails A P1 P2 script e \<longrightarrow> r = Inl e
         \<and> se_heartbeat se = fst (run_heartbeat_loop (host_registration_from_facts (sa_facts A))
             (new_stream_id (agent_id (sa_facts A)) now) (map HbEvent early)
             (HbWaiting, snd (stream_emit (register_frame (sa_facts A)
                (new_stream_id (agent_id (sa_facts A)) now)) (new_stream script)))))"
proof -
  let ?sid = "new_stream_id (agent_id (sa_facts A)) now"
  let ?emit = "stream_emit (register_frame (sa_facts A) ?sid) (new_stream script)"
  obtain q s1 where q: "?emit = (q, s1)" by (meson surj_pair)
  have reg: "(\<exists>u. q = Inr u) \<longleftrightarrow> script = [] \<or> hd script = False"
    using stream_emit_result [of "register_frame (sa_facts A) ?sid" "new_stream script"] q
    by (auto simp: new_stream_def split: if_splits)
  obtain t s2 where hb: "run_heartbeat_loop (host_registration_from_facts (sa_facts A)) ?sid
      (map HbEvent early) (HbWaiting, s1) = (t, s2)" by (meson surj_pair)
  from assms q hb reg show ?thesis
    by (auto simp: run_session_def telemetry_channel_fails_def Let_def split: sum.splits dest!: session_loop_end)
qed

definition demo_assignment :: AssignmentCache where
  "demo_assignment = \<lparr>preferred_dp_id = ''d'', preferred_target = '' dp:1 '', candidates = [''dp:1''],
     assignment_epoch = 7, refresh_after = from_secs 5, expires_at = int (from_secs 10)\<rparr>"

definition demo_args :: "string session_args" where
  "demo_args = \<lparr>sa_libs = demo_libs, sa_checks = False, sa_config = demo_config, sa_facts = demo_facts,
     sa_identity = demo_identity, sa_assignment = demo_assignment, sa_target = ''dp:1''\<rparr>"

definition broken_plane :: plane where
  "broken_plane = (demo_plane 1)\<lparr>pl_net := demo_net\<lparr>endpoint_connect := (\<lambda>ch. Inl [Lib ''transport error''])\<rparr>\<rparr>"

text \<open>The telemetry channel fails after the first heartbeat.\<close>

theorem session_end_stops_tasks_witness:
  "\<exists>se e. run_session demo_args (demo_plane 1) broken_plane 0 [] [HbTick 3, HbSent] [] empty_ledger
       = (Some (Inl e), se)
     \<and> se_heartbeat se = HbWaiting \<and> \<not> se_telemetry se"
proof -
  let ?run = "run_session demo_args (demo_plane 1) broken_plane 0 [] [HbTick 3, HbSent] [] empty_ledger"
  have fails: "telemetry_channel_fails demo_args (demo_plane 1) broken_plane [] [Lib ''transport error'']"
    and ended: "fst ?run \<noteq> None"
    by (simp_all add: telemetry_channel_fails_def run_session_def Let_def demo_args_def demo_plane_def
        broken_plane_def demo_net_def build_mtls_channel_for_target_def demo_identity_def new_stream_def
        stream_emit_open seq_fetch_add_def)
  obtain r se where run: "?run = (Some r, se)" using ended by (cases ?run) auto
  from session_end_stops_tasks [OF run] fails have "r = Inl [Lib ''transport error'']" "\<not> se_telemetry se"
    "se_heartbeat se = HbWaiting"
    by (auto simp: stream_emit_open new_stream_def seq_fetch_add_def)
  with run show ?thesis by blast
qed

section \<open>The frames of a session\<close>

text \<open>
  The numbers of the two tasks that use the stream: \<open>hb\<close> and \<open>own\<close> are the frames the heartbeat
  task and the loop hold between taking a number and sending. Each task's numbers increase,
  none is used twice, and all are below the counter, which has counted at most \<open>N\<close>.
\<close>

abbreviation own_frames :: "stream \<Rightarrow> AgentToHypervisor list" where
  "own_frames s \<equiv> filter (\<lambda>f. \<not> is_heartbeat f) (st_outbox s)"

definition seqs :: "AgentToHypervisor list \<Rightarrow> u64 list" where
  "seqs fs = map a2h_seq fs"

definition numbers_ok ::
  "nat \<Rightarrow> string \<Rightarrow> stream \<Rightarrow> AgentToHypervisor list \<Rightarrow> AgentToHypervisor list \<Rightarrow> bool" where
  "numbers_ok N sid s hb own \<longleftrightarrow>
     sorted_wrt (<) (seqs (heartbeats s @ hb)) \<and> sorted_wrt (<) (seqs (own_frames s @ own))
   \<and> set (seqs (heartbeats s @ hb)) \<inter> set (seqs (own_frames s @ own)) = {}
   \<and> (\<forall>f\<in>set (st_outbox s) \<union> set hb \<union> set own. a2h_seq f < st_seq s \<and> a2h_stream_id f = sid)
   \<and> unat (st_seq s) \<le> N \<and> list_all is_heartbeat hb \<and> list_all (\<lambda>f. \<not> is_heartbeat f) own"

lemma numbers_ok_mono: "numbers_ok N sid s hb own \<Longrightarrow> N \<le> M \<Longrightarrow> numbers_ok M sid s hb own"
  by (simp add: numbers_ok_def)

lemma numbers_ok_drop:
  "numbers_ok N sid s hb own \<Longrightarrow> numbers_ok N sid s [] own"
  "numbers_ok N sid s hb own \<Longrightarrow> numbers_ok N sid s hb []"
  by (auto simp: numbers_ok_def seqs_def sorted_wrt_append)

lemma sorted_snoc: "sorted_wrt (<) xs \<Longrightarrow> \<forall>x\<in>set xs. x < c \<Longrightarrow> sorted_wrt (<) (xs @ [c :: u64])"
  by (simp add: sorted_wrt_append)

lemma seqs_simps [simp]:
  "seqs [] = []" "seqs (xs @ ys) = seqs xs @ seqs ys" "seqs (f # fs) = a2h_seq f # seqs fs"
  "set (seqs xs) = a2h_seq ` set xs"
  by (simp_all add: seqs_def)

text \<open>Taking a number for either task: its own numbers get a new last one.\<close>

lemma numbers_ok_take:
  assumes "numbers_ok N sid s hb own" and "N + 1 < 2 ^ 64" and "a2h_seq f = st_seq s" and "a2h_stream_id f = sid"
  shows "hb = [] \<Longrightarrow> is_heartbeat f \<Longrightarrow> numbers_ok (Suc N) sid (snd (seq_fetch_add s)) [f] own"
    "own = [] \<Longrightarrow> \<not> is_heartbeat f \<Longrightarrow> numbers_ok (Suc N) sid (snd (seq_fetch_add s)) hb [f]"
proof -
  let ?c = "st_seq s"
  note ok = assms(1) [unfolded numbers_ok_def]
  have small: "unat ?c + 1 < 2 ^ 64" using ok assms(2) by simp
  have up: "unat (?c + 1) \<le> Suc N" using unat_seq_Suc [OF small] ok by simp
  have lt: "?c < ?c + 1" using seq_not_max [OF small] by (rule word_less_Suc)
  have below: "\<forall>g\<in>set (st_outbox s) \<union> set hb \<union> set own. a2h_seq g < ?c" using ok by blast
  then have below': "\<forall>g\<in>set (st_outbox s) \<union> set hb \<union> set own. a2h_seq g < ?c + 1 \<and> a2h_stream_id g = sid"
    using ok lt by (meson order.strict_trans)
  have hbs: "\<forall>n\<in>set (seqs (heartbeats s @ hb)). n < ?c" and owns: "\<forall>n\<in>set (seqs (own_frames s @ own)). n < ?c"
    using below by auto
  then have new: "?c \<notin> set (seqs (heartbeats s @ hb))" "?c \<notin> set (seqs (own_frames s @ own))"
    by blast+
  show "numbers_ok (Suc N) sid (snd (seq_fetch_add s)) [f] own" if "hb = []" "is_heartbeat f"
    unfolding numbers_ok_def
    using ok that up lt below' assms(3,4) new(2) sorted_snoc [OF _ hbs] by simp
  show "numbers_ok (Suc N) sid (snd (seq_fetch_add s)) hb [f]" if "own = []" "\<not> is_heartbeat f"
    unfolding numbers_ok_def
    using ok that up lt below' assms(3,4) new(1) sorted_snoc [OF _ owns] by simp
qed

lemma numbers_ok_send:
  "numbers_ok N sid s [f] own \<Longrightarrow> numbers_ok N sid (snd (tx_send f s)) [] own"
  "numbers_ok N sid s hb [f] \<Longrightarrow> numbers_ok N sid (snd (tx_send f s)) hb []"
  by (cases rule: tx_send_cases [of f s]; simp add: numbers_ok_def sorted_wrt_append; blast)+

text \<open>Every step of either task keeps this, takes at most one number, and takes no frame back.\<close>

lemma tx_send_prefix: "prefix (st_outbox s) (st_outbox (snd (tx_send f s)))"
  by (simp add: tx_send_def Let_def)

lemma heartbeat_step_ok:
  assumes "numbers_ok N sid s (in_flight t) own" and "N + 1 < 2 ^ 64"
    and "heartbeat_step reg sid e (t, s) = (t', s')"
  shows "numbers_ok (Suc N) sid s' (in_flight t') own \<and> prefix (st_outbox s) (st_outbox s')"
proof -
  have quiet: ?thesis if "s' = s" "t' = t \<or> t' = HbStopped"
    using that numbers_ok_mono [OF assms(1)] numbers_ok_drop(1) [OF numbers_ok_mono [OF assms(1)]] by auto
  show ?thesis
  proof (cases t)
    case HbWaiting
    show ?thesis
    proof (cases e)
      case (HbTick now)
      with HbWaiting assms numbers_ok_take(1) [OF assms(1,2), of "heartbeat_frame reg sid now (st_seq s)"]
      show ?thesis by (auto simp: seq_fetch_add_def)
    qed (use HbWaiting assms(3) quiet in auto)
  next
    case (HbSending f)
    show ?thesis
    proof (cases e)
      case HbSent
      then have "s' = snd (tx_send f s)" "in_flight t' = []"
        using assms(3) HbSending by (auto split: prod.splits sum.splits)
      with HbSending assms(1) show ?thesis
        by (simp add: tx_send_prefix numbers_ok_mono [OF numbers_ok_send(1)])
    qed (use HbSending assms(3) quiet in auto)
  next
    case HbStopped
    with assms(3) quiet show ?thesis by simp
  qed
qed

lemma handler_start_ok:
  assumes "numbers_ok N sid s hb own" and "N + 1 < 2 ^ 64"
    and "handler_start L facts sid pools clock frame (l, s) = (r, l1, s1)"
  shows "numbers_ok (Suc N) sid s1 hb (case r of Inl e \<Rightarrow> [] | Inr h \<Rightarrow> handler_pending h)
    \<and> prefix (st_outbox s) (st_outbox s1)"
  using assms(3)
proof (cases rule: handler_start_cases)
  case quiet
  then have "(case r of Inl e \<Rightarrow> [] | Inr h \<Rightarrow> handler_pending h) = []" by (cases r) auto
  with quiet show ?thesis using numbers_ok_drop(2) [OF numbers_ok_mono [OF assms(1)]] by simp
next
  case (taken h f)
  with numbers_ok_take(2) [OF numbers_ok_drop(2) [OF assms(1)] assms(2)] show ?thesis by simp
qed

lemma handler_step_ok:
  assumes "numbers_ok N sid s hb (handler_pending h)" and "N + 1 < 2 ^ 64"
    and "handler_step facts sid h s = (r, s1)"
  shows "numbers_ok (Suc N) sid s1 hb (case r of Inl e \<Rightarrow> [] | Inr h1 \<Rightarrow> handler_pending h1)
    \<and> prefix (st_outbox s) (st_outbox s1)"
  using assms(3)
proof (cases rule: handler_step_cases)
  case quiet
  with numbers_ok_drop(2) [OF numbers_ok_mono [OF assms(1)]] show ?thesis by simp
next
  case (taken h1 f)
  with numbers_ok_take(2) [OF assms(1,2)] show ?thesis by simp
next
  case (sent f)
  then have "(case r of Inl e \<Rightarrow> [] | Inr h1 \<Rightarrow> handler_pending h1) = []" by (cases r) auto
  with sent assms(1) show ?thesis
    by (simp add: tx_send_prefix numbers_ok_mono [OF numbers_ok_send(2)])
qed

definition session_inv :: "nat \<Rightarrow> string \<Rightarrow> session \<Rightarrow> bool" where
  "session_inv N sid se \<longleftrightarrow>
     numbers_ok N sid (se_stream se) (in_flight (se_heartbeat se)) (handler_pending (se_handler se))"

lemma session_inv_abort: "session_inv N sid se \<Longrightarrow> session_inv N sid (abort_tasks se)"
  by (simp add: session_inv_def numbers_ok_drop)

lemma session_step_ok:
  assumes "session_inv N sid se" and "N + 1 < 2 ^ 64" and "session_step A sid e se = (r, se')"
  shows "session_inv (Suc N) sid se' \<and> prefix (st_outbox (se_stream se)) (st_outbox (se_stream se'))"
proof -
  note ok = assms(1) [unfolded session_inv_def]
  have quiet: ?thesis if "se_stream se' = se_stream se" "se_handler se' = se_handler se"
      "se_heartbeat se' = se_heartbeat se \<or> se_heartbeat se' = HbStopped"
    using that numbers_ok_mono [OF ok] numbers_ok_drop(1) [OF numbers_ok_mono [OF ok]]
    by (auto simp: session_inv_def)
  show ?thesis
  proof (cases e)
    case (EvFrame frame pools clock)
    obtain q l s where h: "handler_start (sa_libs A) (sa_facts A) sid pools clock frame
        (se_ledger se, se_stream se) = (q, l, s)" using prod_cases3 by blast
    from handler_start_ok [OF ok assms(2) h] EvFrame h assms(3) quiet show ?thesis
      by (auto simp: session_inv_def Let_def numbers_ok_drop split: sum.splits if_splits)
  next
    case EvHandler
    obtain q s where h: "handler_step (sa_facts A) sid (se_handler se) (se_stream se) = (q, s)"
      by (meson surj_pair)
    from handler_step_ok [OF ok assms(2) h] EvHandler h assms(3) show ?thesis
      by (auto simp: session_inv_def numbers_ok_drop split: sum.splits)
  next
    case (EvHeartbeat x)
    obtain t s where h: "heartbeat_step (host_registration_from_facts (sa_facts A)) sid x
        (se_heartbeat se, se_stream se) = (t, s)" by (meson surj_pair)
    from heartbeat_step_ok [OF ok assms(2) h] EvHeartbeat h assms(3) show ?thesis
      by (auto simp: session_inv_def)
  qed (use assms(3) quiet in \<open>auto split: if_splits exec.splits sum.splits\<close>)
qed

lemma session_loop_ok:
  assumes "session_inv N sid se" and "N + length es < 2 ^ 64" and "session_loop A sid es se = (r, se')"
  shows "session_inv (N + length es) sid se' \<and> prefix (st_outbox (se_stream se)) (st_outbox (se_stream se'))"
  using assms
proof (induction es arbitrary: N se)
  case (Cons e es)
  obtain q se1 where step: "session_step A sid e se = (q, se1)" by (meson surj_pair)
  have "N + 1 < 2 ^ 64" using Cons.prems(2) by simp
  from session_step_ok [OF Cons.prems(1) this step]
  have inv: "session_inv (Suc N) sid se1" "prefix (st_outbox (se_stream se)) (st_outbox (se_stream se1))" by simp_all
  show ?case
  proof (cases q)
    case (Some x)
    then have "se' = se1" using Cons.prems(3) step by simp
    with inv show ?thesis by (auto simp: session_inv_def intro: numbers_ok_mono)
  next
    case None
    then have "session_loop A sid es se1 = (r, se')" using Cons.prems(3) step by simp
    from Cons.IH [OF inv(1) _ this] Cons.prems(2) inv(2) show ?thesis
      by (auto intro: prefix_order.trans)
  qed
qed simp

lemma heartbeat_run_ok:
  assumes "numbers_ok N sid s (in_flight t) own" and "N + length es < 2 ^ 64"
    and "run_heartbeat_loop reg sid (map HbEvent es) (t, s) = (t', s')"
  shows "numbers_ok (N + length es) sid s' (in_flight t') own \<and> prefix (st_outbox s) (st_outbox s')"
  using assms
proof (induction es arbitrary: N t s)
  case (Cons e es)
  obtain t1 s1 where step: "heartbeat_step reg sid e (t, s) = (t1, s1)" by (meson surj_pair)
  have "N + 1 < 2 ^ 64" using Cons.prems(2) by simp
  from heartbeat_step_ok [OF Cons.prems(1) this step] step Cons.prems(2,3) Cons.IH [of "Suc N" s1 t1]
  show ?case by (auto intro: prefix_order.trans)
qed simp

lemma distinct_partition:
  "distinct (map g (filter P xs)) \<Longrightarrow> distinct (map g (filter (\<lambda>x. \<not> P x) xs))
     \<Longrightarrow> set (map g (filter P xs)) \<inter> set (map g (filter (\<lambda>x. \<not> P x) xs)) = {} \<Longrightarrow> distinct (map g xs)"
  by (induction xs) (auto split: if_splits)

lemma numbers_ok_distinct: "numbers_ok N sid s hb own \<Longrightarrow> distinct (seqs (st_outbox s))"
proof -
  assume ok: "numbers_ok N sid s hb own"
  then have d: "distinct (seqs (heartbeats s @ hb))" "distinct (seqs (own_frames s @ own))"
    unfolding numbers_ok_def strict_sorted_iff by (auto simp only:)
  have "set (seqs (heartbeats s @ hb)) \<inter> set (seqs (own_frames s @ own)) = {}"
    using ok unfolding numbers_ok_def by (simp only:)
  then have "set (map a2h_seq (heartbeats s)) \<inter> set (map a2h_seq (own_frames s)) = {}"
    by (simp only: seqs_def map_append set_append Int_Un_distrib Int_Un_distrib2 Un_empty)
  with d show ?thesis
    unfolding seqs_def map_append distinct_append
    by - (rule distinct_partition [of a2h_seq is_heartbeat], simp_all only:)
qed

lemma registered_numbers_ok:
  "numbers_ok 2 sid (snd (stream_emit (register_frame facts sid) (new_stream script))) [] []"
proof -
  let ?s = "new_stream script" and ?f = "register_frame facts sid 1"
  have "numbers_ok 1 sid ?s [] []" by (simp add: numbers_ok_def new_stream_def)
  then have "numbers_ok (Suc 1) sid (snd (seq_fetch_add ?s)) [] [?f]"
    by (rule numbers_ok_take(2)) (simp_all add: new_stream_def)
  from numbers_ok_send(2) [OF this] show ?thesis
    by (simp add: emit_def seq_fetch_add_def new_stream_def numeral_2_eq_2)
qed


text \<open>
  A heartbeat takes its number before, and is sent after, the inventory: the frames
  are the registration, the inventory with number 3 and the heartbeat with number 2.
\<close>

definition demo_ack :: HypervisorToAgent where
  "demo_ack = \<lparr>h2a_stream_id = ''s'', h2a_seq = 1, h2a_message = Some (RegisterAckMsg
     \<lparr>ra_host_id = ''h'', ra_status = ''online'', ra_node_id = ''n''\<rparr>)\<rparr>"

definition demo_race :: "session_event list" where
  "demo_race = [EvHeartbeat (HbTick 5), EvFrame demo_ack (\<lambda>_. []) (\<lambda>_. 6), EvHandler, EvHeartbeat HbSent, EvClosed]"


text \<open>
  The refresh: a round that resolves an assignment ends the session exactly when the
  preferred address of the response, as it came, differs from the target; where only the
  preferred address named a candidate and it came with surrounding white space, the session
  to that candidate, trimmed, is ended although nothing changed.
\<close>

lemma refresh_compares_untrimmed:
  assumes "se_refresh se" and "\<not> se_changed se" and "se_handler se = HandlerIdle"
    and "resolve_assignment (sa_checks A) P (sa_config A) (sa_identity A) (sa_facts A)
           (Some (sa_assignment A)) now = Done (Inr updated)"
  shows "(fst (session_loop A sid [EvRefresh P now, EvAssignmentRecv] se)
        = (if preferred_target updated = sa_target A then None
           else Some (Inl (anyhow ''runtime assignment changed''))))
    \<and> (preferred_target updated \<noteq> trim (preferred_target updated)
        \<and> sa_target A = trim (preferred_target updated) \<longrightarrow>
       fst (session_loop A sid [EvRefresh P now, EvAssignmentRecv] se)
        = Some (Inl (anyhow ''runtime assignment changed'')))"
  using assms by auto

lemma refresh_compares_untrimmed_example:
  "\<exists>updated. resolve_assignment False (demo_plane 1) demo_config demo_identity demo_facts (Some demo_assignment) 0
       = Done (Inr updated) \<and> candidates updated = [sa_target demo_args]
     \<and> fst (session_loop demo_args ''s'' [EvRefresh (demo_plane 1) 0, EvAssignmentRecv]
         \<lparr>se_ledger = empty_ledger, se_stream = new_stream [], se_heartbeat = HbWaiting, se_handler = HandlerIdle,
          se_telemetry = True, se_refresh = True, se_changed = False\<rparr>)
       = Some (Inl (anyhow ''runtime assignment changed''))"
proof -
  let ?se = "\<lparr>se_ledger = empty_ledger, se_stream = new_stream [], se_heartbeat = HbWaiting, se_handler = HandlerIdle,
      se_telemetry = True, se_refresh = True, se_changed = False\<rparr>"
  have t: "trim '' dp:1 '' = ''dp:1''" "trim '' '' = []" by (simp_all add: text_simps)
  have "\<exists>u. resolve_assignment False (demo_plane 1) demo_config demo_identity demo_facts (Some demo_assignment) 0
      = Done (Inr u) \<and> preferred_target u = '' dp:1 '' \<and> candidates u = [''dp:1'']"
    by (simp add: resolve_assignment_def build_mtls_channel_for_controlplane_def build_mtls_channel_for_target_def
        demo_plane_def demo_net_def demo_identity_def Let_def assignment_candidates_def t
        i64_mul_def i64_as_u64_def systime_add_def from_secs_def nanos_per_sec_def)
  then obtain u where u: "resolve_assignment False (demo_plane 1) demo_config demo_identity demo_facts (Some demo_assignment) 0
      = Done (Inr u)" "preferred_target u = '' dp:1 ''" "candidates u = [''dp:1'']" by blast
  have a: "sa_checks demo_args = False" "sa_config demo_args = demo_config" "sa_identity demo_args = demo_identity"
      "sa_facts demo_args = demo_facts" "sa_assignment demo_args = demo_assignment" "sa_target demo_args = ''dp:1''"
    by (simp_all add: demo_args_def)
  from refresh_compares_untrimmed [of ?se demo_args "demo_plane 1" 0 u "''s''"] u a t show ?thesis by simp
qed

end
