(* ===== verification/Target_Selector.thy ===== *)
theory Target_Selector
  imports Rust_Time
begin

text \<open>
  The choice of the runtime target (\<open>RuntimeTargetSelector\<close> in \<open>src/src/agent/registry.rs\<close>):
  a list of candidates, the index of the current one and the backoff between attempts. The
  contract \<open>target_cursor\<close> is what the connection loop relies on: a list that is walked once,
  front to back.
\<close>

section \<open>The selector\<close>

record RuntimeTargetSelector =
  sel_targets :: "string list"
  sel_index :: nat
  sel_backoff :: duration
  sel_base_backoff :: duration
  sel_max_backoff :: duration

definition selector_new :: "string list \<Rightarrow> duration \<Rightarrow> duration \<Rightarrow> RuntimeTargetSelector" where
  "selector_new targets base mx =
     \<lparr>sel_targets = targets, sel_index = 0, sel_backoff = base, sel_base_backoff = base,
      sel_max_backoff = mx\<rparr>"

definition selector_current :: "RuntimeTargetSelector \<Rightarrow> string option" where
  "selector_current s =
     (if sel_targets s = [] then None
      else let i = sel_index s mod length (sel_targets s) in
        if i < length (sel_targets s) then Some (sel_targets s ! i) else None)"

definition selector_advance :: "RuntimeTargetSelector \<Rightarrow> RuntimeTargetSelector exec" where
  "selector_advance s =
     (let s1 = (if sel_targets s = [] then s else s\<lparr>sel_index := sel_index s + 1\<rparr>) in
      if sel_targets s \<noteq> [] \<and> sel_index s1 \<ge> length (sel_targets s)
      then Done (s1\<lparr>sel_targets := []\<rparr>)
      else exec_bind (dur_mul (sel_backoff s1) 2)
             (\<lambda>d. Done (s1\<lparr>sel_backoff := min d (sel_max_backoff s1)\<rparr>)))"

text \<open>
  \<open>as u64\<close> drops the high bits of the \<open>u128\<close> milliseconds, and a remainder by zero panics.
\<close>

definition failover_delay :: "system_time \<Rightarrow> RuntimeTargetSelector \<Rightarrow> duration exec" where
  "failover_delay now s =
     (let jitter_cap = max (as_millis (sel_backoff s) div 5) 1 mod 2 ^ 64;
          subsec_millis = since_epoch now mod nanos_per_sec div nanos_per_milli
      in if jitter_cap = 0 then Panic
         else dur_add (sel_backoff s) (from_millis (subsec_millis mod jitter_cap)))"

definition selector_reset_backoff :: "RuntimeTargetSelector \<Rightarrow> RuntimeTargetSelector" where
  "selector_reset_backoff s = s\<lparr>sel_backoff := sel_base_backoff s\<rparr>"

section \<open>The contract of a cursor\<close>

locale target_cursor =
  fixes current :: "'s \<Rightarrow> string option"
    and advance :: "'s \<Rightarrow> 's exec"
    and remaining :: "'s \<Rightarrow> string list"
    and ok :: "'s \<Rightarrow> bool"
  assumes current_remaining: "ok s \<Longrightarrow> current s = (case remaining s of [] \<Rightarrow> None | t # ts \<Rightarrow> Some t)"
    and advance_remaining: "ok s \<Longrightarrow> remaining s \<noteq> [] \<Longrightarrow>
      \<exists>s'. advance s = Done s' \<and> ok s' \<and> remaining s' = tl (remaining s)"
begin

text \<open>The targets a loop \<open>while let Some(t) = current() { ..; advance() }\<close> meets in \<open>n\<close> rounds.\<close>

fun visits :: "nat \<Rightarrow> 's \<Rightarrow> string list" where
  "visits 0 s = []"
| "visits (Suc n) s = (case current s of
     None \<Rightarrow> []
   | Some t \<Rightarrow> (case advance s of Done s' \<Rightarrow> t # visits n s' | Panic \<Rightarrow> [t]))"

lemma visits_take: "ok s \<Longrightarrow> visits n s = take n (remaining s)"
proof (induction n arbitrary: s)
  case (Suc n)
  show ?case
  proof (cases "remaining s")
    case Nil
    with Suc.prems show ?thesis by (simp add: current_remaining)
  next
    case (Cons t ts)
    with advance_remaining [OF Suc.prems] obtain s' where
      "advance s = Done s'" "ok s'" "remaining s' = ts" by auto
    with Cons Suc show ?thesis by (simp add: current_remaining)
  qed
qed simp

lemma current_None: "ok s \<Longrightarrow> current s = None \<longleftrightarrow> remaining s = []"
  by (simp add: current_remaining split: list.split)

lemma current_Some: "ok s \<Longrightarrow> current s = Some t \<longleftrightarrow> (\<exists>ts. remaining s = t # ts)"
  by (auto simp: current_remaining split: list.split)

end

section \<open>The selector is a cursor\<close>

text \<open>
  The state the constructor and \<open>advance\<close> produce: the index is inside the list, and the
  backoff is between its bounds, which can be doubled.
\<close>

definition selector_ok :: "RuntimeTargetSelector \<Rightarrow> bool" where
  "selector_ok s \<longleftrightarrow> (sel_targets s = [] \<or> sel_index s < length (sel_targets s))
     \<and> sel_base_backoff s \<le> sel_backoff s \<and> sel_backoff s \<le> sel_max_backoff s
     \<and> 2 * sel_max_backoff s \<le> dur_max"

definition selector_remaining :: "RuntimeTargetSelector \<Rightarrow> string list" where
  "selector_remaining s = drop (sel_index s) (sel_targets s)"

lemma selector_new_ok:
  "base \<le> mx \<Longrightarrow> 2 * mx \<le> dur_max \<Longrightarrow> selector_ok (selector_new ts base mx)"
  by (auto simp: selector_ok_def selector_new_def)

lemma selector_new_remaining [simp]: "selector_remaining (selector_new ts base mx) = ts"
  by (simp add: selector_remaining_def selector_new_def)

lemma selector_advance_ok:
  assumes "selector_ok s"
  obtains s' where "selector_advance s = Done s'" "selector_ok s'"
    "selector_remaining s' = tl (selector_remaining s)"
    "sel_base_backoff s' = sel_base_backoff s" "sel_max_backoff s' = sel_max_backoff s"
    "sel_backoff s' = (if length (selector_remaining s) = 1 then sel_backoff s
       else min (2 * sel_backoff s) (sel_max_backoff s))"
proof -
  have mul: "dur_mul (sel_backoff s) 2 = Done (2 * sel_backoff s)"
    using assms by (simp add: selector_ok_def dur_mul_def mult.commute)
  show ?thesis
  proof (cases "sel_targets s = []")
    case True
    then show ?thesis
      using assms mul
      by (intro that [of "s\<lparr>sel_backoff := min (2 * sel_backoff s) (sel_max_backoff s)\<rparr>"])
         (auto simp: selector_advance_def selector_ok_def selector_remaining_def)
  next
    case False
    note ne = this
    show ?thesis
    proof (cases "sel_index s + 1 \<ge> length (sel_targets s)")
      case True
      with ne assms show ?thesis
        by (intro that [of "s\<lparr>sel_index := sel_index s + 1, sel_targets := []\<rparr>"])
           (auto simp: selector_advance_def selector_ok_def selector_remaining_def tl_drop)
    next
      case False
      with ne assms mul show ?thesis
        by (intro that [of "s\<lparr>sel_index := sel_index s + 1,
              sel_backoff := min (2 * sel_backoff s) (sel_max_backoff s)\<rparr>"])
           (auto simp: selector_advance_def selector_ok_def selector_remaining_def drop_Suc tl_drop)
    qed
  qed
qed

interpretation sel: target_cursor selector_current selector_advance selector_remaining selector_ok
proof unfold_locales
  fix s
  assume ok: "selector_ok s"
  show "selector_current s = (case selector_remaining s of [] \<Rightarrow> None | t # ts \<Rightarrow> Some t)"
  proof (cases "sel_targets s = []")
    case False
    then have "sel_index s < length (sel_targets s)" using ok by (simp add: selector_ok_def)
    with False show ?thesis
      by (simp add: selector_current_def selector_remaining_def drop_nth_hd)
  qed (simp add: selector_current_def selector_remaining_def)
  show "\<exists>s'. selector_advance s = Done s' \<and> selector_ok s' \<and> selector_remaining s' = tl (selector_remaining s)"
    using ok by (rule selector_advance_ok) blast
qed

section \<open>Properties\<close>

fun advances :: "nat \<Rightarrow> RuntimeTargetSelector \<Rightarrow> RuntimeTargetSelector exec" where
  "advances 0 s = Done s"
| "advances (Suc n) s = exec_bind (advances n s) selector_advance"

lemma advances_spec:
  assumes "base \<le> mx" and "2 * mx \<le> dur_max" and "k \<le> length ts"
  shows "\<exists>s. advances k (selector_new ts base mx) = Done s \<and> selector_ok s
    \<and> selector_remaining s = drop k ts \<and> sel_max_backoff s = mx \<and> sel_base_backoff s = base
    \<and> (k < length ts \<longrightarrow> sel_backoff s = min (base * 2 ^ k) mx)"
  using assms(3)
proof (induction k)
  case 0
  then show ?case using assms by (auto simp: selector_new_ok) (simp_all add: selector_new_def)
next
  case (Suc k)
  then obtain s where s: "advances k (selector_new ts base mx) = Done s" "selector_ok s"
    "selector_remaining s = drop k ts" "sel_max_backoff s = mx" "sel_base_backoff s = base"
    "sel_backoff s = min (base * 2 ^ k) mx" by auto
  from s(2) obtain s' where s': "selector_advance s = Done s'" "selector_ok s'"
    "selector_remaining s' = tl (selector_remaining s)"
    "sel_base_backoff s' = sel_base_backoff s" "sel_max_backoff s' = sel_max_backoff s"
    "sel_backoff s' = (if length (selector_remaining s) = 1 then sel_backoff s
       else min (2 * sel_backoff s) (sel_max_backoff s))"
    by (rule selector_advance_ok)
  have "min (2 * min (base * 2 ^ k) mx) mx = min (base * 2 ^ Suc k) mx"
    by (simp add: min_def)
  with s s' Suc.prems show ?case by (auto simp: drop_Suc tl_drop)
qed

text \<open>
  Every candidate once: after \<open>k\<close> failures the current target is the \<open>k\<close>-th candidate, and
  there is none once all have failed; the backoff of the \<open>k\<close>-th candidate is the base backoff
  doubled \<open>k\<close> times, cut off at the upper bound. No step panics when the upper bound can be
  doubled.
\<close>

lemma selector_walks_candidates:
  assumes "base \<le> mx" and "2 * mx \<le> dur_max"
  shows "\<forall>k\<le>length ts. \<exists>s. advances k (selector_new ts base mx) = Done s
    \<and> selector_current s = (if k < length ts then Some (ts ! k) else None)
    \<and> (k < length ts \<longrightarrow> sel_backoff s = min (base * 2 ^ k) mx)"
proof (intro allI impI)
  fix k
  assume "k \<le> length ts"
  then obtain s where s: "advances k (selector_new ts base mx) = Done s" "selector_ok s"
    "selector_remaining s = drop k ts" "k < length ts \<longrightarrow> sel_backoff s = min (base * 2 ^ k) mx"
    using advances_spec [OF assms] by blast
  have "selector_current s = (if k < length ts then Some (ts ! k) else None)"
    using sel.current_remaining [OF s(2)] s(3) by (auto simp: drop_nth_hd)
  with s show "\<exists>s. advances k (selector_new ts base mx) = Done s
    \<and> selector_current s = (if k < length ts then Some (ts ! k) else None)
    \<and> (k < length ts \<longrightarrow> sel_backoff s = min (base * 2 ^ k) mx)" by blast
qed

lemma selector_walks_candidates_example:
  "\<exists>s. advances 1 (selector_new [''a'', ''b''] (from_millis 200) (from_millis 3000)) = Done s
     \<and> selector_current s = Some ''b'' \<and> sel_backoff s = from_millis 400"
proof -
  have "from_millis 200 \<le> from_millis 3000" "2 * from_millis 3000 \<le> dur_max"
    by (simp_all add: time_simps)
  from selector_walks_candidates [OF this, of "[''a'', ''b'']"]
  show ?thesis by (auto simp: time_simps)
qed

lemma failover_delay_bounds:
  assumes "sel_backoff s \<le> from_millis (2 ^ 64 - 1)"
  shows "\<exists>d. failover_delay now s = Done d \<and> sel_backoff s \<le> d
    \<and> d < sel_backoff s + max (sel_backoff s div 5) nanos_per_milli"
proof -
  define cap where "cap = max (as_millis (sel_backoff s) div 5) 1"
  define j where "j = since_epoch now mod nanos_per_sec div nanos_per_milli mod cap"
  have ms: "as_millis (sel_backoff s) \<le> 2 ^ 64 - 1"
    using assms by (simp add: time_simps)
  then have cap: "cap mod 2 ^ 64 = cap" "cap > 0" "cap \<le> 2 ^ 64" by (auto simp: cap_def)
  then have "j < cap" by (simp add: j_def)
  then have j: "from_millis j < from_millis cap" by (simp add: time_simps)
  have fc: "from_millis cap \<le> max (sel_backoff s div 5) nanos_per_milli"
  proof -
    have "as_millis (sel_backoff s) div 5 * nanos_per_milli \<le> sel_backoff s div 5"
      unfolding as_millis_def nanos_per_milli_def by linarith
    then show ?thesis unfolding cap_def from_millis_def nat_mult_max_left by simp
  qed
  have "max (sel_backoff s div 5) nanos_per_milli \<le> from_millis (2 ^ 64)"
    using assms by (simp add: time_simps)
  then have "sel_backoff s + from_millis j \<le> dur_max"
    using assms j fc by (simp add: time_simps)
  then have "failover_delay now s = Done (sel_backoff s + from_millis j)"
    using cap unfolding failover_delay_def Let_def cap_def [symmetric] j_def by (simp add: dur_add_def)
  with j fc show ?thesis by auto
qed

end
