(* ===== verification/Registry.thy ===== *)
theory Registry
  imports Session Target_Selector
begin

text \<open>
  The connection loop (\<open>connect_hypervisor\<close> in \<open>src/src/agent/registry.rs\<close>): make sure of an
  identity, resolve the assignment, try its candidates one after the other, back off. The
  loop is a machine: one turn of it is one round of the outer loop up to the candidates, or
  one candidate. What a turn meets (shutdown, clocks, network, the events of the session) is
  its input; what it does (sessions and pauses) is appended to a trace.
\<close>

section \<open>State and inputs\<close>

datatype phase =
    AtHead
  | AtTarget AgentIdentityState AssignmentCache RuntimeTargetSelector
  | InSession
  | Returned "error + unit"
  | Crashed

datatype action = RetryAssignment duration | StartSession string | Failover duration

record 'v agent_args =
  ag_libs :: "'v libs"
  ag_checks :: bool
  ag_config :: AppConfig
  ag_facts :: HostFacts

record connection =
  cn_fs :: fs
  cn_ledger :: CommandLedger
  cn_cache :: "AssignmentCache option"
  cn_backoff :: duration
  cn_phase :: phase
  cn_trace :: "action list"

text \<open>
  \<open>tu_interrupted\<close> says whether the shutdown comes before the end of the pause between two
  candidates.
\<close>

record 'o turn =
  tu_cancelled :: bool
  tu_openssl :: "'o openssl"
  tu_plane :: plane
  tu_resolve_now :: system_time
  tu_cache_now :: system_time
  tu_session_plane :: plane
  tu_telemetry_plane :: plane
  tu_session_now :: system_time
  tu_script :: "bool list"
  tu_early :: "heartbeat_event list"
  tu_events :: "session_event list"
  tu_jitter_now :: system_time
  tu_interrupted :: bool

section \<open>The loop\<close>

definition base_backoff :: "'v agent_args \<Rightarrow> duration" where
  "base_backoff A = ac_failover_base_backoff (cfg_agent (ag_config A))"

definition max_backoff :: "'v agent_args \<Rightarrow> duration" where
  "max_backoff A = ac_failover_max_backoff (cfg_agent (ag_config A))"

text \<open>\<open>backoff = (backoff * 2).min(config.agent.failover_max_backoff)\<close>, then the next round.\<close>

definition double_backoff :: "'v agent_args \<Rightarrow> connection \<Rightarrow> connection" where
  "double_backoff A c =
     (case dur_mul (cn_backoff c) 2 of
        Panic \<Rightarrow> c\<lparr>cn_phase := Crashed\<rparr>
      | Done d \<Rightarrow> c\<lparr>cn_backoff := min d (max_backoff A), cn_phase := AtHead\<rparr>)"

definition retry_assignment :: "'v agent_args \<Rightarrow> connection \<Rightarrow> connection" where
  "retry_assignment A c =
     double_backoff A (c\<lparr>cn_trace := cn_trace c @ [RetryAssignment (cn_backoff c)]\<rparr>)"

definition enter_assignment ::
  "'v agent_args \<Rightarrow> AgentIdentityState \<Rightarrow> AssignmentCache \<Rightarrow> connection \<Rightarrow> connection" where
  "enter_assignment A identity assignment c =
     c\<lparr>cn_cache := Some assignment,
       cn_phase := AtTarget identity assignment
         (selector_new (candidates assignment) (base_backoff A) (max_backoff A))\<rparr>"

definition head_turn :: "'v agent_args \<Rightarrow> 'o turn \<Rightarrow> connection \<Rightarrow> connection" where
  "head_turn A T c =
     (if tu_cancelled T then c\<lparr>cn_phase := Returned (Inr ())\<rparr>
      else case ensure_identity (tu_openssl T) (pl_net (tu_plane T)) (cfg_agent (ag_config A))
          (IdentityStore_new (cfg_agent (ag_config A))) (ag_facts A) (cn_fs c) of
        (Inl e, s) \<Rightarrow> c\<lparr>cn_fs := s, cn_phase := Returned (Inl e)\<rparr>
      | (Inr identity, s) \<Rightarrow>
          (let c = c\<lparr>cn_fs := s\<rparr> in
           case resolve_assignment (ag_checks A) (tu_plane T) (ag_config A) identity (ag_facts A)
               (cn_cache c) (tu_resolve_now T) of
             Panic \<Rightarrow> c\<lparr>cn_phase := Crashed\<rparr>
           | Done (Inr assignment) \<Rightarrow> enter_assignment A identity assignment c
           | Done (Inl err) \<Rightarrow>
               (case cn_cache c of
                  Some cache \<Rightarrow>
                    if tu_cache_now T < expires_at cache \<and> candidates cache \<noteq> []
                    then enter_assignment A identity cache c else retry_assignment A c
                | None \<Rightarrow> retry_assignment A c)))"

definition session_args_for ::
  "'v agent_args \<Rightarrow> AgentIdentityState \<Rightarrow> AssignmentCache \<Rightarrow> string \<Rightarrow> 'v session_args" where
  "session_args_for A identity assignment target =
     \<lparr>sa_libs = ag_libs A, sa_checks = ag_checks A, sa_config = ag_config A, sa_facts = ag_facts A,
      sa_identity = identity, sa_assignment = assignment, sa_target = target\<rparr>"

text \<open>The session a turn runs.\<close>

definition turn_session ::
  "'v agent_args \<Rightarrow> 'o turn \<Rightarrow> AgentIdentityState \<Rightarrow> AssignmentCache \<Rightarrow> string \<Rightarrow> CommandLedger
     \<Rightarrow> (error + unit) option \<times> session" where
  "turn_session A T identity assignment target l =
     run_session (session_args_for A identity assignment target) (tu_session_plane T)
       (tu_telemetry_plane T) (tu_session_now T) (tu_script T)
       (tu_early T) (tu_events T) l"

text \<open>
  A session that has not ended when its events are used up leaves the machine in
  \<open>InSession\<close>.
\<close>

definition target_turn ::
  "'v agent_args \<Rightarrow> 'o turn \<Rightarrow> AgentIdentityState \<Rightarrow> AssignmentCache \<Rightarrow> RuntimeTargetSelector
     \<Rightarrow> connection \<Rightarrow> connection" where
  "target_turn A T identity assignment selector c =
     (case selector_current selector of
        None \<Rightarrow> c\<lparr>cn_phase := AtHead\<rparr>
      | Some target \<Rightarrow>
     (case turn_session A T identity assignment target (cn_ledger c) of
        (outcome, se) \<Rightarrow>
          (let c = c\<lparr>cn_ledger := se_ledger se, cn_trace := cn_trace c @ [StartSession target]\<rparr> in
           case outcome of
             None \<Rightarrow> c\<lparr>cn_phase := InSession\<rparr>
           | Some (Inr _) \<Rightarrow> c\<lparr>cn_backoff := base_backoff A, cn_phase := AtHead\<rparr>
           | Some (Inl err) \<Rightarrow>
               if is_fatal_bootstrap_error err then c\<lparr>cn_phase := Returned (Inl err)\<rparr>
               else case failover_delay (tu_jitter_now T) selector of
                 Panic \<Rightarrow> c\<lparr>cn_phase := Crashed\<rparr>
               | Done delay \<Rightarrow>
              (let retry_in = max delay (cn_backoff c) in
               case selector_advance selector of
                 Panic \<Rightarrow> c\<lparr>cn_phase := Crashed\<rparr>
               | Done selector' \<Rightarrow>
                   if selector_current selector' = None
                   then double_backoff A (c\<lparr>cn_cache := None\<rparr>)
                   else if tu_interrupted T then c\<lparr>cn_phase := Returned (Inr ())\<rparr>
                   else c\<lparr>cn_trace := cn_trace c @ [Failover retry_in],
                          cn_phase := AtTarget identity assignment selector'\<rparr>))))"

fun connect_turn :: "'v agent_args \<Rightarrow> 'o turn \<Rightarrow> connection \<Rightarrow> connection" where
  "connect_turn A T c =
     (case cn_phase c of
        AtHead \<Rightarrow> head_turn A T c
      | AtTarget identity assignment selector \<Rightarrow> target_turn A T identity assignment selector c
      | _ \<Rightarrow> c)"

fun connect_run :: "'v agent_args \<Rightarrow> 'o turn list \<Rightarrow> connection \<Rightarrow> connection" where
  "connect_run A [] c = c"
| "connect_run A (T # Ts) c = connect_run A Ts (connect_turn A T c)"

text \<open>
  \<open>connect_hypervisor\<close> from its start: the ledger is opened on the table in its file; the
  facts of the host are an argument.
\<close>

definition connect_hypervisor ::
  "'v agent_args \<Rightarrow> error option list \<Rightarrow> CommandLedger \<Rightarrow> int \<Rightarrow> fs \<Rightarrow> 'o turn list \<Rightarrow> connection" where
  "connect_hypervisor A open_faults ledger_file now s Ts =
     (let c = \<lparr>cn_fs = s, cn_ledger = ledger_file, cn_cache = None, cn_backoff = base_backoff A,
               cn_phase = AtHead, cn_trace = []\<rparr> in
      case ledger_open (ac_command_ledger_path (cfg_agent (ag_config A))) open_faults ledger_file now of
        Inl e \<Rightarrow> c\<lparr>cn_phase := Returned (Inl e)\<rparr>
      | Inr l \<Rightarrow> connect_run A Ts (c\<lparr>cn_ledger := l\<rparr>))"

section \<open>The invariant of the backoff\<close>

text \<open>What \<open>load_from_env\<close> guarantees of the two backoff settings.\<close>

definition backoff_config :: "'v agent_args \<Rightarrow> bool" where
  "backoff_config A \<longleftrightarrow> base_backoff A \<le> max_backoff A \<and> max_backoff A \<le> from_millis (2 ^ 64 - 1)"

definition pause_ok :: "'v agent_args \<Rightarrow> action \<Rightarrow> bool" where
  "pause_ok A x = (case x of
     RetryAssignment d \<Rightarrow> base_backoff A \<le> d \<and> d \<le> max_backoff A
   | Failover d \<Rightarrow> base_backoff A \<le> d \<and> d < max_backoff A + max (max_backoff A div 5) nanos_per_milli
   | StartSession t \<Rightarrow> True)"

definition connection_ok :: "'v agent_args \<Rightarrow> connection \<Rightarrow> bool" where
  "connection_ok A c \<longleftrightarrow> base_backoff A \<le> cn_backoff c \<and> cn_backoff c \<le> max_backoff A
     \<and> (\<forall>x\<in>set (cn_trace c). pause_ok A x)
     \<and> (case cn_phase c of AtTarget i a s \<Rightarrow> selector_ok s \<and> sel_base_backoff s = base_backoff A
          \<and> sel_max_backoff s = max_backoff A | _ \<Rightarrow> True)"

lemma max_doubles: "backoff_config A \<Longrightarrow> 2 * max_backoff A \<le> dur_max"
  by (simp add: backoff_config_def time_simps)

lemma double_backoff_eq:
  assumes "backoff_config A" and "cn_backoff c \<le> max_backoff A"
  shows "double_backoff A c = c\<lparr>cn_backoff := min (2 * cn_backoff c) (max_backoff A), cn_phase := AtHead\<rparr>"
  using assms max_doubles [OF assms(1)] by (simp add: double_backoff_def dur_mul_def mult.commute)

lemma double_backoff_ok:
  assumes "backoff_config A" and "base_backoff A \<le> cn_backoff c" and "cn_backoff c \<le> max_backoff A"
    and "\<forall>x\<in>set (cn_trace c). pause_ok A x"
  shows "connection_ok A (double_backoff A c)"
  using assms by (auto simp: double_backoff_eq connection_ok_def backoff_config_def)

lemma enter_assignment_ok:
  assumes "backoff_config A" and "connection_ok A c"
  shows "connection_ok A (enter_assignment A i a c)"
proof -
  have "selector_ok (selector_new (candidates a) (base_backoff A) (max_backoff A))"
    using assms(1) max_doubles [OF assms(1)] by (intro selector_new_ok) (simp_all add: backoff_config_def)
  then show ?thesis using assms(2) by (simp add: connection_ok_def enter_assignment_def) (simp add: selector_new_def)
qed

lemma head_turn_ok:
  assumes "backoff_config A" and "connection_ok A c" and "cn_phase c = AtHead"
  shows "connection_ok A (head_turn A T c)"
proof -
  have retry: "connection_ok A (retry_assignment A (c\<lparr>cn_fs := s\<rparr>))" for s
    unfolding retry_assignment_def using assms
    by (intro double_backoff_ok) (auto simp: connection_ok_def pause_ok_def)
  have enter: "connection_ok A (enter_assignment A i a (c\<lparr>cn_fs := s\<rparr>))" for i a s
    using assms by (intro enter_assignment_ok) (auto simp: connection_ok_def)
  show ?thesis
    using assms retry enter
    by (auto simp: head_turn_def Let_def connection_ok_def
        split: prod.splits sum.splits exec.splits option.splits)
qed

text \<open>
  A pause after a candidate whose backoff is \<open>lo\<close>: that backoff with less than a fifth of
  it (or a millisecond) of jitter, or the loop's own backoff \<open>b\<close> where that is longer.
\<close>

definition between :: "duration \<Rightarrow> duration \<Rightarrow> duration \<Rightarrow> bool" where
  "between lo b d \<longleftrightarrow> lo \<le> d \<and> b \<le> d \<and> (d = b \<or> d < lo + max (lo div 5) nanos_per_milli)"

lemma failover_pause_ok:
  assumes "backoff_config A" and "selector_ok s" and "sel_base_backoff s = base_backoff A"
    and "sel_max_backoff s = max_backoff A" and "cn_backoff c \<le> max_backoff A"
  shows "\<exists>d. failover_delay now s = Done d \<and> pause_ok A (Failover (max d (cn_backoff c)))
    \<and> between (sel_backoff s) (cn_backoff c) (max d (cn_backoff c))"
proof -
  have b: "base_backoff A \<le> sel_backoff s" "sel_backoff s \<le> max_backoff A"
    using assms by (auto simp: selector_ok_def)
  then have "sel_backoff s \<le> from_millis (2 ^ 64 - 1)"
    using assms(1) unfolding backoff_config_def by linarith
  then obtain d where d: "failover_delay now s = Done d" "sel_backoff s \<le> d"
    "d < sel_backoff s + max (sel_backoff s div 5) nanos_per_milli"
    using failover_delay_bounds by blast
  have "sel_backoff s div 5 \<le> max_backoff A div 5" using b(2) by (rule div_le_mono)
  then have "d < max_backoff A + max (max_backoff A div 5) nanos_per_milli" using d(3) b(2) by linarith
  moreover have "cn_backoff c < max_backoff A + max (max_backoff A div 5) nanos_per_milli"
    using assms(5) by (simp add: nanos_per_milli_def less_max_iff_disj)
  moreover have "between (sel_backoff s) (cn_backoff c) (max d (cn_backoff c))"
    using d(2,3) by (auto simp: between_def max_def)
  ultimately show ?thesis using d b by (auto simp: pause_ok_def)
qed

text \<open>A turn whose session fails, but not fatally.\<close>

lemma target_turn_failed:
  assumes "backoff_config A" and "connection_ok A c" and "cn_phase c = AtTarget i a s"
    and "selector_remaining s = t # ts"
    and "turn_session A T i a t (cn_ledger c) = (Some (Inl err), se)"
    and "\<not> is_fatal_bootstrap_error err"
  obtains (exhausted) "ts = []"
      "target_turn A T i a s c = c\<lparr>cn_ledger := se_ledger se, cn_trace := cn_trace c @ [StartSession t],
         cn_cache := None, cn_backoff := min (2 * cn_backoff c) (max_backoff A), cn_phase := AtHead\<rparr>"
  | (stopped) "ts \<noteq> []" "tu_interrupted T"
      "target_turn A T i a s c = c\<lparr>cn_ledger := se_ledger se, cn_trace := cn_trace c @ [StartSession t],
         cn_phase := Returned (Inr ())\<rparr>"
  | (rotated) s' d where "ts \<noteq> []" "\<not> tu_interrupted T" "pause_ok A (Failover d)"
      "selector_ok s'" "selector_remaining s' = ts" "sel_base_backoff s' = base_backoff A"
      "sel_max_backoff s' = max_backoff A"
      "target_turn A T i a s c = c\<lparr>cn_ledger := se_ledger se,
         cn_trace := cn_trace c @ [StartSession t, Failover d], cn_phase := AtTarget i a s'\<rparr>"
      "between (sel_backoff s) (cn_backoff c) d" "sel_backoff s' = min (2 * sel_backoff s) (max_backoff A)"
proof -
  have s: "selector_ok s" "sel_base_backoff s = base_backoff A" "sel_max_backoff s = max_backoff A"
    and c: "cn_backoff c \<le> max_backoff A"
    using assms(2,3) by (auto simp: connection_ok_def)
  have cur: "selector_current s = Some t" using sel.current_Some [OF s(1)] assms(4) by blast
  obtain d where d: "failover_delay (tu_jitter_now T) s = Done d" "pause_ok A (Failover (max d (cn_backoff c)))"
    "between (sel_backoff s) (cn_backoff c) (max d (cn_backoff c))"
    using failover_pause_ok [OF assms(1) s c] by blast
  obtain s' where s': "selector_advance s = Done s'" "selector_ok s'" "selector_remaining s' = ts"
    "sel_base_backoff s' = base_backoff A" "sel_max_backoff s' = max_backoff A"
    "sel_backoff s' = (if length (selector_remaining s) = 1 then sel_backoff s
       else min (2 * sel_backoff s) (sel_max_backoff s))"
    using selector_advance_ok [OF s(1)] s assms(4) by (metis list.sel(3))
  have none: "selector_current s' = None \<longleftrightarrow> ts = []" using sel.current_None [OF s'(2)] s'(3) by simp
  note step = target_turn_def cur assms(5,6) d(1) s'(1) none Let_def
  consider "ts = []" | "ts \<noteq> []" "tu_interrupted T" | "ts \<noteq> []" "\<not> tu_interrupted T" by blast
  then show ?thesis
  proof cases
    case 1
    with c show ?thesis
      by (intro exhausted) (simp_all add: step double_backoff_eq [OF assms(1)])
  next
    case 2
    then show ?thesis by (intro stopped) (simp_all add: step)
  next
    case 3
    with d s' s(3) assms(4) show ?thesis by (intro rotated) (simp_all add: step)
  qed
qed

lemma target_turn_ok:
  assumes "backoff_config A" and "connection_ok A c" and "cn_phase c = AtTarget i a s"
  shows "connection_ok A (target_turn A T i a s c)"
proof -
  have s: "selector_ok s" using assms(2,3) by (simp add: connection_ok_def)
  show ?thesis
  proof (cases "selector_remaining s")
    case Nil
    then have "selector_current s = None" using sel.current_None [OF s] by simp
    with assms(2) show ?thesis by (simp add: target_turn_def connection_ok_def)
  next
    case (Cons t ts)
    then have cur: "selector_current s = Some t" using sel.current_Some [OF s] by blast
    obtain q se where run: "turn_session A T i a t (cn_ledger c) = (q, se)" by (meson surj_pair)
    consider "q = None" | "q = Some (Inr ())" | e where "q = Some (Inl e)" "is_fatal_bootstrap_error e"
      | e where "q = Some (Inl e)" "\<not> is_fatal_bootstrap_error e"
      by (cases q; cases "the q") auto
    then show ?thesis
    proof cases
      case 4
      show ?thesis
      proof (cases rule: target_turn_failed [OF assms Cons run [unfolded 4(1)] 4(2),
            case_names exhausted stopped rotated])
        case exhausted
        with assms(1,2) show ?thesis by (auto simp: connection_ok_def pause_ok_def backoff_config_def)
      next
        case stopped
        with assms(2) show ?thesis by (auto simp: connection_ok_def pause_ok_def)
      next
        case (rotated s' d)
        with assms(2) show ?thesis by (auto simp: connection_ok_def pause_ok_def)
      qed
    qed (use assms(1,2) cur run in \<open>auto simp: target_turn_def connection_ok_def pause_ok_def backoff_config_def\<close>)
  qed
qed

lemma connect_turn_ok:
  assumes "backoff_config A" and "connection_ok A c"
  shows "connection_ok A (connect_turn A T c)"
  using assms head_turn_ok [OF assms, of T] target_turn_ok [OF assms, of _ _ _ T]
  by (auto split: phase.splits)

lemma connect_run_ok:
  "backoff_config A \<Longrightarrow> connection_ok A c \<Longrightarrow> connection_ok A (connect_run A Ts c)"
  by (induction Ts arbitrary: c) (auto simp del: connect_turn.simps intro: connect_turn_ok)

lemma connection_start_ok:
  assumes "backoff_config A"
  shows "connection_ok A (connect_hypervisor A fs f now s Ts)"
  using assms
  by (auto simp: connect_hypervisor_def Let_def backoff_config_def connection_ok_def
      split: sum.splits intro!: connect_run_ok [unfolded connection_ok_def backoff_config_def])

lemma loaded_backoff_config:
  "load_from_env env = Inr (ag_config A) \<Longrightarrow> backoff_config A \<and> 0 < base_backoff A"
  using loaded_backoff by (simp add: backoff_config_def base_backoff_def max_backoff_def)

section \<open>Properties\<close>

text \<open>
  C11. Bounded pauses: under a configuration that loaded, whatever the loop meets, every pause
  before asking for the assignment again is between the two backoff settings, every pause
  between two candidates at least the lower one and below the upper one plus a fifth of it
  (or a millisecond), and none of them is zero.
\<close>

theorem connection_pauses_bounded:
  assumes "load_from_env env = Inr (ag_config A)"
    and "connect_hypervisor A open_faults f now s Ts = c"
  shows "(\<forall>d. RetryAssignment d \<in> set (cn_trace c) \<longrightarrow> 0 < d \<and> base_backoff A \<le> d \<and> d \<le> max_backoff A)
    \<and> (\<forall>d. Failover d \<in> set (cn_trace c) \<longrightarrow> 0 < d \<and> base_backoff A \<le> d
         \<and> d < max_backoff A + max (max_backoff A div 5) nanos_per_milli)"
proof -
  have b: "backoff_config A" "0 < base_backoff A" using loaded_backoff_config [OF assms(1)] by simp_all
  have "connection_ok A c" using connection_start_ok [OF b(1)] assms(2) by blast
  with b(2) show ?thesis by (fastforce simp: connection_ok_def pause_ok_def)
qed

definition default_config :: AppConfig where
  "default_config = (case load_from_env demo_env of Inr c \<Rightarrow> c | Inl e \<Rightarrow> demo_config)"

lemma default_config_loads: "load_from_env demo_env = Inr default_config"
proof -
  have "\<exists>n>0. env_number demo_env ''WORKER_MAX'' ''4'' = Some n" "\<exists>a. load_app demo_env = Inr a"
      "\<exists>a. load_agent demo_env = Inr a"
    unfolding load_app_Inr load_agent_eq
    by (simp_all add: demo_env_def env_number_def optional_env_def unwrap_or_def text_simps)
  then have "\<exists>c. load_from_env demo_env = Inr c"
    by (auto simp: load_from_env_def Let_def GrpcConfig_validate_def setting_nonblank env_u64_Inr
        WorkerConfig_validate_def env_number_def)
  then show ?thesis by (auto simp: default_config_def)
qed

definition demo_agent_args :: "AppConfig \<Rightarrow> string agent_args" where
  "demo_agent_args cfg = \<lparr>ag_libs = demo_libs, ag_checks = True, ag_config = cfg, ag_facts = demo_facts\<rparr>"

text \<open>A turn in which the network is \<open>P\<close> and the session's events are \<open>es\<close>.\<close>

definition demo_turn :: "bool \<Rightarrow> plane \<Rightarrow> session_event list \<Rightarrow> string turn" where
  "demo_turn cancelled P es = \<lparr>tu_cancelled = cancelled, tu_openssl = demo_openssl, tu_plane = demo_plane 1,
     tu_resolve_now = 0, tu_cache_now = 0, tu_session_plane = P, tu_telemetry_plane = P,
     tu_session_now = 0, tu_script = [], tu_early = [], tu_events = es, tu_jitter_now = 0, tu_interrupted = False\<rparr>"

theorem connection_pauses_bounded_witness:
  "RetryAssignment 0 \<notin> set (cn_trace (connect_hypervisor (demo_agent_args default_config) [] empty_ledger 0 demo_fs
      [demo_turn False broken_plane [], demo_turn False broken_plane []]))"
proof -
  have "load_from_env demo_env = Inr (ag_config (demo_agent_args default_config))"
    using default_config_loads by (simp add: demo_agent_args_def)
  from connection_pauses_bounded [OF this refl] show ?thesis by blast
qed

section \<open>The loop does not crash\<close>

text \<open>
  The control plane asks for a refresh in at most \<open>2 ^ 61\<close> seconds and the clock stands
  between the epoch and \<open>2 ^ 62\<close> seconds.
\<close>

definition sane_turn :: "'o turn \<Rightarrow> bool" where
  "sane_turn T \<longleftrightarrow> 0 \<le> tu_resolve_now T \<and> tu_resolve_now T div int nanos_per_sec < 2 ^ 62
     \<and> (\<forall>ch rq r. pl_resolve (tu_plane T) ch rq = Inr r \<longrightarrow> rs_refresh_after_sec r \<le> 2 ^ 61)"

lemma sane_resolve:
  assumes "sane_turn T"
  shows "resolve_assignment checks (tu_plane T) cfg i facts cur (tu_resolve_now T) \<noteq> Panic"
proof (cases "build_mtls_channel_for_controlplane (pl_net (tu_plane T)) (cfg_agent cfg) i")
  case (Inr ch)
  show ?thesis
  proof (cases "pl_resolve (tu_plane T) ch
         \<lparr>rr_agent_id = agent_id facts, rr_host_id = host_id facts, rr_zone_id = app_zone_id (cfg_app cfg),
          rr_last_assignment_epoch = (case cur of None \<Rightarrow> 0 | Some a \<Rightarrow> assignment_epoch a),
          rr_current_dp_id = (case cur of None \<Rightarrow> [] | Some a \<Rightarrow> preferred_dp_id a)\<rparr>")
    case (Inr r)
    let ?secs = "max (rs_refresh_after_sec r) 5"
    have secs: "5 \<le> ?secs" "?secs \<le> 2 ^ 61" using assms Inr by (auto simp: sane_turn_def)
    have "clock_ok (tu_resolve_now T)" "tu_resolve_now T div int nanos_per_sec + 2 * ?secs < 2 ^ 63"
      using assms secs by (auto simp: sane_turn_def clock_ok_def)
    then obtain t u where "i64_mul checks ?secs 2 = Done t"
        "systime_add (tu_resolve_now T) (from_secs (i64_as_u64 t)) = Done u"
      using expiry_arith [of "tu_resolve_now T" ?secs checks] secs by auto
    with Inr \<open>build_mtls_channel_for_controlplane _ _ _ = _\<close> show ?thesis
      by (simp add: resolve_assignment_def Let_def)
  next
    case (Inl e)
    with \<open>build_mtls_channel_for_controlplane _ _ _ = _\<close> show ?thesis by (simp add: resolve_assignment_def)
  qed
qed (simp add: resolve_assignment_def)

lemma head_turn_no_crash:
  assumes "backoff_config A" and "connection_ok A c" and "cn_phase c = AtHead" and "sane_turn T"
  shows "cn_phase (head_turn A T c) \<noteq> Crashed"
proof -
  have "cn_phase (retry_assignment A (c\<lparr>cn_fs := s\<rparr>)) = AtHead" for s
    using assms(1,2) by (simp add: retry_assignment_def double_backoff_eq connection_ok_def)
  moreover have np: "resolve_assignment checks (tu_plane T) cfg i facts cur (tu_resolve_now T) = Panic \<Longrightarrow> False"
    for checks cfg i facts cur using sane_resolve [OF assms(4)] by blast
  ultimately show ?thesis
    using assms(3)
    by (auto simp: head_turn_def Let_def enter_assignment_def dest: np
        split: prod.splits sum.splits exec.splits option.splits)
qed

lemma target_turn_no_crash:
  assumes "backoff_config A" and "connection_ok A c" and "cn_phase c = AtTarget i a s"
  shows "cn_phase (target_turn A T i a s c) \<noteq> Crashed"
proof -
  have s: "selector_ok s" using assms(2,3) by (simp add: connection_ok_def)
  show ?thesis
  proof (cases "selector_remaining s")
    case Nil
    then have "selector_current s = None" using sel.current_None [OF s] by simp
    then show ?thesis by (simp add: target_turn_def)
  next
    case (Cons t ts)
    then have cur: "selector_current s = Some t" using sel.current_Some [OF s] by blast
    obtain q se where run: "turn_session A T i a t (cn_ledger c) = (q, se)" by (meson surj_pair)
    show ?thesis
    proof (cases "\<exists>e. q = Some (Inl e) \<and> \<not> is_fatal_bootstrap_error e")
      case True
      then obtain e where e: "turn_session A T i a t (cn_ledger c) = (Some (Inl e), se)"
        "\<not> is_fatal_bootstrap_error e" using run by blast
      show ?thesis
        by (rule target_turn_failed [OF assms Cons e]) simp_all
    next
      case False
      then show ?thesis
        using cur run by (auto simp: target_turn_def Let_def split: option.splits sum.splits)
    qed
  qed
qed

lemma connect_run_no_crash:
  assumes "backoff_config A" and "connection_ok A c" and "cn_phase c \<noteq> Crashed" and "\<forall>T\<in>set Ts. sane_turn T"
  shows "cn_phase (connect_run A Ts c) \<noteq> Crashed"
  using assms
proof (induction Ts arbitrary: c)
  case (Cons T Ts)
  have "cn_phase (connect_turn A T c) \<noteq> Crashed"
    using Cons.prems head_turn_no_crash [of A c T] target_turn_no_crash [of A c _ _ _ T]
    by (auto split: phase.splits)
  with Cons connect_turn_ok [of A c T] show ?case by (simp del: connect_turn.simps)
qed simp

text \<open>
  C12. No panic: under a configuration that loaded, the arithmetic of the loop (doubling the
  backoff, the jitter, the expiry of an assignment) panics on no run in which the clock and
  the refresh interval the control plane asks for are sane.
\<close>

theorem connection_never_crashes:
  assumes "load_from_env env = Inr (ag_config A)" and "\<forall>T\<in>set Ts. sane_turn T"
  shows "cn_phase (connect_hypervisor A open_faults f now s Ts) \<noteq> Crashed"
proof -
  have b: "backoff_config A" using loaded_backoff_config [OF assms(1)] by simp
  have ok: "connection_ok A \<lparr>cn_fs = s, cn_ledger = l, cn_cache = None, cn_backoff = base_backoff A,
      cn_phase = AtHead, cn_trace = []\<rparr>" for l
    using b by (simp add: connection_ok_def backoff_config_def)
  show ?thesis
    using connect_run_no_crash [OF b ok _ assms(2)]
    by (auto simp: connect_hypervisor_def Let_def split: sum.splits)
qed

theorem connection_never_crashes_witness:
  "cn_phase (connect_hypervisor (demo_agent_args default_config) [] empty_ledger 0 demo_fs
      [demo_turn False broken_plane [], demo_turn False broken_plane []]) \<noteq> Crashed"
proof -
  have "load_from_env demo_env = Inr (ag_config (demo_agent_args default_config))"
    using default_config_loads by (simp add: demo_agent_args_def)
  moreover have "sane_turn (demo_turn False broken_plane [])"
    by (simp add: sane_turn_def demo_turn_def demo_plane_def nanos_per_sec_def)
  ultimately show ?thesis by (intro connection_never_crashes) simp_all
qed

section \<open>Candidates and failures\<close>

definition sessions_of :: "action list \<Rightarrow> string list" where
  "sessions_of xs = List.map_filter (\<lambda>x. case x of StartSession t \<Rightarrow> Some t | _ \<Rightarrow> None) xs"

lemma sessions_of_simps [simp]:
  "sessions_of [] = []" "sessions_of (StartSession t # xs) = t # sessions_of xs"
  "sessions_of (Failover d # xs) = sessions_of xs" "sessions_of (RetryAssignment d # xs) = sessions_of xs"
  "sessions_of (xs @ ys) = sessions_of xs @ sessions_of ys"
  by (simp_all add: sessions_of_def map_filter_def)

text \<open>A turn in which every session of the assignment fails, and not fatally.\<close>

definition fails :: "'v agent_args \<Rightarrow> AgentIdentityState \<Rightarrow> AssignmentCache \<Rightarrow> 'o turn \<Rightarrow> bool" where
  "fails A i a T \<longleftrightarrow> \<not> tu_interrupted T
     \<and> (\<forall>t l. \<exists>err se. turn_session A T i a t l = (Some (Inl err), se) \<and> \<not> is_fatal_bootstrap_error err)"

text \<open>
  The trace of a round over the candidates \<open>t # ts\<close> with the pauses \<open>ds\<close>: a session, then a pause
  and a session for each further candidate.
\<close>

definition round_trace :: "string \<Rightarrow> string list \<Rightarrow> duration list \<Rightarrow> action list" where
  "round_trace t ts ds = StartSession t # concat (map (\<lambda>(d, u). [Failover d, StartSession u]) (zip ds ts))"

lemma min_doubles: "min (min (2 * b) m * 2 ^ k) m = min (b * 2 ^ Suc k) (m :: nat)"
proof (cases "2 * b \<le> m")
  case True
  then show ?thesis by (simp add: min_absorb1 mult.assoc mult.left_commute)
next
  case False
  have "m * 1 \<le> m * 2 ^ k" by (intro mult_le_mono) simp_all
  moreover have "m * 1 \<le> 2 * b * 2 ^ k" using False by (intro mult_le_mono) simp_all
  ultimately show ?thesis using False by (simp add: mult.assoc mult.left_commute)
qed

lemma failing_round:
  assumes "backoff_config A" and "connection_ok A c" and "cn_phase c = AtTarget i a s"
    and "selector_remaining s = t # ts" and "length Ts = Suc (length ts)" and "\<forall>T\<in>set Ts. fails A i a T"
  shows "cn_phase (connect_run A Ts c) = AtHead \<and> cn_cache (connect_run A Ts c) = None
    \<and> cn_backoff (connect_run A Ts c) = min (2 * cn_backoff c) (max_backoff A)
    \<and> (\<exists>ds. length ds = length ts \<and> cn_trace (connect_run A Ts c) = cn_trace c @ round_trace t ts ds
         \<and> (\<forall>k<length ds. between (min (sel_backoff s * 2 ^ k) (max_backoff A)) (cn_backoff c) (ds ! k)))"
  using assms(2-6)
proof (induction ts arbitrary: t c s Ts)
  case (Nil t)
  then obtain T where Ts: "Ts = [T]" by (cases Ts) auto
  then have "fails A i a T" using Nil.prems(5) by simp
  then obtain err se where run: "turn_session A T i a t (cn_ledger c) = (Some (Inl err), se)"
      "\<not> is_fatal_bootstrap_error err"
    unfolding fails_def by blast
  show ?case
    by (rule target_turn_failed [OF assms(1) Nil.prems(1,2,3) run])
       (use Ts Nil.prems(2) in \<open>simp_all add: round_trace_def\<close>)
next
  case (Cons u us)
  then obtain T Ts' where Ts: "Ts = T # Ts'" "length Ts' = Suc (length us)" by (cases Ts) auto
  have "fails A i a T" using Cons.prems(5) Ts by simp
  then obtain err se where run: "turn_session A T i a t (cn_ledger c) = (Some (Inl err), se)"
      "\<not> is_fatal_bootstrap_error err" and ni: "\<not> tu_interrupted T"
    unfolding fails_def by blast
  have step: "connect_run A Ts c = connect_run A Ts' (target_turn A T i a s c)"
    using Ts Cons.prems(2) by simp
  have le: "sel_backoff s \<le> max_backoff A"
    using Cons.prems(1,2) by (auto simp: connection_ok_def selector_ok_def)
  show ?case
  proof (cases rule: target_turn_failed [OF assms(1) Cons.prems(1,2,3) run,
        case_names exhausted stopped rotated])
    case (rotated s' d)
    let ?c = "target_turn A T i a s c"
    have ok: "connection_ok A ?c" using assms(1) Cons.prems(1,2) by (rule target_turn_ok)
    have ph: "cn_phase ?c = AtTarget i a s'" "cn_trace ?c = cn_trace c @ [StartSession t, Failover d]"
      "cn_backoff ?c = cn_backoff c"
      using rotated by simp_all
    have "\<forall>T\<in>set Ts'. fails A i a T" using Cons.prems(5) Ts by simp
    from Cons.IH [OF ok ph(1) rotated(5) Ts(2) this] obtain ds where
      end1: "cn_phase (connect_run A Ts c) = AtHead" "cn_cache (connect_run A Ts c) = None"
        "cn_backoff (connect_run A Ts c) = min (2 * cn_backoff c) (max_backoff A)" and
      ds: "length ds = length us" "cn_trace (connect_run A Ts c) = cn_trace ?c @ round_trace u us ds"
        "\<forall>k<length ds. between (min (sel_backoff s' * 2 ^ k) (max_backoff A)) (cn_backoff c) (ds ! k)"
      unfolding step ph(3) by blast
    have "\<forall>k<length (d # ds). between (min (sel_backoff s * 2 ^ k) (max_backoff A)) (cn_backoff c) ((d # ds) ! k)"
      using ds(3) rotated(9,10) le by (auto simp: less_Suc_eq_0_disj min_absorb1 min_doubles)
    moreover have "cn_trace (connect_run A Ts c) = cn_trace c @ round_trace t (u # us) (d # ds)"
      using ds(2) ph(2) by (simp add: round_trace_def)
    ultimately show ?thesis using end1 ds(1) by (intro conjI exI [of _ "d # ds"]) simp_all
  qed (use ni in simp_all)
qed

text \<open>
  C10. Every candidate is tried: where all the sessions of an assignment fail without a fatal
  error and no shutdown comes, the loop starts one session with each candidate, in the order
  the assignment lists them, with one pause between each two of them and none after the last;
  the \<open>k\<close>-th pause is the base backoff doubled \<open>k\<close> times, cut off at its bound, with its
  jitter, or the loop's own backoff where that is longer. Then the loop drops the assignment,
  doubles its backoff up to the bound and is at its head again.
\<close>

theorem all_candidates_tried:
  assumes "load_from_env env = Inr (ag_config A)" and "connection_ok A c"
    and "cn_phase c = AtTarget i a (selector_new (candidates a) (base_backoff A) (max_backoff A))"
    and "candidates a = t # ts" and "length Ts = Suc (length ts)" and "\<forall>T\<in>set Ts. fails A i a T"
  shows "cn_phase (connect_run A Ts c) = AtHead \<and> cn_cache (connect_run A Ts c) = None
    \<and> cn_backoff (connect_run A Ts c) = min (2 * cn_backoff c) (max_backoff A)
    \<and> (\<exists>ds. length ds = length ts
         \<and> cn_trace (connect_run A Ts c)
             = cn_trace c @ StartSession t # concat (map (\<lambda>(d, u). [Failover d, StartSession u]) (zip ds ts))
         \<and> (\<forall>k<length ds. between (min (base_backoff A * 2 ^ k) (max_backoff A)) (cn_backoff c) (ds ! k)))"
proof -
  have b: "backoff_config A" using loaded_backoff_config [OF assms(1)] by simp
  have r: "selector_remaining (selector_new (candidates a) (base_backoff A) (max_backoff A)) = t # ts"
    using assms(4) by simp
  have "sel_backoff (selector_new (candidates a) (base_backoff A) (max_backoff A)) = base_backoff A"
    by (simp add: selector_new_def)
  with failing_round [OF b assms(2,3) r assms(5,6)] show ?thesis by (simp add: round_trace_def)
qed

definition demo_connection :: "AssignmentCache \<Rightarrow> connection" where
  "demo_connection a = \<lparr>cn_fs = demo_fs, cn_ledger = empty_ledger, cn_cache = Some a,
     cn_backoff = base_backoff (demo_agent_args default_config),
     cn_phase = AtTarget demo_identity a (selector_new (candidates a)
        (base_backoff (demo_agent_args default_config)) (max_backoff (demo_agent_args default_config))),
     cn_trace = []\<rparr>"

lemma demo_connection_ok: "connection_ok (demo_agent_args default_config) (demo_connection a)"
proof -
  have b: "backoff_config (demo_agent_args default_config)"
    using loaded_backoff_config [of demo_env "demo_agent_args default_config"] default_config_loads
    by (simp add: demo_agent_args_def)
  have "selector_ok (selector_new (candidates a) (base_backoff (demo_agent_args default_config))
      (max_backoff (demo_agent_args default_config)))"
    using b max_doubles [OF b] by (intro selector_new_ok) (simp_all add: backoff_config_def)
  with b show ?thesis
    by (simp add: connection_ok_def demo_connection_def backoff_config_def) (simp add: selector_new_def)
qed

lemma broken_plane_fails: "fails (demo_agent_args cfg) demo_identity a (demo_turn False broken_plane es)"
  by (auto simp: fails_def demo_turn_def turn_session_def run_session_def Let_def session_args_for_def
      broken_plane_def demo_net_def demo_identity_def build_mtls_channel_for_target_def
      is_fatal_bootstrap_error_def)

theorem all_candidates_tried_witness:
  "\<exists>d. cn_trace (connect_run (demo_agent_args default_config)
      [demo_turn False broken_plane [], demo_turn False broken_plane []]
      (demo_connection (demo_assignment\<lparr>candidates := [''a:1'', ''b:1'']\<rparr>)))
    = [StartSession ''a:1'', Failover d, StartSession ''b:1''] \<and> base_backoff (demo_agent_args default_config) \<le> d"
proof -
  let ?A = "demo_agent_args default_config" and ?a = "demo_assignment\<lparr>candidates := [''a:1'', ''b:1'']\<rparr>"
  let ?Ts = "[demo_turn False broken_plane [], demo_turn False broken_plane []]"
  have load: "load_from_env demo_env = Inr (ag_config ?A)"
    using default_config_loads by (simp add: demo_agent_args_def)
  then have "base_backoff ?A \<le> max_backoff ?A"
    using loaded_backoff_config [OF load] by (simp add: backoff_config_def)
  moreover obtain ds where "length ds = 1"
      "cn_trace (connect_run ?A ?Ts (demo_connection ?a)) = cn_trace (demo_connection ?a)
         @ StartSession ''a:1'' # concat (map (\<lambda>(d, u). [Failover d, StartSession u]) (zip ds [''b:1'']))"
      "\<forall>k<length ds. between (min (base_backoff ?A * 2 ^ k) (max_backoff ?A)) (cn_backoff (demo_connection ?a)) (ds ! k)"
    using all_candidates_tried [OF load demo_connection_ok, of ?a demo_identity ?a "''a:1''" "[''b:1'']" ?Ts]
      broken_plane_fails by (auto simp: demo_connection_def)
  ultimately show ?thesis by (cases ds) (auto simp: demo_connection_def between_def)
qed

text \<open>
  No pause after the last candidate: where the assignment has one candidate and its
  session fails, however often, the loop goes back to the assignment at once, without a
  pause; what it computes as the next retry is not used.
\<close>

lemma single_candidate_never_pauses:
  assumes "load_from_env env = Inr (ag_config A)" and "connection_ok A c"
    and "cn_phase c = AtTarget i a (selector_new [t] (base_backoff A) (max_backoff A))"
    and "fails A i a T"
  shows "cn_phase (connect_turn A T c) = AtHead
    \<and> cn_trace (connect_turn A T c) = cn_trace c @ [StartSession t]
    \<and> cn_backoff (connect_turn A T c) = min (2 * cn_backoff c) (max_backoff A)"
proof -
  have b: "backoff_config A" using loaded_backoff_config [OF assms(1)] by simp
  obtain err se where run: "turn_session A T i a t (cn_ledger c) = (Some (Inl err), se)"
      "\<not> is_fatal_bootstrap_error err"
    using assms(4) unfolding fails_def by blast
  show ?thesis
    by (rule target_turn_failed [OF b assms(2,3) selector_new_remaining run]) (use assms(3) in simp_all)
qed

lemma single_candidate_never_pauses_example:
  "cn_trace (connect_turn (demo_agent_args default_config) (demo_turn False broken_plane [])
      (demo_connection demo_assignment)) = [StartSession ''dp:1'']"
proof -
  have c: "cn_phase (demo_connection demo_assignment) = AtTarget demo_identity demo_assignment
      (selector_new [''dp:1''] (base_backoff (demo_agent_args default_config)) (max_backoff (demo_agent_args default_config)))"
    by (simp add: demo_connection_def demo_assignment_def)
  have l: "load_from_env demo_env = Inr (ag_config (demo_agent_args default_config))"
    using default_config_loads by (simp add: demo_agent_args_def)
  have "cn_trace (demo_connection demo_assignment) = []" by (simp add: demo_connection_def)
  with single_candidate_never_pauses [OF l demo_connection_ok c broken_plane_fails, of "[]"]
  show ?thesis by simp
qed

text \<open>
  A failed enrollment ends the agent: when \<open>ensure_identity\<close> fails, for whatever reason,
  a transient one included, the loop returns that error and asks no more; only an error of
  a session is checked for being fatal.
\<close>

lemma enrollment_failure_ends_agent:
  assumes "cn_phase c = AtHead" and "\<not> tu_cancelled T"
    and "ensure_identity (tu_openssl T) (pl_net (tu_plane T)) (cfg_agent (ag_config A))
       (IdentityStore_new (cfg_agent (ag_config A))) (ag_facts A) (cn_fs c) = (Inl e, s)"
  shows "cn_phase (connect_run A (T # Ts) c) = Returned (Inl e) \<and> cn_trace (connect_run A (T # Ts) c) = cn_trace c"
proof -
  have stay: "cn_phase c' = Returned r \<Longrightarrow> connect_run A Ts c' = c'" for c' r
    by (induction Ts) simp_all
  have "head_turn A T c = c\<lparr>cn_fs := s, cn_phase := Returned (Inl e)\<rparr>"
    using assms by (simp add: head_turn_def)
  with assms(1) stay [of _ "Inl e"] show ?thesis by simp
qed

definition unavailable_net :: net where
  "unavailable_net = demo_net\<lparr>rpc_bootstrap_enroll := (\<lambda>ch rq. Inl [Status Unavailable ''try again''])\<rparr>"

lemma demo_store_new: "IdentityStore_new demo_agent = demo_store"
  by (simp add: IdentityStore_new_def demo_agent_def demo_store_def text_simps)

lemma demo_enroll_unavailable:
  "\<exists>e. ensure_identity demo_openssl unavailable_net demo_agent demo_store demo_facts demo_fs = (Inl e, demo_fs)
     \<and> \<not> is_fatal_bootstrap_error e"
proof -
  have a: "trim ''tok'' \<noteq> []" "trim (ac_bootstrap_target_addr demo_agent) = ''HTTPS://cp:9443''"
      "ac_bootstrap_token demo_agent = ''tok''"
    by (simp_all add: demo_agent_def text_simps)
  have "has_usable_client_certificate demo_openssl demo_store demo_fs = (False, demo_fs)"
    by (simp add: has_usable_client_certificate_def load_identity_def fs_read_no_fault demo_fs_def demo_store_def)
  moreover have "ensure_private_key demo_openssl demo_store demo_fs = (Inr ''key'', demo_fs)"
    by (simp add: ensure_private_key_def fs_read_no_fault demo_fs_def demo_store_def)
  moreover have "\<exists>csr. generate_csr demo_openssl ''key'' (''vm-agent:'' @ agent_id demo_facts) = Inr csr"
    by (simp add: generate_csr_def demo_openssl_def demo_facts_def)
  moreover have "\<exists>ch. build_bootstrap_channel unavailable_net demo_agent demo_fs = (Inr ch, demo_fs)"
    using a by (simp add: build_bootstrap_channel_def normalize_bootstrap_endpoint_def demo_net_def
        unavailable_net_def starts_with_def)
  ultimately show ?thesis
    using a by (auto simp: ensure_identity_def bootstrap_enroll_def unavailable_net_def is_fatal_bootstrap_error_def)
qed

lemma enrollment_failure_ends_agent_example:
  "\<exists>e. cn_phase (connect_run (demo_agent_args demo_config)
        [(demo_turn False broken_plane [])\<lparr>tu_plane := (demo_plane 1)\<lparr>pl_net := unavailable_net\<rparr>\<rparr>]
        ((demo_connection demo_assignment)\<lparr>cn_phase := AtHead\<rparr>)) = Returned (Inl e)
     \<and> \<not> is_fatal_bootstrap_error e"
proof -
  let ?T = "(demo_turn False broken_plane [])\<lparr>tu_plane := (demo_plane 1)\<lparr>pl_net := unavailable_net\<rparr>\<rparr>"
  let ?c = "(demo_connection demo_assignment)\<lparr>cn_phase := AtHead\<rparr>"
  obtain e where e: "ensure_identity demo_openssl unavailable_net demo_agent demo_store demo_facts demo_fs = (Inl e, demo_fs)"
      "\<not> is_fatal_bootstrap_error e"
    using demo_enroll_unavailable by blast
  have args: "tu_openssl ?T = demo_openssl" "pl_net (tu_plane ?T) = unavailable_net" "\<not> tu_cancelled ?T"
      "cfg_agent (ag_config (demo_agent_args demo_config)) = demo_agent" "ag_facts (demo_agent_args demo_config) = demo_facts"
      "cn_fs ?c = demo_fs" "cn_phase ?c = AtHead"
    by (simp_all add: demo_turn_def demo_agent_args_def demo_config_def demo_connection_def)
  then have "ensure_identity (tu_openssl ?T) (pl_net (tu_plane ?T)) (cfg_agent (ag_config (demo_agent_args demo_config)))
      (IdentityStore_new (cfg_agent (ag_config (demo_agent_args demo_config)))) (ag_facts (demo_agent_args demo_config))
      (cn_fs ?c) = (Inl e, demo_fs)"
    using e(1) demo_store_new by simp
  from enrollment_failure_ends_agent [OF args(7,3) this, of "[]"] e(2) show ?thesis by blast
qed

text \<open>The assignment a round goes on with: the one the control plane gives, or the cached one.\<close>

definition chosen_assignment ::
  "error + AssignmentCache \<Rightarrow> AssignmentCache option \<Rightarrow> system_time \<Rightarrow> AssignmentCache option" where
  "chosen_assignment r cache now =
     (case r of
        Inr a \<Rightarrow> Some a
      | Inl e \<Rightarrow> (case cache of
            Some a \<Rightarrow> if now < expires_at a \<and> candidates a \<noteq> [] then Some a else None
          | None \<Rightarrow> None))"

lemma target_turn_starts:
  assumes "selector_ok s"
  shows "\<exists>xs. cn_trace (target_turn A T i a s c) = cn_trace c
    @ (case selector_remaining s of [] \<Rightarrow> [] | t # ts \<Rightarrow> StartSession t # xs)"
proof (cases "selector_remaining s")
  case Nil
  then have "selector_current s = None" using sel.current_None [OF assms] by simp
  with Nil show ?thesis by (simp add: target_turn_def)
next
  case (Cons t ts)
  then have "selector_current s = Some t" using sel.current_Some [OF assms] by blast
  with Cons show ?thesis
    by (auto simp: target_turn_def double_backoff_def Let_def
        split: prod.splits option.splits sum.splits exec.splits)
qed

text \<open>
  C36. Which assignment the loop uses: a resolved one, or, when the control plane gives none,
  the cached one as long as it has not expired and names a candidate. That assignment is then
  the cache, the loop stands at the first of its candidates with the base backoff, and its
  next turn starts a session there. Where there is no such assignment, the loop pauses for its
  backoff, doubles it up to its bound, keeps the cache and is at its head again.
\<close>

theorem assignment_or_cache:
  assumes "backoff_config A" and "connection_ok A c" and "cn_phase c = AtHead"
    and "\<not> tu_cancelled T"
    and "ensure_identity (tu_openssl T) (pl_net (tu_plane T)) (cfg_agent (ag_config A))
       (IdentityStore_new (cfg_agent (ag_config A))) (ag_facts A) (cn_fs c) = (Inr i, s)"
    and "resolve_assignment (ag_checks A) (tu_plane T) (ag_config A) i (ag_facts A) (cn_cache c)
       (tu_resolve_now T) = Done r"
  shows "case chosen_assignment r (cn_cache c) (tu_cache_now T) of
       Some a \<Rightarrow> connect_turn A T c = c\<lparr>cn_fs := s, cn_cache := Some a, cn_phase := AtTarget i a
           \<lparr>sel_targets = candidates a, sel_index = 0, sel_backoff = base_backoff A,
            sel_base_backoff = base_backoff A, sel_max_backoff = max_backoff A\<rparr>\<rparr>
         \<and> (\<exists>xs. cn_trace (connect_run A [T, T'] c) = cn_trace c
             @ (case candidates a of [] \<Rightarrow> [] | t # ts \<Rightarrow> StartSession t # xs))
     | None \<Rightarrow> connect_turn A T c = c\<lparr>cn_fs := s, cn_trace := cn_trace c @ [RetryAssignment (cn_backoff c)],
           cn_backoff := min (2 * cn_backoff c) (max_backoff A), cn_phase := AtHead\<rparr>"
proof -
  have retry: "retry_assignment A (c\<lparr>cn_fs := s\<rparr>) = c\<lparr>cn_fs := s,
      cn_trace := cn_trace c @ [RetryAssignment (cn_backoff c)],
      cn_backoff := min (2 * cn_backoff c) (max_backoff A), cn_phase := AtHead\<rparr>"
    using assms(2) by (simp add: retry_assignment_def double_backoff_eq [OF assms(1)] connection_ok_def)
  have turn: "connect_turn A T c = (case chosen_assignment r (cn_cache c) (tu_cache_now T) of
      Some a \<Rightarrow> enter_assignment A i a (c\<lparr>cn_fs := s\<rparr>) | None \<Rightarrow> retry_assignment A (c\<lparr>cn_fs := s\<rparr>))"
    using assms(3-6)
    by (cases r; cases "cn_cache c") (simp_all add: head_turn_def Let_def chosen_assignment_def)
  show ?thesis
  proof (cases "chosen_assignment r (cn_cache c) (tu_cache_now T)")
    case None
    with turn retry show ?thesis by simp
  next
    case (Some a)
    let ?s = "selector_new (candidates a) (base_backoff A) (max_backoff A)"
    have ok: "selector_ok ?s"
      using assms(1) max_doubles [OF assms(1)] by (intro selector_new_ok) (simp_all add: backoff_config_def)
    obtain xs where "cn_trace (target_turn A T' i a ?s (enter_assignment A i a (c\<lparr>cn_fs := s\<rparr>))) = cn_trace c
        @ (case candidates a of [] \<Rightarrow> [] | t # ts \<Rightarrow> StartSession t # xs)"
      using target_turn_starts [OF ok, of A T' i a "enter_assignment A i a (c\<lparr>cn_fs := s\<rparr>)"]
      by (auto simp: enter_assignment_def)
    with Some turn show ?thesis by (auto simp: enter_assignment_def selector_new_def)
  qed
qed

lemma demo_backoff_config: "backoff_config (demo_agent_args demo_config)"
  by (simp add: backoff_config_def base_backoff_def max_backoff_def demo_agent_args_def demo_config_def
      demo_agent_def time_simps)

text \<open>The control plane does not answer, and the cached assignment holds for ten seconds.\<close>

theorem assignment_or_cache_witness:
  "\<exists>i s. cn_phase (connect_turn (demo_agent_args demo_config)
       ((demo_turn False broken_plane [])\<lparr>tu_plane := (demo_plane 1)\<lparr>pl_resolve := (\<lambda>ch rq. Inl [Status Unavailable []])\<rparr>\<rparr>)
       ((demo_connection demo_assignment)\<lparr>cn_phase := AtHead,
          cn_backoff := base_backoff (demo_agent_args demo_config)\<rparr>))
     = AtTarget i demo_assignment s \<and> sel_targets s = [''dp:1'']"
proof -
  let ?A = "demo_agent_args demo_config"
  let ?T = "(demo_turn False broken_plane [])\<lparr>tu_plane := (demo_plane 1)\<lparr>pl_resolve := (\<lambda>ch rq. Inl [Status Unavailable []])\<rparr>\<rparr>"
  let ?c = "(demo_connection demo_assignment)\<lparr>cn_phase := AtHead, cn_backoff := base_backoff ?A\<rparr>"
  obtain i s where en: "bootstrap_enroll demo_openssl demo_net demo_agent demo_store demo_facts demo_fs = (Inr i, s)"
    using demo_enroll by blast
  have "has_usable_client_certificate demo_openssl demo_store demo_fs = (False, demo_fs)"
    by (simp add: has_usable_client_certificate_def load_identity_def fs_read_no_fault demo_fs_def demo_store_def)
  moreover have args: "tu_openssl ?T = demo_openssl" "pl_net (tu_plane ?T) = demo_net" "\<not> tu_cancelled ?T"
      "cfg_agent (ag_config ?A) = demo_agent" "ag_facts ?A = demo_facts" "cn_fs ?c = demo_fs" "cn_phase ?c = AtHead"
      "cn_cache ?c = Some demo_assignment" "tu_cache_now ?T = 0"
    by (simp_all add: demo_turn_def demo_agent_args_def demo_config_def demo_connection_def demo_plane_def)
  ultimately have id: "ensure_identity (tu_openssl ?T) (pl_net (tu_plane ?T)) (cfg_agent (ag_config ?A))
      (IdentityStore_new (cfg_agent (ag_config ?A))) (ag_facts ?A) (cn_fs ?c) = (Inr i, s)"
    using en demo_store_new by (simp add: ensure_identity_def)
  have ok: "connection_ok ?A ?c"
    using demo_backoff_config by (simp add: connection_ok_def backoff_config_def demo_connection_def)
  have "\<exists>e. resolve_assignment (ag_checks ?A) (tu_plane ?T) (ag_config ?A) i (ag_facts ?A) (cn_cache ?c)
      (tu_resolve_now ?T) = Done (Inl e)"
    by (simp add: resolve_assignment_def demo_turn_def split: sum.split)
  then obtain e where "resolve_assignment (ag_checks ?A) (tu_plane ?T) (ag_config ?A) i (ag_facts ?A) (cn_cache ?c)
      (tu_resolve_now ?T) = Done (Inl e)" ..
  from assignment_or_cache [OF demo_backoff_config ok args(7,3) id this, of ?T]
  show ?thesis unfolding args(8,9)
    by (simp add: chosen_assignment_def demo_assignment_def from_secs_def nanos_per_sec_def del: connect_turn.simps)
qed

end
