(* ===== verification/Worker_Pool.thy ===== *)
theory Worker_Pool
  imports Agent_Prelude
begin

text \<open>
  The worker pool (\<open>src/src/worker/pool.rs\<close>): a counter of jobs in flight, shared by threads
  that raise and lower it with compare-and-exchange loops, and a flag that stops new jobs.
  The operations are given twice: as one thread runs them, and as a machine on which any
  number of threads interleave at each atomic access. The machine is proved to implement an
  atomic counter.
\<close>

section \<open>The pool, one thread\<close>

record WorkerPool =
  wp_accepting :: bool
  wp_max_workers :: nat
  wp_in_flight :: nat

definition WorkerPool_new :: "nat \<Rightarrow> WorkerPool" where
  "WorkerPool_new n = \<lparr>wp_accepting = True, wp_max_workers = max n 1, wp_in_flight = 0\<rparr>"

text \<open>Without other threads the exchange succeeds at the first try.\<close>

definition try_start_job :: "WorkerPool \<Rightarrow> bool \<times> WorkerPool" where
  "try_start_job p =
     (if \<not> wp_accepting p then (False, p)
      else if wp_in_flight p \<ge> wp_max_workers p then (False, p)
      else (True, p\<lparr>wp_in_flight := wp_in_flight p + 1\<rparr>))"

text \<open>The first component says whether waiters are notified.\<close>

definition finish_job :: "WorkerPool \<Rightarrow> bool \<times> WorkerPool" where
  "finish_job p =
     (if wp_in_flight p = 0 then (True, p)
      else (wp_in_flight p \<le> 1, p\<lparr>wp_in_flight := wp_in_flight p - 1\<rparr>))"

definition stop_accepting :: "WorkerPool \<Rightarrow> WorkerPool" where
  "stop_accepting p = p\<lparr>wp_accepting := False\<rparr>"

text \<open>
  The loop of \<open>drain\<close>: it ends when it finds no job in flight, and otherwise waits for a
  notification or for 100 milliseconds. Each wake-up comes with the count it then finds. The
  result says whether the loop has ended and how many of its waits were whole sleeps.
\<close>

datatype drain_wake = Notified | Slept

fun drain_loop :: "nat \<Rightarrow> (drain_wake \<times> nat) list \<Rightarrow> nat \<Rightarrow> bool \<times> nat" where
  "drain_loop in_flight [] sleeps = (in_flight = 0, sleeps)"
| "drain_loop in_flight ((wake, found) # ws) sleeps =
     (if in_flight = 0 then (True, sleeps)
      else drain_loop found ws (if wake = Slept then sleeps + 1 else sleeps))"

text \<open>It ends at the first idle count, also where the notification of it was lost.\<close>

lemma drain_loop_ends: "fst (drain_loop n ws k) \<longleftrightarrow> 0 \<in> set (n # map snd ws)"
proof (induction ws arbitrary: n k)
  case (Cons w ws)
  then show ?case by (cases w) auto
qed auto

lemma drain_loop_sleeps:
  "snd (drain_loop n ws k) \<le> k + length (takeWhile (\<lambda>m. m \<noteq> 0) (n # map snd ws))"
proof (induction ws arbitrary: n k)
  case (Cons w ws)
  obtain a m where w: "w = (a, m)" by (cases w)
  show ?case
    using Cons [of m "k + 1"] Cons [of m k] by (simp add: w)
qed simp

section \<open>The pool, many threads\<close>

text \<open>
  Where a thread stands: outside; in \<open>try_start_job\<close> before the flag is read, before the
  counter is loaded, or before the exchange with the value it loaded; the same for
  \<open>finish_job\<close>.
\<close>

datatype pc = Outside | TryCheck | TryLoad | TryCas nat | FinLoad | FinCas nat

text \<open>What a step shows: a result of \<open>try_start_job\<close>, a finished job, the flag, or nothing.\<close>

datatype label = Started | Refused | Finished | Stopped_Accepting | Silent

record pool_sys =
  ps_pool :: WorkerPool
  ps_pc :: "nat \<Rightarrow> pc"

definition set_pc :: "nat \<Rightarrow> pc \<Rightarrow> pool_sys \<Rightarrow> pool_sys" where
  "set_pc t c s = s\<lparr>ps_pc := (ps_pc s)(t := c)\<rparr>"

definition set_in_flight :: "nat \<Rightarrow> pool_sys \<Rightarrow> pool_sys" where
  "set_in_flight n s = s\<lparr>ps_pool := (ps_pool s)\<lparr>wp_in_flight := n\<rparr>\<rparr>"

inductive pool_step :: "pool_sys \<Rightarrow> label \<Rightarrow> pool_sys \<Rightarrow> bool" where
  call_try: "ps_pc s t = Outside \<Longrightarrow> pool_step s Silent (set_pc t TryCheck s)"
| call_finish: "ps_pc s t = Outside \<Longrightarrow> pool_step s Silent (set_pc t FinLoad s)"
| stop: "pool_step s Stopped_Accepting (s\<lparr>ps_pool := stop_accepting (ps_pool s)\<rparr>)"
| not_accepting: "ps_pc s t = TryCheck \<Longrightarrow> \<not> wp_accepting (ps_pool s) \<Longrightarrow>
    pool_step s Refused (set_pc t Outside s)"
| is_accepting: "ps_pc s t = TryCheck \<Longrightarrow> wp_accepting (ps_pool s) \<Longrightarrow>
    pool_step s Silent (set_pc t TryLoad s)"
| full: "ps_pc s t = TryLoad \<Longrightarrow> wp_in_flight (ps_pool s) \<ge> wp_max_workers (ps_pool s) \<Longrightarrow>
    pool_step s Refused (set_pc t Outside s)"
| load: "ps_pc s t = TryLoad \<Longrightarrow> wp_in_flight (ps_pool s) < wp_max_workers (ps_pool s) \<Longrightarrow>
    pool_step s Silent (set_pc t (TryCas (wp_in_flight (ps_pool s))) s)"
| cas_ok: "ps_pc s t = TryCas n \<Longrightarrow> wp_in_flight (ps_pool s) = n \<Longrightarrow>
    pool_step s Started (set_in_flight (n + 1) (set_pc t Outside s))"
| cas_retry: "ps_pc s t = TryCas n \<Longrightarrow> wp_in_flight (ps_pool s) \<noteq> n \<Longrightarrow>
    pool_step s Silent (set_pc t TryLoad s)"
| fin_zero: "ps_pc s t = FinLoad \<Longrightarrow> wp_in_flight (ps_pool s) = 0 \<Longrightarrow>
    pool_step s Finished (set_pc t Outside s)"
| fin_load: "ps_pc s t = FinLoad \<Longrightarrow> wp_in_flight (ps_pool s) \<noteq> 0 \<Longrightarrow>
    pool_step s Silent (set_pc t (FinCas (wp_in_flight (ps_pool s))) s)"
| fin_cas_ok: "ps_pc s t = FinCas n \<Longrightarrow> wp_in_flight (ps_pool s) = n \<Longrightarrow>
    pool_step s Finished (set_in_flight (n - 1) (set_pc t Outside s))"
| fin_cas_retry: "ps_pc s t = FinCas n \<Longrightarrow> wp_in_flight (ps_pool s) \<noteq> n \<Longrightarrow>
    pool_step s Silent (set_pc t FinLoad s)"

inductive pool_run :: "pool_sys \<Rightarrow> label list \<Rightarrow> pool_sys \<Rightarrow> bool" where
  run_nil: "pool_run s [] s"
| run_step: "pool_run s ls s1 \<Longrightarrow> pool_step s1 l s2 \<Longrightarrow> pool_run s (ls @ [l]) s2"

definition pool_start :: "nat \<Rightarrow> pool_sys" where
  "pool_start n = \<lparr>ps_pool = WorkerPool_new n, ps_pc = (\<lambda>t. Outside)\<rparr>"

section \<open>The specification: an atomic bounded counter\<close>

text \<open>
  A start is possible only below the bound and raises the count; a finish lowers it, or
  leaves it at zero; the rest leaves it alone.
\<close>

fun counter_step :: "nat \<Rightarrow> label \<Rightarrow> nat \<Rightarrow> nat option" where
  "counter_step mx Started n = (if n < mx then Some (n + 1) else None)"
| "counter_step mx Finished n = Some (n - 1)"
| "counter_step mx Refused n = Some n"
| "counter_step mx Stopped_Accepting n = Some n"
| "counter_step mx Silent n = Some n"

fun counter_run :: "nat \<Rightarrow> label list \<Rightarrow> nat \<Rightarrow> nat option" where
  "counter_run mx [] n = Some n"
| "counter_run mx (l # ls) n = Option.bind (counter_step mx l n) (counter_run mx ls)"

lemma counter_run_append:
  "counter_run mx (ls @ ks) n = Option.bind (counter_run mx ls n) (counter_run mx ks)"
  by (induction ls arbitrary: n) (auto simp: Option.bind_assoc intro!: Option.bind_cong)

text \<open>A thread before its exchange holds a value that was below the bound, or above zero.\<close>

definition pool_inv :: "nat \<Rightarrow> pool_sys \<Rightarrow> bool" where
  "pool_inv mx s \<longleftrightarrow> wp_max_workers (ps_pool s) = mx \<and> wp_in_flight (ps_pool s) \<le> mx
     \<and> (\<forall>t n. ps_pc s t = TryCas n \<longrightarrow> n < mx) \<and> (\<forall>t n. ps_pc s t = FinCas n \<longrightarrow> 0 < n)"

lemma pool_start_inv: "pool_inv (max n 1) (pool_start n)"
  by (simp add: pool_inv_def pool_start_def WorkerPool_new_def)

lemma pool_step_refines:
  assumes "pool_step s l s'" and "pool_inv mx s"
  shows "pool_inv mx s' \<and> counter_step mx l (wp_in_flight (ps_pool s)) = Some (wp_in_flight (ps_pool s'))"
  using assms
  by (cases rule: pool_step.cases)
     (auto simp: pool_inv_def set_pc_def set_in_flight_def stop_accepting_def Suc_le_eq)

lemma pool_run_refines:
  "pool_run s ls s' \<Longrightarrow> pool_inv mx s \<Longrightarrow>
     pool_inv mx s' \<and> counter_run mx ls (wp_in_flight (ps_pool s)) = Some (wp_in_flight (ps_pool s'))"
proof (induction rule: pool_run.induct)
  case (run_step s ls s1 l s2)
  then have "pool_inv mx s1" "counter_run mx ls (wp_in_flight (ps_pool s)) = Some (wp_in_flight (ps_pool s1))"
    by simp_all
  with pool_step_refines [OF run_step.hyps(2)] show ?case by (simp add: counter_run_append)
qed simp

section \<open>Properties\<close>

text \<open>
  C6. The pool implements an atomic counter: under every interleaving of any number of
  threads, the starts and finishes that take effect form a run of the counter bounded by
  \<open>max_workers\<close> (at least 1), whose value is the number of jobs in flight; so there are
  never more than that.
\<close>

theorem pool_is_atomic_counter:
  assumes "pool_run (pool_start n) ls s"
  shows "counter_run (max n 1) ls 0 = Some (wp_in_flight (ps_pool s))
    \<and> wp_in_flight (ps_pool s) \<le> max n 1"
  using pool_run_refines [OF assms pool_start_inv]
  by (simp add: pool_inv_def pool_start_def WorkerPool_new_def)

text \<open>A thread reads the flag, the pool stops accepting, and the thread goes on.\<close>

lemma late_start_run:
  assumes "n \<ge> 1"
  shows "\<exists>s. pool_run (pool_start n) [Silent, Silent, Stopped_Accepting, Silent, Started] s
    \<and> \<not> wp_accepting (ps_pool s) \<and> wp_in_flight (ps_pool s) = 1"
proof -
  let ?s0 = "pool_start n"
  let ?s1 = "set_pc 0 TryCheck ?s0"
  let ?s2 = "set_pc 0 TryLoad ?s1"
  let ?s3 = "?s2\<lparr>ps_pool := stop_accepting (ps_pool ?s2)\<rparr>"
  let ?s4 = "set_pc 0 (TryCas (wp_in_flight (ps_pool ?s3))) ?s3"
  let ?s5 = "set_in_flight (0 + 1) (set_pc 0 Outside ?s4)"
  note eval = pool_start_def WorkerPool_new_def set_pc_def stop_accepting_def set_in_flight_def
  have "pool_step ?s0 Silent ?s1" by (rule call_try) (simp add: eval)
  moreover have "pool_step ?s1 Silent ?s2" by (rule is_accepting) (simp_all add: eval)
  moreover have "pool_step ?s2 Stopped_Accepting ?s3" by (rule stop)
  moreover have "pool_step ?s3 Silent ?s4" by (rule load) (simp_all add: eval)
  moreover have "pool_step ?s4 Started ?s5" by (rule cas_ok) (simp_all add: eval)
  ultimately have "pool_run ?s0 ([] @ [Silent] @ [Silent] @ [Stopped_Accepting] @ [Silent] @ [Started]) ?s5"
    by (simp only: append_assoc [symmetric]) (blast intro: run_nil run_step)
  moreover have "\<not> wp_accepting (ps_pool ?s5)" "wp_in_flight (ps_pool ?s5) = 1"
    by (simp_all add: eval)
  ultimately show ?thesis by auto
qed

theorem pool_is_atomic_counter_witness:
  "\<exists>s. pool_run (pool_start 1) [Silent, Silent, Stopped_Accepting, Silent, Started] s
     \<and> wp_in_flight (ps_pool s) \<le> 1"
proof -
  obtain s where s: "pool_run (pool_start 1) [Silent, Silent, Stopped_Accepting, Silent, Started] s"
    using late_start_run [of 1] by auto
  with pool_is_atomic_counter [OF s] show ?thesis by auto
qed

text \<open>
  A job can start after the pool stopped accepting: the flag is read before the counter,
  so a thread that passed the test is not held back by \<open>stop_accepting\<close>, and a drain that
  saw no job in flight can be followed by one.
\<close>

lemma job_starts_after_stop:
  "\<exists>s. pool_run (pool_start n) [Silent, Silent, Stopped_Accepting, Silent, Started] s
    \<and> \<not> wp_accepting (ps_pool s) \<and> wp_in_flight (ps_pool s) = 1"
proof -
  have "pool_start n = pool_start (max n 1)" by (simp add: pool_start_def WorkerPool_new_def)
  with late_start_run [of "max n 1"] show ?thesis by simp
qed

text \<open>
  One thread alone: \<open>try_start_job\<close> starts a job exactly when the pool accepts and is not
  full; a finish undoes a start and notifies the waiters exactly when no job is left in
  flight.
\<close>

lemma start_then_finish:
  "fst (try_start_job p) = (wp_accepting p \<and> wp_in_flight p < wp_max_workers p)
   \<and> wp_in_flight (snd (try_start_job p)) = wp_in_flight p + (if fst (try_start_job p) then 1 else 0)
   \<and> finish_job (snd (try_start_job p)) = (if fst (try_start_job p) then (wp_in_flight p = 0, p) else finish_job p)
   \<and> fst (finish_job p) = (wp_in_flight (snd (finish_job p)) = 0)"
  by (auto simp: try_start_job_def finish_job_def)

end
