(* ===== verification/Lifecycle.thy ===== *)
theory Lifecycle
  imports Worker_Pool Rust_Time
begin

text \<open>
  The application's state and its shutdown (\<open>src/src/app/state.rs\<close>, \<open>app/lifecycle.rs\<close>,
  \<open>worker/dispatcher.rs\<close> and the shutdown of \<open>transport/grpc/server.rs\<close>). Time is explicit: a
  stage of the shutdown takes the time its wait takes, and between two stages the program
  itself takes \<open>lag\<close>.
\<close>

section \<open>The application's state\<close>

datatype AppState = Starting | Running | ShuttingDown | Stopped

fun AppState_code :: "AppState \<Rightarrow> nat" where
  "AppState_code Starting = 0"
| "AppState_code Running = 1"
| "AppState_code ShuttingDown = 2"
| "AppState_code Stopped = 3"

text \<open>\<open>AppStateStore\<close> keeps the code; \<open>get\<close> reads a code it does not know as \<open>Starting\<close>.\<close>

definition AppState_of_code :: "nat \<Rightarrow> AppState" where
  "AppState_of_code n =
     (if n = 0 then Starting else if n = 1 then Running else if n = 2 then ShuttingDown
      else if n = 3 then Stopped else Starting)"

lemma AppState_roundtrip [simp]: "AppState_of_code (AppState_code a) = a"
  by (cases a) (simp_all add: AppState_of_code_def)

section \<open>The dispatcher\<close>

text \<open>
  What its \<open>select!\<close> meets: the shutdown, or the end of its sleep; \<open>DispOther\<close> is a change by
  another task in the meantime (the flag of the dispatcher and the pool it finds).
\<close>

datatype dispatcher_event = DispShutdown | DispTick | DispOther bool WorkerPool

record dispatcher =
  ds_polling :: bool
  ds_pool :: WorkerPool
  ds_jobs :: nat

definition stop_polling :: "dispatcher \<Rightarrow> dispatcher" where
  "stop_polling d = d\<lparr>ds_polling := False\<rparr>"

text \<open>The first component says whether the loop has ended; \<open>ds_jobs\<close> counts the jobs it ran.\<close>

fun dispatcher_run :: "dispatcher_event list \<Rightarrow> dispatcher \<Rightarrow> bool \<times> dispatcher" where
  "dispatcher_run [] d = (False, d)"
| "dispatcher_run (DispOther polling pool # es) d =
     dispatcher_run es (d\<lparr>ds_polling := polling, ds_pool := pool\<rparr>)"
| "dispatcher_run (DispShutdown # es) d = (True, stop_polling d)"
| "dispatcher_run (DispTick # es) d =
     (if \<not> ds_polling d then (True, d)
      else case try_start_job (ds_pool d) of
        (False, pool) \<Rightarrow> dispatcher_run es (d\<lparr>ds_pool := pool\<rparr>)
      | (True, pool) \<Rightarrow>
          dispatcher_run es (d\<lparr>ds_pool := snd (finish_job pool), ds_jobs := ds_jobs d + 1\<rparr>))"

section \<open>Timeouts\<close>

text \<open>
  \<open>timeout(d, f).await\<close> for a future that is ready after \<open>c\<close> (never, for \<open>None\<close>): whether it
  was ready in time, and how long the wait took. tokio polls the future first.
\<close>

definition timeout_wait :: "duration \<Rightarrow> duration option \<Rightarrow> bool \<times> duration" where
  "timeout_wait d c = (case c of Some t \<Rightarrow> if t \<le> d then (True, t) else (False, d) | None \<Rightarrow> (False, d))"

lemma timeout_wait_le: "snd (timeout_wait d c) \<le> d"
  by (simp add: timeout_wait_def split: option.split)

section \<open>Shutdown\<close>

datatype ShutdownResult = Clean | TimedOut

record app_context =
  ctx_state :: nat
  ctx_pool :: WorkerPool
  ctx_polling :: bool
  ctx_grpc_accepting :: bool
  ctx_cancelled :: bool
  ctx_tasks_closed :: bool

text \<open>
  What the shutdown waits for, each from the moment its wait begins: no job in flight, no
  tracked task left, the gRPC server not running. \<open>wt_lag k\<close> is the program's own time
  before stage \<open>k\<close>.
\<close>

record waits =
  wt_pool_idle :: "duration option"
  wt_tasks_done :: "duration option"
  wt_grpc_stopped :: "duration option"
  wt_lag :: "nat \<Rightarrow> duration"

definition drain_tasks :: "waits \<Rightarrow> duration \<Rightarrow> bool \<times> duration" where
  "drain_tasks w timeout =
     (let started = wt_lag w 1 + snd (timeout_wait timeout (wt_pool_idle w));
          remaining = timeout - started in
      if remaining = 0 then (False, started)
      else case timeout_wait remaining (wt_tasks_done w) of (ok, t) \<Rightarrow> (ok, started + t))"

definition grpc_shutdown :: "waits \<Rightarrow> duration \<Rightarrow> bool \<times> duration" where
  "grpc_shutdown w timeout = timeout_wait timeout (wt_grpc_stopped w)"

definition close_transports :: "waits \<Rightarrow> duration \<Rightarrow> bool \<times> duration" where
  "close_transports w timeout = (if timeout = 0 then (False, 0) else grpc_shutdown w timeout)"

definition close_dependencies :: "duration \<Rightarrow> bool \<times> duration" where
  "close_dependencies timeout = timeout_wait timeout (Some (from_millis 20))"

text \<open>\<open>saturating_sub\<close> is the subtraction of natural numbers. The last component is the time taken.\<close>

definition shutdown :: "waits \<Rightarrow> duration \<Rightarrow> app_context \<Rightarrow> ShutdownResult \<times> app_context \<times> duration" where
  "shutdown w timeout ctx =
     (let ctx1 = ctx\<lparr>ctx_state := AppState_code ShuttingDown, ctx_grpc_accepting := False,
            ctx_pool := stop_accepting (ctx_pool ctx), ctx_polling := False, ctx_cancelled := True\<rparr>;
          t0 = wt_lag w 0;
          (drained, d1) = drain_tasks w (timeout - t0);
          ctx2 = ctx1\<lparr>ctx_tasks_closed := True\<rparr>;
          t1 = t0 + d1 + wt_lag w 2;
          (transports_closed, d2) = close_transports w (timeout - t1);
          t2 = t1 + d2 + wt_lag w 3;
          (dependencies_closed, d3) = close_dependencies (timeout - t2);
          elapsed = t2 + d3 + wt_lag w 4;
          clean = (drained \<and> transports_closed \<and> dependencies_closed
             \<and> as_millis elapsed \<le> as_millis timeout);
          ctx3 = ctx2\<lparr>ctx_state := AppState_code Stopped\<rparr>
      in (if clean then Clean else TimedOut, ctx3, elapsed))"

text \<open>The time before the last stage that no wait accounts for.\<close>

definition total_lag :: "waits \<Rightarrow> duration" where
  "total_lag w = wt_lag w 0 + wt_lag w 1 + wt_lag w 2 + wt_lag w 3 + wt_lag w 4"

section \<open>Lemmas\<close>

lemma drain_tasks_time: "snd (drain_tasks w d) \<le> d + wt_lag w 1"
  using timeout_wait_le [of d "wt_pool_idle w"]
    timeout_wait_le [of "d - (wt_lag w 1 + snd (timeout_wait d (wt_pool_idle w)))" "wt_tasks_done w"]
  by (auto simp: drain_tasks_def Let_def split: prod.splits)

lemma drain_tasks_True:
  "fst (drain_tasks w d) \<longleftrightarrow> (\<exists>p t. wt_pool_idle w = Some p \<and> wt_tasks_done w = Some t
     \<and> wt_lag w 1 + p < d \<and> wt_lag w 1 + p + t \<le> d)"
  by (auto simp: drain_tasks_def timeout_wait_def Let_def split: option.splits if_splits)

lemma close_transports_time: "snd (close_transports w d) \<le> d"
  by (simp add: close_transports_def grpc_shutdown_def timeout_wait_le)

lemma close_dependencies_time: "snd (close_dependencies d) \<le> d"
  by (simp add: close_dependencies_def timeout_wait_le)

lemma sub_add_le: "(x :: nat) \<le> (a - b) + c \<Longrightarrow> b + x \<le> max a b + c"
  by simp

lemma shutdown_elapsed: "snd (snd (shutdown w timeout ctx)) \<le> timeout + total_lag w"
proof -
  let ?t0 = "wt_lag w 0" and ?d1 = "snd (drain_tasks w (timeout - wt_lag w 0))"
  let ?t1 = "?t0 + ?d1 + wt_lag w 2"
  let ?d2 = "snd (close_transports w (timeout - ?t1))"
  let ?t2 = "?t1 + ?d2 + wt_lag w 3"
  let ?d3 = "snd (close_dependencies (timeout - ?t2))"
  have "snd (snd (shutdown w timeout ctx)) = ?t2 + ?d3 + wt_lag w 4"
    by (simp add: shutdown_def Let_def split: prod.splits)
  moreover have "?d1 \<le> (timeout - ?t0) + wt_lag w 1" by (rule drain_tasks_time)
  moreover have "?d2 \<le> timeout - ?t1" "?d3 \<le> timeout - ?t2"
    by (rule close_transports_time close_dependencies_time)+
  ultimately show ?thesis unfolding total_lag_def by linarith
qed

section \<open>Properties\<close>

text \<open>
  C21. Shutdown always ends, and in bounded time: whatever it waits for, and for ever, it
  takes at most the timeout plus the program's own time, and then the application is
  stopped, nothing accepts or polls any more and the shutdown token is cancelled.
\<close>

theorem shutdown_bounded_and_stopped:
  "snd (snd (shutdown w timeout ctx)) \<le> timeout + total_lag w
   \<and> AppState_of_code (ctx_state (fst (snd (shutdown w timeout ctx)))) = Stopped
   \<and> \<not> ctx_grpc_accepting (fst (snd (shutdown w timeout ctx)))
   \<and> \<not> wp_accepting (ctx_pool (fst (snd (shutdown w timeout ctx))))
   \<and> \<not> ctx_polling (fst (snd (shutdown w timeout ctx)))
   \<and> ctx_cancelled (fst (snd (shutdown w timeout ctx)))
   \<and> ctx_tasks_closed (fst (snd (shutdown w timeout ctx)))"
  using shutdown_elapsed [of w timeout ctx]
  by (simp add: shutdown_def Let_def stop_accepting_def split: prod.splits del: AppState_code.simps)

text \<open>
  C22. When a shutdown is clean, the program's own time left aside: exactly when the jobs
  drain before the timeout, the tasks end by then, time is left for the gRPC server, which
  stops, and 20 milliseconds are left after that. So no job and no task was left behind.
\<close>

theorem shutdown_clean_iff:
  assumes "total_lag w = 0"
  shows "fst (shutdown w timeout ctx) = Clean \<longleftrightarrow>
    (\<exists>p t g. wt_pool_idle w = Some p \<and> wt_tasks_done w = Some t \<and> wt_grpc_stopped w = Some g
       \<and> p + t < timeout \<and> p + t + g + from_millis 20 \<le> timeout)"
proof -
  have lag: "wt_lag w 0 = 0" "wt_lag w 1 = 0" "wt_lag w 2 = 0" "wt_lag w 3 = 0" "wt_lag w 4 = 0"
    using assms by (simp_all add: total_lag_def)
  have el: "snd (snd (shutdown w timeout ctx)) \<le> timeout"
    using shutdown_elapsed [of w timeout ctx] assms by simp
  then have "as_millis (snd (snd (shutdown w timeout ctx))) \<le> as_millis timeout"
    by (simp add: as_millis_def div_le_mono)
  then show ?thesis
    using lag
    by (auto simp: shutdown_def drain_tasks_def close_transports_def grpc_shutdown_def close_dependencies_def
        timeout_wait_def Let_def from_millis_def nanos_per_milli_def split: option.splits if_splits prod.splits)
qed

definition demo_context :: app_context where
  "demo_context = \<lparr>ctx_state = 1, ctx_pool = WorkerPool_new 4, ctx_polling = True,
     ctx_grpc_accepting = True, ctx_cancelled = False, ctx_tasks_closed = False\<rparr>"

theorem shutdown_clean_iff_witness:
  "fst (shutdown \<lparr>wt_pool_idle = Some 5, wt_tasks_done = Some 7, wt_grpc_stopped = Some 0, wt_lag = (\<lambda>k. 0)\<rparr>
      (from_secs 15) demo_context) = Clean
   \<and> fst (shutdown \<lparr>wt_pool_idle = Some 5, wt_tasks_done = None, wt_grpc_stopped = Some 0, wt_lag = (\<lambda>k. 0)\<rparr>
      (from_secs 15) demo_context) \<noteq> Clean"
proof -
  have lag: "total_lag \<lparr>wt_pool_idle = p, wt_tasks_done = t, wt_grpc_stopped = g, wt_lag = (\<lambda>k. 0)\<rparr> = 0" for p t g
    by (simp add: total_lag_def)
  show ?thesis
    unfolding shutdown_clean_iff [OF lag] by (simp add: from_secs_def from_millis_def time_simps)
qed

text \<open>The dispatcher finishes every job it starts.\<close>

lemma dispatcher_leaves_pool:
  assumes "dispatcher_run es d = (ended, d')" and "\<forall>e\<in>set es. \<forall>b p. e \<noteq> DispOther b p"
  shows "ds_pool d' = ds_pool d"
  using assms
proof (induction es arbitrary: d)
  case (Cons e es)
  have "snd (finish_job q) = p" if "try_start_job p = (True, q)" for p q
    using that by (auto simp: try_start_job_def finish_job_def split: if_splits)
  moreover have "q = p" if "try_start_job p = (False, q)" for p q
    using that by (auto simp: try_start_job_def split: if_splits)
  ultimately show ?case
    using Cons by (cases e) (auto simp: stop_polling_def split: prod.splits if_splits bool.splits)
qed simp

end
