(* ===== verification/Logging.thy ===== *)
theory Logging
  imports App_Config Rust_Lines
begin

text \<open>
  Logging (\<open>src/src/telemetry/logging.rs\<close>): which event goes to which stream, the format, the
  panic hook and the redaction of secrets. The order on levels belongs to the \<open>tracing\<close> crate
  and is a parameter; its documentation says that the more verbose level is the greater.
\<close>

section \<open>Levels\<close>

datatype Level = ERROR | WARN | INFO | DEBUG | TRACE

datatype LevelFilter = LF_OFF | LF_ERROR | LF_WARN | LF_INFO | LF_DEBUG | LF_TRACE

text \<open>Verbosity, which orders the levels; a filter lets the levels up to its own through.\<close>

fun verbosity :: "Level \<Rightarrow> nat" where
  "verbosity ERROR = 1"
| "verbosity WARN = 2"
| "verbosity INFO = 3"
| "verbosity DEBUG = 4"
| "verbosity TRACE = 5"

fun filter_verbosity :: "LevelFilter \<Rightarrow> nat" where
  "filter_verbosity LF_OFF = 0"
| "filter_verbosity LF_ERROR = 1"
| "filter_verbosity LF_WARN = 2"
| "filter_verbosity LF_INFO = 3"
| "filter_verbosity LF_DEBUG = 4"
| "filter_verbosity LF_TRACE = 5"

instantiation Level :: linorder
begin

definition less_eq_Level :: "Level \<Rightarrow> Level \<Rightarrow> bool" where
  "less_eq_Level a b \<longleftrightarrow> verbosity a \<le> verbosity b"

definition less_Level :: "Level \<Rightarrow> Level \<Rightarrow> bool" where
  "less_Level a b \<longleftrightarrow> verbosity a < verbosity b"

instance
proof
  fix a b :: Level
  assume "a \<le> b" and "b \<le> a"
  then show "a = b" by (cases a; cases b) (simp_all add: less_eq_Level_def)
qed (auto simp: less_eq_Level_def less_Level_def)

end

text \<open>What the documentation of \<open>tracing::Level\<close> says of its \<open>PartialOrd\<close>.\<close>

definition documented_order :: "(Level \<Rightarrow> Level \<Rightarrow> bool) \<Rightarrow> bool" where
  "documented_order le \<longleftrightarrow> le = (\<le>)"

definition parse_level_filter :: "string \<Rightarrow> LevelFilter option" where
  "parse_level_filter raw =
     (let v = to_ascii_uppercase (trim raw) in
      if v = ''TRACE'' then Some LF_TRACE
      else if v = ''DEBUG'' then Some LF_DEBUG
      else if v = ''INFO'' then Some LF_INFO
      else if v = ''WARN'' \<or> v = ''WARNING'' then Some LF_WARN
      else if v = ''ERROR'' then Some LF_ERROR
      else if v = ''OFF'' then Some LF_OFF
      else None)"

fun level_allowed :: "Level \<Rightarrow> LevelFilter \<Rightarrow> bool" where
  "level_allowed level LF_OFF \<longleftrightarrow> False"
| "level_allowed level LF_ERROR \<longleftrightarrow> level = ERROR"
| "level_allowed level LF_WARN \<longleftrightarrow> level \<in> set [WARN, ERROR]"
| "level_allowed level LF_INFO \<longleftrightarrow> level \<in> set [INFO, WARN, ERROR]"
| "level_allowed level LF_DEBUG \<longleftrightarrow> level \<in> set [DEBUG, INFO, WARN, ERROR]"
| "level_allowed level LF_TRACE \<longleftrightarrow> True"

section \<open>Set-up\<close>

definition min_level :: "LogConfig \<Rightarrow> LevelFilter" where
  "min_level cfg = unwrap_or (parse_level_filter (log_level cfg)) LF_INFO"

definition stdout_filter :: "(Level \<Rightarrow> Level \<Rightarrow> bool) \<Rightarrow> LogConfig \<Rightarrow> Level \<Rightarrow> bool" where
  "stdout_filter le cfg level \<longleftrightarrow> level_allowed level (min_level cfg) \<and> le level WARN"

definition stderr_filter :: "(Level \<Rightarrow> Level \<Rightarrow> bool) \<Rightarrow> LogConfig \<Rightarrow> Level \<Rightarrow> bool" where
  "stderr_filter le cfg level \<longleftrightarrow> level_allowed level (min_level cfg) \<and> le ERROR level"

text \<open>\<open>format.trim().eq_ignore_ascii_case("json")\<close>.\<close>

definition json_format :: "LogConfig \<Rightarrow> bool" where
  "json_format cfg \<longleftrightarrow> to_ascii_lowercase (trim (log_format cfg)) = to_ascii_lowercase ''json''"

text \<open>
  The process's logging: the format and the filters of the global subscriber, and the settings
  the panic hook reports, once they are installed.
\<close>

record subscriber =
  sb_json :: bool
  sb_stdout :: "Level \<Rightarrow> bool"
  sb_stderr :: "Level \<Rightarrow> bool"

record logging =
  lg_subscriber :: "subscriber option"
  lg_panic_hook :: "(string \<times> string \<times> string) option"

text \<open>\<open>try_init\<close> fails where a global subscriber is installed already.\<close>

definition logging_init :: "(Level \<Rightarrow> Level \<Rightarrow> bool) \<Rightarrow> LogConfig \<Rightarrow> logging \<Rightarrow> (error + unit) \<times> logging" where
  "logging_init le cfg g =
     (case lg_subscriber g of
        Some _ \<Rightarrow> (Inl [Lib ''a global default trace dispatcher has already been set''], g)
      | None \<Rightarrow>
          (Inr (),
           g\<lparr>lg_subscriber := Some \<lparr>sb_json = json_format cfg, sb_stdout = stdout_filter le cfg,
               sb_stderr = stderr_filter le cfg\<rparr>,
             lg_panic_hook := Some (log_service cfg, log_environment cfg, log_host_id cfg)\<rparr>))"

text \<open>The text the panic hook logs for the payload of a panic, and its place.\<close>

datatype panic_payload = StrPayload string | StringPayload string | OtherPayload

fun payload_text :: "panic_payload \<Rightarrow> string" where
  "payload_text (StrPayload v) = v"
| "payload_text (StringPayload v) = v"
| "payload_text OtherPayload = ''panic payload unavailable''"

definition location_text :: "(string \<times> nat) option \<Rightarrow> string" where
  "location_text l = (case l of None \<Rightarrow> ''unknown'' | Some (f, n) \<Rightarrow> f @ '':'' @ show_nat n)"

section \<open>Redaction\<close>

text \<open>A slice of a \<open>str\<close> panics where its end is inside a character.\<close>

definition char_boundary :: "string \<Rightarrow> nat \<Rightarrow> bool" where
  "char_boundary s i \<longleftrightarrow> i = 0 \<or> i = length s \<or> (i < length s \<and> \<not> utf8_cont (s ! i))"

definition redact :: "string \<Rightarrow> string exec" where
  "redact input =
     (if input = [] then Done []
      else if length input \<le> 6 then Done ''***''
      else if char_boundary input 3 \<and> char_boundary input (length input - 3)
        then Done (take 3 input @ ''***'' @ drop (length input - 3) input)
      else Panic)"

text \<open>The status the process ends with after an unrecoverable error.\<close>

definition fatal_exit_code :: nat where
  "fatal_exit_code = 1"

section \<open>Lemmas\<close>

text \<open>
  The hand-written table of levels is the comparison of verbosities, and a configuration
  is accepted exactly when the logger can read its level and knows its format; so the level
  the logger falls back to is never used for a configuration that was accepted.
\<close>

lemma level_allowed_verbosity: "level_allowed level f \<longleftrightarrow> verbosity level \<le> filter_verbosity f"
  by (cases f; cases level) simp_all

lemma validate_level:
  "LogConfig_validate c = Inr () \<longleftrightarrow>
     parse_level_filter (log_level c) \<noteq> None \<and> to_ascii_lowercase (trim (log_format c)) \<in> {''json'', ''text''}"
  by (auto simp: LogConfig_validate_def parse_level_filter_def Let_def)

section \<open>Properties\<close>

text \<open>
  C40. Where events go: with the order of levels that is documented, standard output gets only
  the warnings and errors the level allows, and standard error gets every event it allows. So
  an information goes to standard error alone and an error to both streams: the comparisons
  are the wrong way round for a split of the errors from the rest.
\<close>

theorem log_streams_inverted:
  assumes "documented_order le"
  shows "(stdout_filter le cfg level \<longleftrightarrow> level_allowed level (min_level cfg) \<and> level \<in> {ERROR, WARN})
    \<and> (stderr_filter le cfg level \<longleftrightarrow> level_allowed level (min_level cfg))"
  using assms
  by (cases level) (simp_all add: documented_order_def stdout_filter_def stderr_filter_def less_eq_Level_def)

definition demo_log :: LogConfig where
  "demo_log = \<lparr>log_level = ''INFO'', log_format = ''json'', log_service = ''s'', log_environment = ''prod'',
     log_host_id = ''h''\<rparr>"

theorem log_streams_inverted_witness:
  "documented_order (\<le>)
   \<and> \<not> stdout_filter (\<le>) demo_log INFO \<and> stderr_filter (\<le>) demo_log INFO
   \<and> stdout_filter (\<le>) demo_log ERROR \<and> stderr_filter (\<le>) demo_log ERROR"
proof -
  have d: "documented_order (\<le>)" by (simp add: documented_order_def)
  have "min_level demo_log = LF_INFO"
    by (simp add: min_level_def demo_log_def parse_level_filter_def unwrap_or_def text_simps)
  with log_streams_inverted [OF d] d show ?thesis by simp
qed

text \<open>
  Redaction shows at most the first three and the last three bytes of a text of more than
  six, and nothing of a shorter one; two long texts that agree on those bytes are redacted to
  the same. It panics where a cut falls inside a character.
\<close>

lemma redact_spec:
  "redact s =
     (if s = [] then Done []
      else if length s \<le> 6 then Done ''***''
      else if utf8_cont (s ! 3) \<or> utf8_cont (s ! (length s - 3)) then Panic
      else Done (take 3 s @ ''***'' @ rev (take 3 (rev s))))"
  by (auto simp: redact_def char_boundary_def take_rev)

text \<open>The panic, on three letters followed by an accented one and three more.\<close>

lemma redact_panics: "redact (''ab'' @ [CHR 0xC3, CHR 0xA9] @ ''cde'') = Panic"
  by (simp add: redact_def char_boundary_def utf8_cont_def)

end
