(* ===== verification/Host_Discovery.thy ===== *)
theory Host_Discovery
  imports App_Config Host_Model Rust_Path Rust_Lines Rust_Float "HOL-Library.Signed_Division"
begin

text \<open>
  What the agent finds out about its host (\<open>src/src/service/host.rs\<close>): the readers of \<open>/proc\<close>
  and \<open>/sys\<close>, the callers of \<open>hostname\<close>, \<open>df\<close>, \<open>ip\<close> and \<open>lspci\<close>, and \<open>collect_host_facts\<close>.
  A \<open>HostEnv\<close> is what the host answers: the bytes of a file, the names in a directory, the
  output of a program, \<open>None\<close> where the call fails. One collection reads one \<open>HostEnv\<close>.
  The counters of lines are \<open>int\<close>: an \<open>i32\<close> overflows only after \<open>2 ^ 31\<close> lines.
\<close>

section \<open>The host\<close>

record ProcessOutput =
  po_success :: bool
  po_stdout :: string

text \<open>How far the UDP socket gets that finds the address of the default route.\<close>

datatype udp_probe = BindFails | ConnectFails | NoLocalAddr | LocalIp string

text \<open>
  \<open>he_json\<close> is serde_json's printer of an object, the only code here that is not in \<open>std\<close>;
  \<open>he_unicode_lower\<close> is what \<open>str::to_lowercase\<close> makes of text beyond ASCII.
\<close>

datatype json_lit = JBool bool | JStr string

record HostEnv =
  he_var :: "string \<Rightarrow> string option"
  he_file :: "string \<Rightarrow> string option"
  he_dir :: "string \<Rightarrow> string list option"
  he_run :: "string \<Rightarrow> string list \<Rightarrow> ProcessOutput option"
  he_udp :: udp_probe
  he_json :: "(string \<times> json_lit) list \<Rightarrow> string"
  he_unicode_lower :: "string \<Rightarrow> string"

text \<open>\<open>fs::read_to_string(p).ok()\<close>.\<close>

definition read_to_string :: "HostEnv \<Rightarrow> string \<Rightarrow> string option" where
  "read_to_string env p =
     (case he_file env p of None \<Rightarrow> None | Some b \<Rightarrow> if utf8_valid b then Some b else None)"

definition read_or_empty :: "HostEnv \<Rightarrow> string \<Rightarrow> string" where
  "read_or_empty env p = unwrap_or (read_to_string env p) []"

text \<open>The text of a program's output, and the same where it must have succeeded.\<close>

definition stdout_text :: "ProcessOutput \<Rightarrow> string" where
  "stdout_text out = from_utf8_lossy (po_stdout out)"

definition run_success :: "HostEnv \<Rightarrow> string \<Rightarrow> string list \<Rightarrow> string option" where
  "run_success env prog as =
     (case he_run env prog as of
        None \<Rightarrow> None
      | Some out \<Rightarrow> if po_success out then Some (stdout_text out) else None)"

section \<open>Names and addresses\<close>

definition nonempty :: "string \<Rightarrow> string option" where
  "nonempty s = (if s = [] then None else Some s)"

definition discover_hostname :: "HostEnv \<Rightarrow> string option" where
  "discover_hostname env =
     (let from_command = (case run_success env ''hostname'' [] of
            None \<Rightarrow> None | Some s \<Rightarrow> nonempty (trim s))
      in case he_var env ''HOSTNAME'' of
          None \<Rightarrow> from_command
        | Some value \<Rightarrow> if trim value \<noteq> [] then Some (trim value) else from_command)"

definition discover_private_ip :: "HostEnv \<Rightarrow> string option" where
  "discover_private_ip env = (case he_udp env of LocalIp ip \<Rightarrow> Some ip | _ \<Rightarrow> None)"

text \<open>The second word of the first line that starts with \<open>inet\<close> or \<open>inet6\<close> and has one.\<close>

fun first_inet :: "string list \<Rightarrow> string" where
  "first_inet [] = []"
| "first_inet (line # ls) =
     (let trimmed = trim line in
      if starts_with ''inet '' trimmed \<or> starts_with ''inet6 '' trimmed
      then case split_whitespace trimmed of
          _ # addr_part # _ \<Rightarrow> split_first CHR ''/'' addr_part
        | _ \<Rightarrow> first_inet ls
      else first_inet ls)"

definition get_ip_for_interface :: "HostEnv \<Rightarrow> string \<Rightarrow> bool \<Rightarrow> string" where
  "get_ip_for_interface env name ipv6 =
     (case he_run env ''ip'' [if ipv6 then ''-6'' else ''-4'', ''addr'', ''show'', name] of
        None \<Rightarrow> []
      | Some out \<Rightarrow> first_inet (str_lines (stdout_text out)))"

definition interface_of_entry :: "HostEnv \<Rightarrow> string \<Rightarrow> NetworkInterface" where
  "interface_of_entry env raw =
     (let name = from_utf8_lossy raw;
          dir = ''/sys/class/net/'' @ raw;
          speed = (case read_to_string env (dir @ ''/speed'') of
              None \<Rightarrow> 0
            | Some s \<Rightarrow> (case parse_i32 (trim s) of None \<Rightarrow> 0 | Some n \<Rightarrow> max n 0))
      in \<lparr>if_name = name,
          if_mac_address = (case read_to_string env (dir @ ''/address'') of None \<Rightarrow> [] | Some s \<Rightarrow> trim s),
          if_ipv4_address = get_ip_for_interface env name False,
          if_ipv6_address = get_ip_for_interface env name True,
          if_speed_mbps = speed,
          if_status = (case read_to_string env (dir @ ''/operstate'') of
              None \<Rightarrow> ''unknown'' | Some s \<Rightarrow> trim s)\<rparr>)"

definition discover_network_interfaces :: "HostEnv \<Rightarrow> NetworkInterface list" where
  "discover_network_interfaces env =
     (case he_dir env ''/sys/class/net'' of
        None \<Rightarrow> [] | Some entries \<Rightarrow> map (interface_of_entry env) entries)"

section \<open>Memory\<close>

definition i64_saturating_mul :: "int \<Rightarrow> int \<Rightarrow> int" where
  "i64_saturating_mul a b = max (- (2 ^ 63)) (min (2 ^ 63 - 1) (a * b))"

text \<open>Three divisions by 1024, and three multiplications.\<close>

definition div_1024_3 :: "f64 \<Rightarrow> f64" where
  "div_1024_3 a = f64_div (f64_div (f64_div a (Fin 1024)) (Fin 1024)) (Fin 1024)"

definition mul_1024_3 :: "f64 \<Rightarrow> f64" where
  "mul_1024_3 a = f64_mul (f64_mul (f64_mul a (Fin 1024)) (Fin 1024)) (Fin 1024)"

definition round_to_physical_ram :: "int \<Rightarrow> int" where
  "round_to_physical_ram bytes =
     (let gib = div_1024_3 (f64_of_int bytes);
          rounded_gib =
            (if f64_le gib (Fin 1) then Fin 1
             else if f64_le gib (Fin 2) then Fin 2
             else if f64_le gib (Fin 4) then Fin 4
             else if f64_le gib (Fin 8) then Fin 8
             else if f64_le gib (Fin 12) then Fin 12
             else if f64_le gib (Fin 16) then Fin 16
             else if f64_le gib (Fin 24) then Fin 24
             else if f64_le gib (Fin 32) then Fin 32
             else if f64_le gib (Fin 64) then Fin 64
             else if f64_le gib (Fin 128) then Fin 128
             else f64_ceil gib)
      in f64_as_i64 (mul_1024_3 rounded_gib))"

fun meminfo_total :: "string list \<Rightarrow> int option" where
  "meminfo_total [] = None"
| "meminfo_total (line # ls) =
     (case strip_prefix ''MemTotal:'' line of
        None \<Rightarrow> meminfo_total ls
      | Some value \<Rightarrow>
          case split_whitespace value of
            [] \<Rightarrow> None
          | w # _ \<Rightarrow>
              case parse_i64 w of
                None \<Rightarrow> None
              | Some amount_kb \<Rightarrow> Some (round_to_physical_ram (i64_saturating_mul amount_kb 1024)))"

definition discover_memory_bytes :: "HostEnv \<Rightarrow> int option" where
  "discover_memory_bytes env =
     (case read_to_string env ''/proc/meminfo'' of
        None \<Rightarrow> None | Some contents \<Rightarrow> meminfo_total (str_lines contents))"

definition discover_ram_model :: string where
  "discover_ram_model = ''Standard Memory Module''"

section \<open>Processors, graphics and disks\<close>

text \<open>The cores per socket, 0 until a line gives them, and the number of processors so far.\<close>

definition cpu_line :: "string \<Rightarrow> int \<times> int \<Rightarrow> int \<times> int" where
  "cpu_line line acc =
     (case acc of (cores, processors) \<Rightarrow>
        if starts_with ''processor'' line then (cores, processors + 1)
        else if starts_with ''cpu cores'' line then
          (case split_all CHR '':'' line of
             _ # val # _ \<Rightarrow>
               (case parse_i32 (trim val) of
                  None \<Rightarrow> (cores, processors)
                | Some c \<Rightarrow> (if cores = 0 then c else cores, processors))
           | _ \<Rightarrow> (cores, processors))
        else (cores, processors))"

definition discover_cpu_specs :: "HostEnv \<Rightarrow> int \<times> int" where
  "discover_cpu_specs env =
     (case fold cpu_line (str_lines (read_or_empty env ''/proc/cpuinfo'')) (0, 0) of
        (cores, processors) \<Rightarrow> (if cores = 0 then processors else cores, processors))"

fun first_model_name :: "string list \<Rightarrow> string" where
  "first_model_name [] = ''Unknown CPU''"
| "first_model_name (line # ls) =
     (if starts_with ''model name'' line
      then case split_once CHR '':'' line of
          Some (_, model) \<Rightarrow> trim model
        | None \<Rightarrow> first_model_name ls
      else first_model_name ls)"

definition discover_cpu_model :: "HostEnv \<Rightarrow> string" where
  "discover_cpu_model env =
     (case read_to_string env ''/proc/cpuinfo'' of
        None \<Rightarrow> ''Unknown CPU'' | Some contents \<Rightarrow> first_model_name (str_lines contents))"

text \<open>The test for a disk's name that discovery and telemetry share in wording.\<close>

definition disk_name :: "string \<Rightarrow> bool" where
  "disk_name n \<longleftrightarrow> starts_with ''sd'' n \<or> starts_with ''nvme'' n \<or> starts_with ''vd'' n"

text \<open>The model in a file of \<open>sysfs\<close>, where it can be read and is not blank.\<close>

definition model_file :: "HostEnv \<Rightarrow> string \<Rightarrow> string option" where
  "model_file env p =
     (case read_to_string env p of None \<Rightarrow> None | Some model \<Rightarrow> nonempty (trim model))"

fun first_disk_model :: "HostEnv \<Rightarrow> string list \<Rightarrow> string" where
  "first_disk_model env [] = ''Generic System Disk''"
| "first_disk_model env (raw # entries) =
     (let name = from_utf8_lossy raw
      in if disk_name name
         then case model_file env (''/sys/block/'' @ name @ ''/device/model'') of
             Some m \<Rightarrow> m
           | None \<Rightarrow>
               (case model_file env (''/sys/class/block/'' @ name @ ''/device/model'') of
                  Some m \<Rightarrow> m | None \<Rightarrow> first_disk_model env entries)
         else first_disk_model env entries)"

definition discover_disk_model :: "HostEnv \<Rightarrow> string" where
  "discover_disk_model env =
     (case he_dir env ''/sys/block'' of
        None \<Rightarrow> ''Generic System Disk'' | Some entries \<Rightarrow> first_disk_model env entries)"

fun first_gpu :: "string list \<Rightarrow> string" where
  "first_gpu [] = ''Internal Graphics''"
| "first_gpu (line # ls) =
     (if str_contains ''VGA compatible controller'' line \<or> str_contains ''NVIDIA'' line
           \<or> str_contains ''AMD'' line
      then case split_once CHR '':'' line of
          Some (_, model) \<Rightarrow> if trim model \<noteq> [] then trim model else first_gpu ls
        | None \<Rightarrow> first_gpu ls
      else first_gpu ls)"

definition discover_gpu_model :: "HostEnv \<Rightarrow> string" where
  "discover_gpu_model env =
     (case he_run env ''lspci'' [] of
        None \<Rightarrow> ''Internal Graphics'' | Some out \<Rightarrow> first_gpu (str_lines (stdout_text out)))"

text \<open>The fields of the second line that \<open>df -B1 /\<close> prints.\<close>

definition df_root_fields :: "HostEnv \<Rightarrow> string list option" where
  "df_root_fields env =
     (case run_success env ''df'' [''-B1'', ''/''] of
        None \<Rightarrow> None
      | Some stdout \<Rightarrow>
          (case str_lines stdout of
             _ # line # _ \<Rightarrow> Some (split_whitespace line) | _ \<Rightarrow> None))"

definition discover_disk_bytes :: "HostEnv \<Rightarrow> int option" where
  "discover_disk_bytes env =
     (case df_root_fields env of
        None \<Rightarrow> None
      | Some fs \<Rightarrow> if length fs < 2 then None else parse_i64 (fs ! 1))"

section \<open>Storage pools\<close>

text \<open>\<open>fields.get(i).and_then(|v| v.parse::<i64>().ok()).unwrap_or(0)\<close>.\<close>

definition field_i64 :: "string list \<Rightarrow> nat \<Rightarrow> int" where
  "field_i64 fs i =
     (if i < length fs then unwrap_or (parse_i64 (fs ! i)) 0 else 0)"

text \<open>
  The total and the used bytes in the output of \<open>df\<close>, \<open>None\<close> for a \<open>continue\<close>. The columns
  are those of the second line also where the numbers stand in the third.
\<close>

definition df_usage :: "string \<Rightarrow> (int \<times> int) option" where
  "df_usage stdout =
     (case str_lines stdout of
        _ # df_line # rest \<Rightarrow>
          let df_fields = split_whitespace df_line;
              columns =
                (if 3 \<le> length df_fields then Some (1, 2)
                 else case rest of
                     wrapped_line # _ \<Rightarrow>
                       if 2 \<le> length (split_whitespace wrapped_line) then Some (0, 1) else None
                   | [] \<Rightarrow> None)
          in (case columns of
                None \<Rightarrow> None
              | Some (total_idx, used_idx) \<Rightarrow>
                  Some (field_i64 df_fields total_idx, field_i64 df_fields used_idx))
      | _ \<Rightarrow> None)"

definition storage_device :: "string \<Rightarrow> bool" where
  "storage_device device \<longleftrightarrow> starts_with ''/dev/sd'' device \<or> starts_with ''/dev/nvme'' device
     \<or> starts_with ''/dev/vd'' device \<or> starts_with ''/dev/mapper/'' device"

definition storage_fs :: "string \<Rightarrow> bool" where
  "storage_fs t \<longleftrightarrow> t = ''ext4'' \<or> t = ''xfs'' \<or> t = ''btrfs''"

definition pool_name :: "string \<Rightarrow> string" where
  "pool_name path =
     (if path = ''/'' then ''root''
      else replace_char CHR ''/'' CHR ''-'' (trim_start_matches ''/'' path))"

definition pool_of_mount :: "HostEnv \<Rightarrow> string \<Rightarrow> StoragePool option" where
  "pool_of_mount env line =
     (case split_whitespace line of
        device # path # fs_type # _ \<Rightarrow>
          if storage_device device \<and> storage_fs fs_type
          then case run_success env ''df'' [''-B1'', path] of
              None \<Rightarrow> None
            | Some stdout \<Rightarrow>
                (case df_usage stdout of
                   None \<Rightarrow> None
                 | Some (tot, used) \<Rightarrow>
                     if 0 < tot
                     then Some \<lparr>sp_name = pool_name path, sp_driver = ''dir'', sp_path = path,
                         sp_total_bytes = tot, sp_used_bytes = used, sp_status = ''active'',
                         sp_metadata_json = he_json env [(''device'', JStr device)]\<rparr>
                     else None)
          else None
      | _ \<Rightarrow> None)"

definition discover_storage_pools :: "HostEnv \<Rightarrow> StoragePool list" where
  "discover_storage_pools env =
     List.map_filter (pool_of_mount env) (str_lines (read_or_empty env ''/proc/mounts''))"

section \<open>Usage\<close>

text \<open>A field of \<open>/proc/meminfo\<close> in GiB where the line has it; \<open>None\<close> for the \<open>?\<close> that fails.\<close>

definition meminfo_gib :: "string \<Rightarrow> string \<Rightarrow> f64 \<Rightarrow> f64 option" where
  "meminfo_gib key line old =
     (case strip_prefix key line of
        None \<Rightarrow> Some old
      | Some val \<Rightarrow>
          case split_whitespace val of
            [] \<Rightarrow> None
          | w # _ \<Rightarrow>
              map_option (\<lambda>x. f64_div (f64_div x (Fin 1024)) (Fin 1024)) (parse_f64 w))"

fun ram_lines :: "string list \<Rightarrow> f64 \<Rightarrow> f64 \<Rightarrow> (f64 \<times> f64) option" where
  "ram_lines [] tot available = Some (tot, available)"
| "ram_lines (line # ls) tot available =
     (case meminfo_gib ''MemTotal:'' line tot of
        None \<Rightarrow> None
      | Some tot1 \<Rightarrow>
          case meminfo_gib ''MemAvailable:'' line available of
            None \<Rightarrow> None
          | Some available1 \<Rightarrow> ram_lines ls tot1 available1)"

definition read_ram_used_gib :: "HostEnv \<Rightarrow> f64 option" where
  "read_ram_used_gib env =
     (case read_to_string env ''/proc/meminfo'' of
        None \<Rightarrow> None
      | Some contents \<Rightarrow>
          case ram_lines (str_lines contents) (Fin 0) (Fin 0) of
            None \<Rightarrow> None
          | Some (tot, available) \<Rightarrow>
              if f64_lt (Fin 0) tot then Some (f64_sub tot available) else None)"

definition read_ssd_used_gib :: "HostEnv \<Rightarrow> f64 option" where
  "read_ssd_used_gib env =
     (case df_root_fields env of
        None \<Rightarrow> None
      | Some fs \<Rightarrow>
          if length fs < 3 then None
          else map_option div_1024_3 (parse_f64 (fs ! 2)))"

definition usage_snapshot_gib :: "HostEnv \<Rightarrow> f64 \<times> f64" where
  "usage_snapshot_gib env =
     (unwrap_or (read_ram_used_gib env) (Fin 0), unwrap_or (read_ssd_used_gib env) (Fin 0))"

section \<open>The facts\<close>

text \<open>\<open>x as i32\<close> for an \<open>i64\<close>, and its division, which truncates.\<close>

definition i64_as_i32 :: "int \<Rightarrow> int" where
  "i64_as_i32 x = (x + 2 ^ 31) mod 2 ^ 32 - 2 ^ 31"

definition memory_gib :: "int \<Rightarrow> int" where
  "memory_gib bytes = i64_as_i32 (((bytes sdiv 1024) sdiv 1024) sdiv 1024)"

definition private_ip_of :: "HostEnv \<Rightarrow> NetworkInterface list \<Rightarrow> string" where
  "private_ip_of env ifs =
     (case List.find (\<lambda>iface. if_name iface \<noteq> ''lo'' \<and> if_ipv4_address iface \<noteq> []) ifs of
        Some iface \<Rightarrow> if_ipv4_address iface
      | None \<Rightarrow> unwrap_or (discover_private_ip env) ''127.0.0.1'')"

definition gpu_devices_of :: "string \<Rightarrow> GPUDevice list" where
  "gpu_devices_of model =
     (if trim model = [] then []
      else [\<lparr>gpu_device_index = 0, gpu_model = model, gpu_memory_gib_of = 0, gpu_core_count = 0\<rparr>])"

definition collect_host_facts :: "HostEnv \<Rightarrow> AppConfig \<Rightarrow> HostFacts" where
  "collect_host_facts env config =
     (let node_id = app_node_id (cfg_app config);
          hostname = unwrap_or (discover_hostname env) node_id;
          network_interfaces = discover_network_interfaces env;
          private_ip = private_ip_of env network_interfaces;
          (cpu_cores, cpu_threads) = discover_cpu_specs env;
          cpu_model = discover_cpu_model env;
          memory_bytes = unwrap_or (discover_memory_bytes env) 0;
          ram_model = discover_ram_model;
          disk_bytes = unwrap_or (discover_disk_bytes env) 0;
          disk_model = discover_disk_model env;
          gpu_model = discover_gpu_model env;
          capabilities_json = he_json env [(''mtls'', JBool True), (''heartbeat'', JBool True)]
      in \<lparr>agent_id = node_id, host_id = node_id, hostname = hostname, private_ip = private_ip,
          hypervisor_type = ''kvm'', agent_version = ac_version (cfg_agent config),
          capabilities_json = capabilities_json, cpu_cores = cpu_cores, cpu_threads = cpu_threads,
          memory_bytes = memory_bytes, disk_bytes = disk_bytes, gpu_cores = 0, gpu_memory_gib = 0,
          cpu_packages = [\<lparr>cpu_package_index = 0, cpu_model = cpu_model, cpu_cores_of = cpu_cores,
             cpu_threads_of = cpu_threads\<rparr>],
          memory_modules = [\<lparr>mem_slot_index = 0, mem_model = ram_model,
             mem_size_gib = memory_gib memory_bytes\<rparr>],
          gpu_devices = gpu_devices_of gpu_model,
          network_interfaces = network_interfaces\<rparr>)"

end
