(* ===== verification/Host_Properties.thy ===== *)
theory Host_Properties
  imports Host_Discovery
begin

text \<open>
  What host discovery guarantees: the rounding of the memory size agrees with an integer
  specification, the storage pools and the facts are well formed, and what the parsers make
  of unusual outputs.
\<close>

section \<open>Memory\<close>

text \<open>The specification: the sizes up to 128 GiB that memory is sold in, then whole GiB.\<close>

definition physical_gib :: "int \<Rightarrow> int" where
  "physical_gib n =
     (if n \<le> 1 then 1 else if n \<le> 2 then 2 else if n \<le> 4 then 4 else if n \<le> 8 then 8
      else if n \<le> 12 then 12 else if n \<le> 16 then 16 else if n \<le> 24 then 24 else if n \<le> 32 then 32
      else if n \<le> 64 then 64 else if n \<le> 128 then 128 else n)"

definition physical_ram :: "int \<Rightarrow> int" where
  "physical_ram bytes = min (2 ^ 63 - 1) (2 ^ 30 * physical_gib ((bytes + 2 ^ 30 - 1) div 2 ^ 30))"

lemma f64_kb:
  assumes "\<bar>kb\<bar> \<le> 2 ^ 53"
  shows "div_1024_3 (Fin (real_of_int (1024 * kb))) = Fin (real_of_int kb / 2 ^ 20)"
    and "f64_of_int (1024 * kb) = Fin (real_of_int (1024 * kb))"
proof -
  have "f64_of_real (real_of_int kb) = Fin (real_of_int kb)"
    by (rule f64_exact_64 [of _ kb 0]) (use assms in simp_all)
  moreover have "f64_of_real (real_of_int kb / 1024) = Fin (real_of_int kb / 1024)"
    by (rule f64_exact_64 [of _ kb "- 10"]) (use assms in \<open>simp_all add: power_int_def field_simps\<close>)
  moreover have "f64_of_real (real_of_int kb / 1024 / 1024) = Fin (real_of_int kb / 1024 / 1024)"
    by (rule f64_exact_64 [of _ kb "- 20"]) (use assms in \<open>simp_all add: power_int_def field_simps\<close>)
  ultimately show "div_1024_3 (Fin (real_of_int (1024 * kb))) = Fin (real_of_int kb / 2 ^ 20)"
    by (simp add: div_1024_3_def)
  show "f64_of_int (1024 * kb) = Fin (real_of_int (1024 * kb))"
    unfolding f64_of_int_def
    by (rule f64_exact_64 [of _ kb 10]) (use assms in \<open>simp_all add: power_int_def\<close>)
qed

lemma f64_gib:
  assumes "0 \<le> n" and "n \<le> 2 ^ 33"
  shows "f64_as_i64 (mul_1024_3 (Fin (real_of_int n))) = min (2 ^ 63 - 1) (2 ^ 30 * n)"
proof -
  have n: "\<bar>n\<bar> \<le> 2 ^ 53" using assms by simp
  have m: "f64_of_real (real_of_int n * 1024) = Fin (real_of_int n * 1024)"
    "f64_of_real (real_of_int n * 1024 * 1024) = Fin (real_of_int n * 1024 * 1024)"
    "f64_of_real (real_of_int n * 1024 * 1024 * 1024) = Fin (real_of_int n * 1024 * 1024 * 1024)"
    by (rule f64_exact_64 [of _ n 10], use n in \<open>simp_all add: power_int_def\<close>)
       (rule f64_exact_64 [of _ n 20], use n in \<open>simp_all add: power_int_def\<close>,
        rule f64_exact_64 [of _ n 30], use n in \<open>simp_all add: power_int_def\<close>)
  have "trunc (real_of_int n * 1073741824) = n * 1073741824"
    using trunc_of_int [of "n * 1073741824"] by (simp del: trunc_of_int)
  then show ?thesis
    using assms(1) m by (simp add: mul_1024_3_def f64_as_i64_def f64_as_int_def mult.commute)
qed

lemma ceiling_kb: "\<lceil>real_of_int kb / 2 ^ 20\<rceil> = (1024 * kb + 2 ^ 30 - 1) div 2 ^ 30"
proof -
  have "\<lceil>real_of_int (1024 * kb) / real_of_int (2 ^ 30)\<rceil> = - (- (1024 * kb) div 2 ^ 30)"
    by (rule ceiling_divide_eq_div)
  then have "\<lceil>real_of_int kb / 2 ^ 20\<rceil> = - (- (1024 * kb) div 2 ^ 30)" by simp
  also have "\<dots> = (1024 * kb + 2 ^ 30 - 1) div 2 ^ 30" by simp
  finally show ?thesis .
qed

lemma round_to_physical_ram_gib:
  assumes "f64_of_int bytes = Fin (real_of_int (1024 * kb))" and "\<bar>kb\<bar> \<le> 2 ^ 53"
  shows "round_to_physical_ram bytes
    = min (2 ^ 63 - 1) (2 ^ 30 * physical_gib ((1024 * kb + 2 ^ 30 - 1) div 2 ^ 30))"
proof -
  let ?g = "real_of_int kb / 2 ^ 20" and ?n = "\<lceil>real_of_int kb / 2 ^ 20\<rceil>"
  have "?g \<le> of_int (2 ^ 33)" using assms(2) by simp
  then have n: "?n \<le> 2 ^ 33" by (simp only: ceiling_le_iff)
  have le: "?g \<le> real_of_int c \<longleftrightarrow> ?n \<le> c" for c by (simp only: ceiling_le_iff)
  note le' = le [of 1] le [of 2] le [of 4] le [of 8] le [of 12] le [of 16] le [of 24] le [of 32]
    le [of 64] le [of 128]
  have "round_to_physical_ram bytes = f64_as_i64 (mul_1024_3 (Fin (real_of_int (physical_gib ?n))))"
    unfolding round_to_physical_ram_def Let_def assms(1) f64_kb(1) [OF assms(2)] physical_gib_def
    using le' by simp
  also have "\<dots> = min (2 ^ 63 - 1) (2 ^ 30 * physical_gib ?n)"
    by (rule f64_gib) (use n in \<open>simp_all add: physical_gib_def\<close>)
  finally show ?thesis unfolding ceiling_kb .
qed

lemma round_real_63: "round_real (2 ^ 63 - 1) = 2 ^ 63"
proof -
  let ?x = "2 ^ 63 - 1 :: real"
  have "(2 :: real) powi ilog2 ?x < 2 powi 63" "(2 :: real) powi 62 < 2 powi (ilog2 ?x + 1)"
    using ilog2_bounds [of ?x] by (simp_all del: powi2_less)
  then have "ilog2 ?x = 62" unfolding powi2_less by simp
  then have u: "ulp_exp ?x = 10" by (simp add: ulp_exp_def)
  have "\<lfloor>?x / 2 powi 10\<rfloor> = 2 ^ 53 - 1" by (simp add: floor_eq_iff)
  then have "round_even (?x / 2 powi 10) = 2 ^ 53"
    by (simp add: round_even_def Let_def)
  then show ?thesis unfolding round_real_def u by simp
qed

lemma f64_63: "f64_of_int (2 ^ 63 - 1) = Fin (2 ^ 63)"
proof -
  have "(2 :: real) ^ 63 - 1 \<le> 2 ^ 1023"
    by (rule order_trans [of _ "2 ^ 63"]) (simp, rule power_increasing, simp_all)
  then show ?thesis
    using f64_of_real_Fin [of "2 ^ 63 - 1"] by (simp only: f64_of_int_def of_int_diff of_int_power of_int_numeral of_int_1 round_real_63)
      simp
qed

text \<open>Every size \<open>/proc/meminfo\<close> can give, with the multiplication that saturates.\<close>

lemma round_kb: "round_to_physical_ram (i64_saturating_mul kb 1024) = physical_ram (i64_saturating_mul kb 1024)"
proof -
  consider (fits) "\<bar>kb\<bar> \<le> 2 ^ 53" "kb < 2 ^ 53" | (high) "2 ^ 53 \<le> kb" | (low) "kb < - (2 ^ 53)"
    by linarith
  then show ?thesis
  proof cases
    case fits
    then have "i64_saturating_mul kb 1024 = 1024 * kb" by (simp add: i64_saturating_mul_def)
    with round_to_physical_ram_gib [OF f64_kb(2) fits(1)] fits(1) show ?thesis
      by (simp add: physical_ram_def)
  next
    case high
    then have s: "i64_saturating_mul kb 1024 = 2 ^ 63 - 1" by (simp add: i64_saturating_mul_def)
    have "round_to_physical_ram (2 ^ 63 - 1) = min (2 ^ 63 - 1) (2 ^ 30 * physical_gib ((1024 * 2 ^ 53 + 2 ^ 30 - 1) div 2 ^ 30))"
      by (rule round_to_physical_ram_gib) (simp_all only: f64_63, simp_all)
    also have "\<dots> = physical_ram (2 ^ 63 - 1)" by (simp add: physical_ram_def physical_gib_def)
    finally show ?thesis by (simp only: s)
  next
    case low
    then have s: "i64_saturating_mul kb 1024 = 1024 * (- (2 ^ 53))" by (simp add: i64_saturating_mul_def)
    have "round_to_physical_ram (1024 * (- (2 ^ 53))) = min (2 ^ 63 - 1) (2 ^ 30 * physical_gib ((1024 * (- (2 ^ 53)) + 2 ^ 30 - 1) div 2 ^ 30))"
      by (rule round_to_physical_ram_gib [OF f64_kb(2)]) simp_all
    then show ?thesis by (simp only: s physical_ram_def)
  qed
qed

lemma physical_gib_ge: "n \<le> physical_gib n" "1 \<le> physical_gib n"
  by (simp_all add: physical_gib_def)

lemma ceil_div_ge: "q * m + r = b + m - 1 \<Longrightarrow> r < m \<Longrightarrow> (b :: int) \<le> m * q"
  by (simp add: mult.commute)

lemma physical_ram_ge:
  assumes "bytes \<le> 2 ^ 63 - 1"
  shows "bytes \<le> physical_ram bytes" and "2 ^ 30 \<le> physical_ram bytes"
    and "physical_ram bytes \<le> 2 ^ 63 - 1"
proof -
  let ?n = "(bytes + 2 ^ 30 - 1) div 2 ^ 30"
  have "?n * 2 ^ 30 + (bytes + 2 ^ 30 - 1) mod 2 ^ 30 = bytes + 2 ^ 30 - 1" by (rule div_mult_mod_eq)
  moreover have "(bytes + 2 ^ 30 - 1) mod 2 ^ 30 < 2 ^ 30" by (rule pos_mod_bound) simp
  ultimately have "bytes \<le> 2 ^ 30 * ?n" by (rule ceil_div_ge)
  also have "\<dots> \<le> 2 ^ 30 * physical_gib ?n" by (simp add: physical_gib_ge)
  finally show "bytes \<le> physical_ram bytes" using assms by (simp add: physical_ram_def)
  show "2 ^ 30 \<le> physical_ram bytes" using physical_gib_ge(2) [of ?n] by (simp add: physical_ram_def)
  show "physical_ram bytes \<le> 2 ^ 63 - 1" by (simp add: physical_ram_def)
qed

lemma saturating_range: "- (2 ^ 63) \<le> i64_saturating_mul a b" "i64_saturating_mul a b \<le> 2 ^ 63 - 1"
  by (simp_all add: i64_saturating_mul_def)

lemma memory_bytes_range:
  assumes "discover_memory_bytes env = Some b"
  shows "2 ^ 30 \<le> b" and "b \<le> 2 ^ 63 - 1"
proof -
  have "\<exists>kb. b = round_to_physical_ram (i64_saturating_mul kb 1024)"
    if "meminfo_total ls = Some b" for ls
    using that by (induction ls) (auto split: option.splits list.splits)
  with assms obtain kb where "b = physical_ram (i64_saturating_mul kb 1024)"
    by (auto simp: discover_memory_bytes_def round_kb split: option.splits)
  with physical_ram_ge [OF saturating_range(2)] show "2 ^ 30 \<le> b" and "b \<le> 2 ^ 63 - 1" by simp_all
qed

section \<open>Storage pools\<close>

lemma df_usage_fields:
  assumes "df_usage stdout = Some (t, u)"
  obtains header df_line rest where "str_lines stdout = header # df_line # rest"
    and "(t, u) = (if 3 \<le> length (split_whitespace df_line)
           then (field_i64 (split_whitespace df_line) 1, field_i64 (split_whitespace df_line) 2)
           else (field_i64 (split_whitespace df_line) 0, field_i64 (split_whitespace df_line) 1))"
  using assms by (auto simp: df_usage_def Let_def split: list.splits if_splits)

lemma field_i64_range: "- (2 ^ 63) \<le> field_i64 fs i \<and> field_i64 fs i \<le> 2 ^ 63 - 1"
  using parse_i64_range by (auto simp: field_i64_def unwrap_or_def split: option.splits)

lemma pool_of_mount_Some:
  assumes "pool_of_mount env line = Some p"
  obtains device fs_type rest stdout
  where "split_whitespace line = device # sp_path p # fs_type # rest"
    and "storage_device device" and "storage_fs fs_type"
    and "run_success env ''df'' [''-B1'', sp_path p] = Some stdout"
    and "df_usage stdout = Some (sp_total_bytes p, sp_used_bytes p)" and "0 < sp_total_bytes p"
    and "sp_name p = pool_name (sp_path p)" and "sp_driver p = ''dir''" and "sp_status p = ''active''"
    and "sp_metadata_json p = he_json env [(''device'', JStr device)]"
  using assms by (auto simp: pool_of_mount_def split: list.splits option.splits if_splits)

lemma discover_storage_pools_mem:
  "p \<in> set (discover_storage_pools env) \<longleftrightarrow>
     (\<exists>line\<in>set (str_lines (read_or_empty env ''/proc/mounts'')). pool_of_mount env line = Some p)"
  by (auto simp: discover_storage_pools_def List.map_filter_def image_iff)

lemma df_usage_wrapped:
  assumes "str_lines stdout = header # df_line # rest" and "split_whitespace df_line = [d]"
    and "starts_with ''/'' d"
  shows "df_usage stdout = None \<or> df_usage stdout = Some (0, 0)"
proof -
  from assms(3) obtain r where "d = CHR ''/'' # r" by (auto simp: starts_with_iff)
  then have "parse_i64 d = None" by (simp add: parse_i64_def parse_signed_def digit_val_def)
  then have "field_i64 [d] 0 = 0" "field_i64 [d] 1 = 0" by (simp_all add: field_i64_def unwrap_or_def)
  with assms(1,2) show ?thesis by (auto simp: df_usage_def Let_def split: list.splits)
qed

section \<open>Processors and graphics\<close>

text \<open>The number in a line that starts with \<open>cpu cores\<close>.\<close>

definition core_count :: "string \<Rightarrow> int option" where
  "core_count line =
     (if starts_with ''processor'' line \<or> \<not> starts_with ''cpu cores'' line then None
      else case split_all CHR '':'' line of _ # val # _ \<Rightarrow> parse_i32 (trim val) | _ \<Rightarrow> None)"

definition processor_lines :: "string list \<Rightarrow> string list" where
  "processor_lines ls = filter (starts_with ''processor'') ls"

definition first_core_count :: "string list \<Rightarrow> int" where
  "first_core_count ls =
     unwrap_or (List.find (\<lambda>c. c \<noteq> 0) (List.map_filter core_count ls)) 0"

lemma cpu_line_core:
  "cpu_line line (c, n) =
     (if starts_with ''processor'' line then (c, n + 1)
      else case core_count line of None \<Rightarrow> (c, n) | Some k \<Rightarrow> (if c = 0 then k else c, n))"
  by (simp add: cpu_line_def core_count_def split: list.split)

lemma first_core_count_simps:
  "first_core_count [] = 0"
  "first_core_count (line # ls) =
     (case core_count line of None \<Rightarrow> first_core_count ls
      | Some k \<Rightarrow> if k = 0 then first_core_count ls else k)"
  by (simp_all add: first_core_count_def unwrap_or_def List.map_filter_simps split: option.split)

lemma processor_has_no_count: "starts_with ''processor'' line \<Longrightarrow> core_count line = None"
  by (simp add: core_count_def)

lemma cpu_fold:
  "fold cpu_line ls (c, n) =
     (if c = 0 then first_core_count ls else c, n + int (length (processor_lines ls)))"
proof (induction ls arbitrary: c n)
  case (Cons line ls)
  then show ?case
    by (cases "starts_with ''processor'' line"; cases "core_count line")
       (simp_all add: cpu_line_core first_core_count_simps processor_lines_def processor_has_no_count)
qed (simp add: first_core_count_simps processor_lines_def)

lemma first_gpu_nonblank: "trim (first_gpu ls) \<noteq> []"
proof (induction ls)
  case Nil
  then show ?case by (simp add: text_simps)
next
  case (Cons line ls)
  then show ?case by (simp split: option.splits)
qed

lemma discover_gpu_model_nonblank: "trim (discover_gpu_model env) \<noteq> []"
  using first_gpu_nonblank first_gpu_nonblank [of "[]"]
  by (simp add: discover_gpu_model_def split: option.splits)

section \<open>Facts\<close>

text \<open>
  What the rest of the agent may rely on in facts: one identity, sizes in range, memory of at
  least 1 GiB or unknown, one processor package with the counts of the host, interfaces with
  a speed that is not negative, one GPU with a name.
\<close>

definition interface_wf :: "NetworkInterface \<Rightarrow> bool" where
  "interface_wf i \<longleftrightarrow> 0 \<le> if_speed_mbps i \<and> if_speed_mbps i \<le> 2 ^ 31 - 1
     \<and> trim (if_mac_address i) = if_mac_address i \<and> trim (if_status i) = if_status i"

definition memory_size_wf :: "int \<Rightarrow> bool" where
  "memory_size_wf b \<longleftrightarrow> b = 0 \<or> (2 ^ 30 \<le> b \<and> b \<le> 2 ^ 63 - 1)"

definition facts_wf :: "HostFacts \<Rightarrow> bool" where
  "facts_wf f \<longleftrightarrow> agent_id f = host_id f \<and> memory_size_wf (memory_bytes f)
     \<and> - (2 ^ 63) \<le> disk_bytes f \<and> disk_bytes f \<le> 2 ^ 63 - 1 \<and> 0 \<le> cpu_threads f
     \<and> map cpu_cores_of (cpu_packages f) = [cpu_cores f]
     \<and> map cpu_threads_of (cpu_packages f) = [cpu_threads f]
     \<and> map mem_size_gib (memory_modules f) = [memory_gib (memory_bytes f)]
     \<and> length (gpu_devices f) = 1 \<and> list_all (\<lambda>g. trim (gpu_model g) \<noteq> []) (gpu_devices f)
     \<and> list_all interface_wf (network_interfaces f)"

lemma discover_disk_bytes_range:
  "discover_disk_bytes env = Some b \<Longrightarrow> - (2 ^ 63) \<le> b \<and> b \<le> 2 ^ 63 - 1"
  using parse_i64_range by (auto simp: discover_disk_bytes_def split: option.splits if_splits)

lemma interface_of_entry_wf: "interface_wf (interface_of_entry env raw)"
proof -
  have u: "trim ''unknown'' = ''unknown''" by (simp add: text_simps)
  have "0 \<le> max n 0 \<and> max n 0 \<le> 2 ^ 31 - 1" if "parse_i32 s = Some n" for s n
    using parse_i32_range [OF that] by simp
  with u show ?thesis
    by (simp add: interface_wf_def interface_of_entry_def Let_def split: option.split)
qed

text \<open>
  The processor counts: the threads are the lines of \<open>/proc/cpuinfo\<close> that start with
  \<open>processor\<close>; the cores are the first count in a line \<open>cpu cores\<close> that is not zero, so those
  of one socket, and without one the number of threads.
\<close>

lemma discover_cpu_specs_eq:
  "discover_cpu_specs env =
     (let ls = str_lines (read_or_empty env ''/proc/cpuinfo''); threads = int (length (processor_lines ls));
          cores = first_core_count ls
      in (if cores = 0 then threads else cores, threads))"
  by (simp add: discover_cpu_specs_def cpu_fold Let_def)

lemma collect_host_facts_wf: "facts_wf (collect_host_facts env config)"
proof -
  obtain c t where ct: "discover_cpu_specs env = (c, t)" by (cases "discover_cpu_specs env")
  then have "0 \<le> t" by (auto simp: discover_cpu_specs_eq Let_def)
  moreover have "memory_size_wf (unwrap_or (discover_memory_bytes env) 0)"
    using memory_bytes_range [of env]
    by (cases "discover_memory_bytes env") (simp_all add: memory_size_wf_def unwrap_or_def)
  moreover have "- (2 ^ 63) \<le> unwrap_or (discover_disk_bytes env) 0
      \<and> unwrap_or (discover_disk_bytes env) 0 \<le> 2 ^ 63 - 1"
    using discover_disk_bytes_range [of env]
    by (cases "discover_disk_bytes env") (simp_all add: unwrap_or_def)
  moreover have "list_all interface_wf (discover_network_interfaces env)"
    by (cases "he_dir env ''/sys/class/net''")
       (simp_all add: discover_network_interfaces_def list_all_iff interface_of_entry_wf)
  ultimately show ?thesis
    using discover_gpu_model_nonblank [of env]
    by (simp add: facts_wf_def collect_host_facts_def Let_def ct gpu_devices_of_def)
qed

section \<open>An example host\<close>

definition lf :: string where "lf = [CHR 0x0A]"

definition demo_files :: "string \<Rightarrow> string option" where
  "demo_files p =
     (if p = ''/proc/mounts'' then Some (''proc /proc proc rw'' @ lf @ ''/dev/sda1 / ext4 rw'' @ lf)
      else None)"

definition demo_host :: "string \<Rightarrow> HostEnv" where
  "demo_host df_output = \<lparr>he_var = (\<lambda>_. None), he_file = demo_files, he_dir = (\<lambda>_. None),
     he_run = (\<lambda>prog as. if prog = ''df'' then Some \<lparr>po_success = True, po_stdout = df_output\<rparr> else None),
     he_udp = BindFails, he_json = (\<lambda>_. ''{}''), he_unicode_lower = id\<rparr>"

definition demo_df :: string where
  "demo_df = ''Filesystem 1B-blocks Used'' @ lf @ ''/dev/sda1 100 40'' @ lf"

definition demo_df_wrapped :: string where
  "demo_df_wrapped = ''Filesystem 1B-blocks Used'' @ lf @ ''/dev/sda1'' @ lf @ ''100 40'' @ lf"

lemma demo_pools:
  "discover_storage_pools (demo_host demo_df) =
     [\<lparr>sp_name = ''root'', sp_driver = ''dir'', sp_path = ''/'', sp_total_bytes = 100,
       sp_used_bytes = 40, sp_status = ''active'', sp_metadata_json = ''{}''\<rparr>]"
  by (simp add: discover_storage_pools_def demo_host_def demo_files_def demo_df_def lf_def
      read_or_empty_def read_to_string_def unwrap_or_def text_simps List.map_filter_simps
      pool_of_mount_def storage_device_def storage_fs_def run_success_def stdout_text_def
      df_usage_def field_i64_def pool_name_def)

text \<open>The columns of \<open>lspci\<close>: the model is cut at the colon of the slot.\<close>

lemma gpu_model_keeps_slot:
  "first_gpu [''00:02.0 VGA compatible controller: X''] = ''02.0 VGA compatible controller: X''"
  by (simp add: text_simps)

text \<open>Two sockets of two cores each count as two cores.\<close>

lemma cores_of_one_socket:
  "first_core_count [''processor : 0'', ''cpu cores : 2'', ''processor : 1'', ''cpu cores : 2'',
     ''processor : 2'', ''cpu cores : 2'', ''processor : 3'', ''cpu cores : 2''] = 2"
  by (simp add: first_core_count_simps core_count_def text_simps)

section \<open>Properties\<close>

text \<open>
  C14. The memory size reported, computed in floating point, is exactly the integer
  specification \<open>physical_ram\<close>, for every number of KiB \<open>/proc/meminfo\<close> can give: the size
  of the kernel rounded up to a size memory is sold in. It is never below the size of the
  kernel and never below 1 GiB.
\<close>

theorem ram_rounding_equivalent:
  "round_to_physical_ram (i64_saturating_mul kb 1024) = physical_ram (i64_saturating_mul kb 1024)
   \<and> i64_saturating_mul kb 1024 \<le> round_to_physical_ram (i64_saturating_mul kb 1024)
   \<and> 2 ^ 30 \<le> round_to_physical_ram (i64_saturating_mul kb 1024)"
  unfolding round_kb using physical_ram_ge [OF saturating_range(2)] by simp



text \<open>
  Where \<open>df\<close> wraps its line, because the device's name fills it, the pool is dropped: the
  numbers stand in the third line, but the code still reads the second, whose first field is
  the path of a device and no number. The comment in the code says that the case is handled.
\<close>

lemma wrapped_df_drops_pool:
  assumes "split_whitespace line = device # path # fs_type # rest"
    and "run_success env ''df'' [''-B1'', path] = Some stdout"
    and "str_lines stdout = header # df_line # others"
    and "split_whitespace df_line = [d]" and "starts_with ''/'' d"
  shows "pool_of_mount env line = None"
  using df_usage_wrapped [OF assms(3-5)] assms(1,2) by (auto simp: pool_of_mount_def)

lemma wrapped_df_drops_pool_example:
  "pool_of_mount (demo_host demo_df_wrapped) ''/dev/sda1 / ext4 rw'' = None
   \<and> pool_of_mount (demo_host demo_df) ''/dev/sda1 / ext4 rw'' \<noteq> None"
proof -
  have "pool_of_mount (demo_host demo_df_wrapped) ''/dev/sda1 / ext4 rw'' = None"
    by (rule wrapped_df_drops_pool [of _ "''/dev/sda1''" "''/''" "''ext4''" "[''rw'']" _ demo_df_wrapped
          "''Filesystem 1B-blocks Used''" "''/dev/sda1''" "[''100 40'']" "''/dev/sda1''"])
       (simp_all add: demo_host_def demo_df_wrapped_def lf_def run_success_def stdout_text_def text_simps)
  moreover have "pool_of_mount (demo_host demo_df) ''/dev/sda1 / ext4 rw'' \<noteq> None"
    by (simp add: demo_host_def demo_df_def lf_def text_simps pool_of_mount_def storage_device_def
        storage_fs_def run_success_def stdout_text_def df_usage_def field_i64_def unwrap_or_def)
  ultimately show ?thesis by simp
qed

text \<open>
  C26. The facts are well formed whatever the host answers: the two identities are the node's,
  the memory is unknown or between 1 GiB and the largest \<open>i64\<close>, the one processor package has
  the host's counts, every interface has a speed from 0 to the largest \<open>i32\<close>, and there is
  always exactly one GPU, with a name, also on a host that has none.
\<close>

theorem host_facts_wf:
  "facts_wf (collect_host_facts env config)
   \<and> host_id (collect_host_facts env config) = app_node_id (cfg_app config)
   \<and> agent_version (collect_host_facts env config) = ac_version (cfg_agent config)
   \<and> private_ip (collect_host_facts env config)
       = private_ip_of env (network_interfaces (collect_host_facts env config))"
  using collect_host_facts_wf [of env config]
  by (simp add: collect_host_facts_def Let_def split: prod.splits)

end
