(* ===== verification/Agent_Main.thy ===== *)
theory Agent_Main
  imports Registry Lifecycle Logging Host_Properties
begin

text \<open>
  The process (\<open>src/src/main.rs\<close>, \<open>app/context.rs\<close> and the wait for a signal of
  \<open>app/lifecycle.rs\<close>): the configuration, the logger and the application's context, the three
  tasks, the signal and the shutdown. It composes the models of the parts: \<open>load_from_env\<close>,
  \<open>collect_host_facts\<close>, \<open>connect_hypervisor\<close>, \<open>shutdown\<close>.
\<close>

section \<open>The context\<close>

definition AppContext_new :: "AppConfig \<Rightarrow> app_context" where
  "AppContext_new config =
     \<lparr>ctx_state = AppState_code Starting, ctx_pool = WorkerPool_new (max_workers (cfg_worker config)),
      ctx_polling = True, ctx_grpc_accepting = True, ctx_cancelled = False, ctx_tasks_closed = False\<rparr>"

definition state_set :: "AppState \<Rightarrow> app_context \<Rightarrow> app_context" where
  "state_set a ctx = ctx\<lparr>ctx_state := AppState_code a\<rparr>"

section \<open>Signals\<close>

text \<open>
  On Unix: the handler of SIGTERM cannot be installed, or one of the two signals comes first. A
  \<open>ctrl_c\<close> that returns an error counts as the signal, since its result is not looked at.
\<close>

datatype signal_event = NoSigterm error | CtrlC | SigTerm

fun wait_for_shutdown_signal :: "signal_event \<Rightarrow> error + string" where
  "wait_for_shutdown_signal (NoSigterm e) = Inl e"
| "wait_for_shutdown_signal CtrlC = Inr ''ctrl_c''"
| "wait_for_shutdown_signal SigTerm = Inr ''sigterm''"

section \<open>The process\<close>

text \<open>What the process finds: its arguments and environment, the host, the files and the network.\<close>

record ('v, 'o) world =
  wo_args :: "string list"
  wo_ulid :: string
  wo_env :: env
  wo_level_order :: "Level \<Rightarrow> Level \<Rightarrow> bool"
  wo_logging :: logging
  wo_libs :: "'v libs"
  wo_checks :: bool
  wo_host :: HostEnv
  wo_open_faults :: "error option list"
  wo_ledger :: CommandLedger
  wo_now :: int
  wo_fs :: fs
  wo_turns :: "'o turn list"
  wo_signal :: signal_event
  wo_waits :: waits

text \<open>The lines it logs, in order.\<close>

datatype main_log =
    ProcessStarted
  | ConfigLoaded
  | EnrollmentFailed error
  | SignalReceived string
  | SignalWaitFailed error
  | ShutdownClean
  | ShutdownTimedOut
  | ProcessExit

text \<open>
  How it ends: a node identifier on standard output; a message on standard error and a status;
  or a run up to the signal and the shutdown, with its log, its context, its agent task and
  the time the shutdown took.
\<close>

datatype main_outcome =
    NodeIdPrinted string
  | FatalExit nat string
  | Finished "main_log list" app_context connection duration

fun exit_code :: "main_outcome \<Rightarrow> nat" where
  "exit_code (NodeIdPrinted u) = 0"
| "exit_code (FatalExit c m) = c"
| "exit_code (Finished ls ctx cn t) = 0"

text \<open>The third task, up to the signal, and the error it logs where it has ended with one.\<close>

definition agent_task :: "('v, 'o) world \<Rightarrow> AppConfig \<Rightarrow> connection" where
  "agent_task W config =
     connect_hypervisor
       \<lparr>ag_libs = wo_libs W, ag_checks = wo_checks W, ag_config = config,
        ag_facts = collect_host_facts (wo_host W) config\<rparr>
       (wo_open_faults W) (wo_ledger W) (wo_now W) (wo_fs W) (wo_turns W)"

definition agent_log :: "connection \<Rightarrow> main_log list" where
  "agent_log cn = (case cn_phase cn of Returned (Inl err) \<Rightarrow> [EnrollmentFailed err] | _ \<Rightarrow> [])"

definition main :: "('v, 'o) world \<Rightarrow> main_outcome" where
  "main W =
     (if (case wo_args W of _ # a # _ \<Rightarrow> a = ''--print-node-id'' | _ \<Rightarrow> False)
      then NodeIdPrinted (wo_ulid W)
      else case load_from_env (wo_env W) of
          Inl err \<Rightarrow> FatalExit 1 (''fatal bootstrap error: invalid configuration: '' @ err_text err)
        | Inr config \<Rightarrow>
            (case fst (logging_init (wo_level_order W) (cfg_log config) (wo_logging W)) of
               Inl err \<Rightarrow>
                 FatalExit 1 (''fatal bootstrap error: failed to initialize logger: '' @ err_text err)
             | Inr _ \<Rightarrow>
                 let ctx = state_set Running (AppContext_new config);
                     cn = agent_task W config;
                     signal = (case wait_for_shutdown_signal (wo_signal W) of
                         Inr s \<Rightarrow> SignalReceived s | Inl err \<Rightarrow> SignalWaitFailed err);
                     (result, ctx1, elapsed) =
                       shutdown (wo_waits W) (app_shutdown_timeout (cfg_app config)) ctx
                 in Finished
                      ([ProcessStarted, ConfigLoaded] @ agent_log cn @ [signal]
                       @ [case result of Clean \<Rightarrow> ShutdownClean | TimedOut \<Rightarrow> ShutdownTimedOut]
                       @ [ProcessExit])
                      ctx1 cn elapsed))"

section \<open>Lemmas\<close>

text \<open>The outcomes of \<open>main\<close>, by its branches.\<close>

definition print_node_id :: "string list \<Rightarrow> bool" where
  "print_node_id args \<longleftrightarrow> 2 \<le> length args \<and> args ! 1 = ''--print-node-id''"

lemma print_node_id_case:
  "(case args of _ # a # _ \<Rightarrow> a = ''--print-node-id'' | _ \<Rightarrow> False) = print_node_id args"
  by (simp add: print_node_id_def split: list.split)

lemma main_print: "print_node_id (wo_args W) \<Longrightarrow> main W = NodeIdPrinted (wo_ulid W)"
  by (simp add: main_def print_node_id_case)

lemma main_bad_config:
  "\<not> print_node_id (wo_args W) \<Longrightarrow> load_from_env (wo_env W) = Inl e \<Longrightarrow> \<exists>m. main W = FatalExit 1 m"
  by (simp add: main_def print_node_id_case)

lemma main_bad_logger:
  "\<not> print_node_id (wo_args W) \<Longrightarrow> load_from_env (wo_env W) = Inr config \<Longrightarrow>
     lg_subscriber (wo_logging W) \<noteq> None \<Longrightarrow> \<exists>m. main W = FatalExit 1 m"
  by (auto simp: main_def print_node_id_case logging_init_def)

lemma main_finished:
  assumes "\<not> print_node_id (wo_args W)" and "load_from_env (wo_env W) = Inr config"
    and "lg_subscriber (wo_logging W) = None"
  obtains ls ctx t where "main W = Finished ls ctx (agent_task W config) t"
    and "(ctx, t) = snd (shutdown (wo_waits W) (app_shutdown_timeout (cfg_app config))
           (state_set Running (AppContext_new config)))"
    and "\<exists>result signal. ls = [ProcessStarted, ConfigLoaded] @ agent_log (agent_task W config)
           @ [signal, result, ProcessExit]"
proof -
  obtain r ctx t where s: "shutdown (wo_waits W) (app_shutdown_timeout (cfg_app config))
      (state_set Running (AppContext_new config)) = (r, ctx, t)"
    by (cases "shutdown (wo_waits W) (app_shutdown_timeout (cfg_app config))
      (state_set Running (AppContext_new config))")
  show ?thesis
    by (rule that [of _ ctx t])
       (auto simp: main_def print_node_id_case assms logging_init_def s Let_def)
qed

text \<open>How a run up to the signal ends.\<close>

definition stopped_in_time :: "('v, 'o) world \<Rightarrow> AppConfig \<Rightarrow> app_context \<Rightarrow> duration \<Rightarrow> bool" where
  "stopped_in_time W config ctx t \<longleftrightarrow> AppState_of_code (ctx_state ctx) = Stopped \<and> ctx_cancelled ctx
     \<and> \<not> ctx_polling ctx \<and> \<not> wp_accepting (ctx_pool ctx)
     \<and> t \<le> app_shutdown_timeout (cfg_app config) + total_lag (wo_waits W)"

lemma shutdown_stops:
  "(ctx, t) = snd (shutdown (wo_waits W) (app_shutdown_timeout (cfg_app config)) c) \<Longrightarrow>
     stopped_in_time W config ctx t"
proof -
  let ?d = "app_shutdown_timeout (cfg_app config)"
  assume *: "(ctx, t) = snd (shutdown (wo_waits W) ?d c)"
  have "t \<le> ?d + total_lag (wo_waits W)"
    using shutdown_elapsed [of "wo_waits W" ?d c] * by (metis snd_conv)
  moreover from * have "ctx = fst (snd (shutdown (wo_waits W) ?d c))" by (metis fst_conv)
  ultimately show ?thesis
    by (simp add: stopped_in_time_def shutdown_def Let_def stop_accepting_def split: prod.splits
        del: AppState_code.simps)
qed

section \<open>Properties\<close>

text \<open>
  C27. How the process ends: with status 1 exactly when it is not asked for a node identifier
  and the configuration does not load or the logger cannot be installed, and then before any
  task is started; else with status 0. Nothing the agent's task does ends it, not even an
  enrollment that is refused: that is logged, and the process waits for a signal.
\<close>

theorem main_exit_status:
  "(exit_code (main W) = 1) =
     (\<not> print_node_id (wo_args W)
      \<and> ((\<exists>e. load_from_env (wo_env W) = Inl e) \<or> (\<exists>sb. lg_subscriber (wo_logging W) = Some sb)))
   \<and> exit_code (main W) \<le> 1"
proof (cases "print_node_id (wo_args W)")
  case True
  then show ?thesis by (simp add: main_print)
next
  case False
  note np = this
  show ?thesis
  proof (cases "load_from_env (wo_env W)")
    case (Inl e)
    with main_bad_config [OF np Inl] np show ?thesis by auto
  next
    case (Inr config)
    show ?thesis
    proof (cases "lg_subscriber (wo_logging W) = None")
      case True
      obtain ls ctx t where "main W = Finished ls ctx (agent_task W config) t"
        using main_finished [OF np Inr True] by metis
      with np Inr True show ?thesis by simp
    next
      case False
      with main_bad_logger [OF np Inr False] np show ?thesis by auto
    qed
  qed
qed


definition demo_world :: "(string, string) world" where
  "demo_world = \<lparr>wo_args = [''aurora-kvm-agent''], wo_ulid = [], wo_env = demo_env, wo_level_order = (\<le>),
     wo_logging = \<lparr>lg_subscriber = None, lg_panic_hook = None\<rparr>, wo_libs = demo_libs, wo_checks = True,
     wo_host = demo_host demo_df, wo_open_faults = [], wo_ledger = empty_ledger, wo_now = 0,
     wo_fs = demo_fs, wo_turns = [demo_turn False broken_plane []], wo_signal = SigTerm,
     wo_waits = \<lparr>wt_pool_idle = Some 0, wt_tasks_done = Some 0, wt_grpc_stopped = None, wt_lag = (\<lambda>k. 0)\<rparr>\<rparr>"


end
