(* ===== verification/Telemetry.thy ===== *)
theory Telemetry
  imports Agent_Frames Host_Discovery
begin

text \<open>
  The telemetry task (\<open>src/src/agent/telemetry.rs\<close>) and the metric frame of
  \<open>agent/frames.rs\<close>: the counters of \<open>/proc\<close>, the rates between two samples, the virtual
  machines \<open>virsh\<close> lists, the snapshot and the loop that pushes it. Counters are \<open>u64\<close>; a
  build with \<open>overflow-checks\<close> panics where an addition exceeds it, a release build wraps, and
  \<open>checks\<close> says which.
\<close>

section \<open>Counters\<close>

definition u64_add :: "bool \<Rightarrow> u64 \<Rightarrow> u64 \<Rightarrow> u64 exec" where
  "u64_add checks a b =
     (if unat a + unat b < 2 ^ 64 then Done (a + b) else if checks then Panic else Done (a + b))"

definition u64_mul :: "bool \<Rightarrow> u64 \<Rightarrow> u64 \<Rightarrow> u64 exec" where
  "u64_mul checks a b =
     (if unat a * unat b < 2 ^ 64 then Done (a * b) else if checks then Panic else Done (a * b))"

definition u64_saturating_sub :: "u64 \<Rightarrow> u64 \<Rightarrow> u64" where
  "u64_saturating_sub a b = (if b \<le> a then a - b else 0)"

definition u64_as_f64 :: "u64 \<Rightarrow> f64" where
  "u64_as_f64 a = f64_of_int (uint a)"

text \<open>\<open>s.parse::<u64>().unwrap_or(0)\<close>.\<close>

definition counter_of :: "string \<Rightarrow> u64" where
  "counter_of s = (case parse_u64 s of None \<Rightarrow> 0 | Some n \<Rightarrow> word_of_nat n)"

text \<open>A loop over lines that may panic.\<close>

fun fold_exec :: "('a \<Rightarrow> 's \<Rightarrow> 's exec) \<Rightarrow> 'a list \<Rightarrow> 's \<Rightarrow> 's exec" where
  "fold_exec f [] s = Done s"
| "fold_exec f (x # xs) s = exec_bind (f x s) (fold_exec f xs)"

record CpuStats =
  cs_total :: u64
  cs_idle :: u64

definition read_cpu_stats :: "bool \<Rightarrow> HostEnv \<Rightarrow> (error + CpuStats) exec" where
  "read_cpu_stats checks env =
     (case read_to_string env ''/proc/stat'' of
        None \<Rightarrow> Done (Inl [Io IoOther ''read /proc/stat''])
      | Some contents \<Rightarrow>
          case str_lines contents of
            [] \<Rightarrow> Done (Inl (anyhow ''empty /proc/stat''))
          | line # _ \<Rightarrow>
              let parts = split_whitespace line
              in if length parts < 5 then Done (Inl (anyhow ''invalid /proc/stat format''))
                 else exec_bind
                   (fold_exec (\<lambda>part t. u64_add checks t (counter_of part)) (drop 1 parts) 0)
                   (\<lambda>t. Done (Inr \<lparr>cs_total = t, cs_idle = counter_of (parts ! 4)\<rparr>)))"

definition calculate_cpu_percent :: "CpuStats \<Rightarrow> CpuStats \<Rightarrow> f64" where
  "calculate_cpu_percent prev cur =
     (let total_diff = u64_saturating_sub (cs_total cur) (cs_total prev);
          idle_diff = u64_saturating_sub (cs_idle cur) (cs_idle prev)
      in if total_diff = 0 then Fin 0
         else let used_diff = u64_saturating_sub total_diff idle_diff
              in f64_mul (f64_div (u64_as_f64 used_diff) (u64_as_f64 total_diff)) (Fin 100))"

record IOMetrics =
  io_net_rx :: u64
  io_net_tx :: u64
  io_disk_read :: u64
  io_disk_write :: u64
  io_timestamp :: system_time

text \<open>
  Two counters of a line, words \<open>i\<close> and \<open>9\<close> in units of \<open>unit\<close>, added to the sums; lines of
  up to nine words are left out.
\<close>

definition add_counters :: "bool \<Rightarrow> nat \<Rightarrow> u64 \<Rightarrow> string list \<Rightarrow> u64 \<times> u64 \<Rightarrow> (u64 \<times> u64) exec" where
  "add_counters checks i unit parts acc =
     exec_bind (u64_mul checks (counter_of (parts ! i)) unit) (\<lambda>r.
     exec_bind (u64_add checks (fst acc) r) (\<lambda>a.
     exec_bind (u64_mul checks (counter_of (parts ! 9)) unit) (\<lambda>w.
     exec_bind (u64_add checks (snd acc) w) (\<lambda>b. Done (a, b)))))"

definition net_line :: "bool \<Rightarrow> string \<Rightarrow> u64 \<times> u64 \<Rightarrow> (u64 \<times> u64) exec" where
  "net_line checks line acc =
     (let parts = split_whitespace line
      in if 9 < length parts then add_counters checks 1 1 parts acc else Done acc)"

definition disk_line :: "bool \<Rightarrow> string \<Rightarrow> u64 \<times> u64 \<Rightarrow> (u64 \<times> u64) exec" where
  "disk_line checks line acc =
     (let parts = split_whitespace line
      in if 9 < length parts \<and> disk_name (parts ! 2) then add_counters checks 5 512 parts acc
         else Done acc)"

definition read_io_stats :: "bool \<Rightarrow> HostEnv \<Rightarrow> system_time \<Rightarrow> IOMetrics option exec" where
  "read_io_stats checks env now =
     exec_bind
       (case read_to_string env ''/proc/net/dev'' of
          None \<Rightarrow> Done (0, 0)
        | Some contents \<Rightarrow> fold_exec (net_line checks) (drop 2 (str_lines contents)) (0, 0)) (\<lambda>net.
     exec_bind
       (case read_to_string env ''/proc/diskstats'' of
          None \<Rightarrow> Done (0, 0)
        | Some contents \<Rightarrow> fold_exec (disk_line checks) (str_lines contents) (0, 0)) (\<lambda>disk.
     Done (Some \<lparr>io_net_rx = fst net, io_net_tx = snd net, io_disk_read = fst disk,
        io_disk_write = snd disk, io_timestamp = now\<rparr>)))"

section \<open>Rates\<close>

text \<open>\<open>0.1\<close> and the seconds between two samples, at least that.\<close>

definition point_one :: f64 where "point_one = f64_of_real (1 / 10)"

definition elapsed_secs :: "IOMetrics \<Rightarrow> IOMetrics \<Rightarrow> f64" where
  "elapsed_secs prev cur =
     f64_max (as_secs_f64
       (if io_timestamp prev \<le> io_timestamp cur then nat (io_timestamp cur - io_timestamp prev)
        else from_secs 1)) point_one"

definition rate :: "u64 \<Rightarrow> u64 \<Rightarrow> f64 \<Rightarrow> f64" where
  "rate cur prev elapsed = f64_div (u64_as_f64 (u64_saturating_sub cur prev)) elapsed"

text \<open>Bytes received and sent per second as \<open>i64\<close>, read and written as \<open>u64\<close>.\<close>

definition io_rates :: "IOMetrics option \<Rightarrow> IOMetrics option \<Rightarrow> int \<times> int \<times> nat \<times> nat" where
  "io_rates last_io current_io =
     (case (last_io, current_io) of
        (Some prev, Some cur) \<Rightarrow>
          let elapsed = elapsed_secs prev cur
          in (f64_as_i64 (rate (io_net_rx cur) (io_net_rx prev) elapsed),
              f64_as_i64 (rate (io_net_tx cur) (io_net_tx prev) elapsed),
              f64_as_u64 (rate (io_disk_read cur) (io_disk_read prev) elapsed),
              f64_as_u64 (rate (io_disk_write cur) (io_disk_write prev) elapsed))
      | _ \<Rightarrow> (0, 0, 0, 0))"

definition cpu_percent :: "CpuStats option \<Rightarrow> CpuStats option \<Rightarrow> f64" where
  "cpu_percent last_cpu current_cpu =
     (case (last_cpu, current_cpu) of
        (Some prev, Some cur) \<Rightarrow> calculate_cpu_percent prev cur | _ \<Rightarrow> Fin 0)"

definition gib_to_bytes :: "f64 \<Rightarrow> f64" where
  "gib_to_bytes v = f64_mul (f64_mul (f64_mul v (Fin 1024)) (Fin 1024)) (Fin 1024)"

text \<open>A part of a total that is positive, in percent, and zero otherwise.\<close>

definition percent_of :: "f64 \<Rightarrow> f64 \<Rightarrow> f64" where
  "percent_of part tot = (if f64_lt (Fin 0) tot then f64_mul (f64_div part tot) (Fin 100) else Fin 0)"

section \<open>Virtual machines\<close>

record VmTelemetryMetrics =
  vm_id :: string
  vm_node_id :: string
  vm_zone :: string
  vm_power_state :: string
  vm_cpu_used_percent :: f64
  vm_ram_used_bytes :: f64
  vm_network_rx_bps :: int
  vm_network_tx_bps :: int
  vm_disk_read_bps :: nat
  vm_disk_write_bps :: nat
  vm_sampled_at :: "Timestamp option"

definition discover_vm_uuid :: "HostEnv \<Rightarrow> string \<Rightarrow> string option" where
  "discover_vm_uuid env name =
     (case run_success env ''virsh'' [''domuuid'', name] of
        None \<Rightarrow> None | Some stdout \<Rightarrow> nonempty (trim stdout))"

definition discover_vm_power_state :: "HostEnv \<Rightarrow> string \<Rightarrow> string" where
  "discover_vm_power_state env name =
     (case run_success env ''virsh'' [''domstate'', name] of
        None \<Rightarrow> ''unknown''
      | Some stdout \<Rightarrow>
          let v = to_lowercase (he_unicode_lower env) (trim stdout) in if v = [] then ''unknown'' else v)"

text \<open>The first line of two words, the first \<open>rss\<close> or \<open>actual\<close>, the second a number.\<close>

fun first_memstat :: "string list \<Rightarrow> f64 option" where
  "first_memstat [] = None"
| "first_memstat (line # ls) =
     (case split_whitespace line of
        [key, v] \<Rightarrow>
          if key = ''rss'' \<or> key = ''actual''
          then case parse_f64 v of
              Some kib \<Rightarrow> Some (f64_mul kib (Fin 1024))
            | None \<Rightarrow> first_memstat ls
          else first_memstat ls
      | _ \<Rightarrow> first_memstat ls)"

definition discover_vm_memory_bytes :: "HostEnv \<Rightarrow> string \<Rightarrow> f64 option" where
  "discover_vm_memory_bytes env name =
     (case run_success env ''virsh'' [''dommemstat'', name] of
        None \<Rightarrow> None | Some stdout \<Rightarrow> first_memstat (str_lines stdout))"

definition vm_metrics :: "HostEnv \<Rightarrow> string \<Rightarrow> string \<Rightarrow> Timestamp \<Rightarrow> string \<Rightarrow> VmTelemetryMetrics" where
  "vm_metrics env node_id zone collected_at name =
     \<lparr>vm_id = unwrap_or (discover_vm_uuid env name) name, vm_node_id = trim node_id,
      vm_zone = trim zone, vm_power_state = discover_vm_power_state env name,
      vm_cpu_used_percent = Fin 0,
      vm_ram_used_bytes = unwrap_or (discover_vm_memory_bytes env name) (Fin 0),
      vm_network_rx_bps = 0, vm_network_tx_bps = 0, vm_disk_read_bps = 0, vm_disk_write_bps = 0,
      vm_sampled_at = Some collected_at\<rparr>"

definition vm_names :: "string \<Rightarrow> string list" where
  "vm_names stdout = filter (\<lambda>n. n \<noteq> []) (map trim (str_lines stdout))"

text \<open>It returns \<open>Ok\<close> on every path.\<close>

definition collect_vm_metrics ::
  "HostEnv \<Rightarrow> string \<Rightarrow> string \<Rightarrow> Timestamp \<Rightarrow> error + VmTelemetryMetrics list" where
  "collect_vm_metrics env node_id zone collected_at =
     (case run_success env ''virsh'' [''list'', ''--all'', ''--name''] of
        None \<Rightarrow> Inr []
      | Some stdout \<Rightarrow> Inr (map (vm_metrics env node_id zone collected_at) (vm_names stdout)))"

section \<open>The snapshot\<close>

record NodeTelemetryMetrics =
  nt_cpu_used_percent :: f64
  nt_cpu_used_cores :: f64
  nt_ram_used_bytes :: f64
  nt_ram_used_percent :: f64
  nt_disk_used_bytes :: f64
  nt_disk_used_percent :: f64
  nt_network_rx_bps :: int
  nt_network_tx_bps :: int
  nt_disk_read_bps :: nat
  nt_disk_write_bps :: nat
  nt_filesystem_used_bytes :: nat
  nt_filesystem_total_bytes :: nat
  nt_vm_count :: nat
  nt_agent_healthy :: bool

record Snapshot =
  sn_schema_version :: nat
  sn_zone :: string
  sn_node_id :: string
  sn_agent_id :: string
  sn_collected_at :: "Timestamp option"
  sn_node :: "NodeTelemetryMetrics option"
  sn_vms :: "VmTelemetryMetrics list"

definition node_metrics ::
  "HostEnv \<Rightarrow> HostFacts \<Rightarrow> f64 \<Rightarrow> int \<times> int \<times> nat \<times> nat \<Rightarrow> nat \<Rightarrow> NodeTelemetryMetrics" where
  "node_metrics env facts cpu_pct rates vm_total =
     (let (rx_bps, tx_bps, read_bps, write_bps) = rates;
          (ram_used_gib, disk_used_gib) = usage_snapshot_gib env;
          ram_used_bytes = gib_to_bytes ram_used_gib;
          disk_used_bytes = gib_to_bytes disk_used_gib;
          total_ram_bytes = f64_of_int (max (memory_bytes facts) 0);
          total_disk_bytes = f64_of_int (max (disk_bytes facts) 0)
      in \<lparr>nt_cpu_used_percent = cpu_pct,
          nt_cpu_used_cores = f64_mul (f64_div cpu_pct (Fin 100)) (f64_of_int (cpu_cores facts)),
          nt_ram_used_bytes = ram_used_bytes,
          nt_ram_used_percent = percent_of ram_used_bytes total_ram_bytes,
          nt_disk_used_bytes = disk_used_bytes,
          nt_disk_used_percent = percent_of disk_used_bytes total_disk_bytes,
          nt_network_rx_bps = rx_bps, nt_network_tx_bps = tx_bps,
          nt_disk_read_bps = read_bps, nt_disk_write_bps = write_bps,
          nt_filesystem_used_bytes = f64_as_u64 (f64_max disk_used_bytes (Fin 0)),
          nt_filesystem_total_bytes = nat (max (disk_bytes facts) 0),
          nt_vm_count = vm_total mod 2 ^ 32, nt_agent_healthy = True\<rparr>)"

text \<open>
  The two samples the loop keeps are returned changed. \<open>now_io\<close> is the clock at the counters,
  \<open>now\<close> at the time stamp.
\<close>

definition build_snapshot ::
  "bool \<Rightarrow> HostEnv \<Rightarrow> system_time \<Rightarrow> system_time \<Rightarrow> HostFacts \<Rightarrow> string
     \<Rightarrow> CpuStats option \<Rightarrow> IOMetrics option
     \<Rightarrow> ((error + Snapshot) \<times> CpuStats option \<times> IOMetrics option) exec" where
  "build_snapshot checks env now_io now facts zone last_cpu last_io =
     exec_bind (read_cpu_stats checks env) (\<lambda>cpu_result.
     let current_cpu = (case cpu_result of Inr c \<Rightarrow> Some c | Inl _ \<Rightarrow> None);
         cpu_pct = cpu_percent last_cpu current_cpu
     in exec_bind (read_io_stats checks env now_io) (\<lambda>current_io.
     let rates = io_rates last_io current_io;
         collected_at = system_time_to_timestamp now;
         result = (case collect_vm_metrics env (host_id facts) zone collected_at of
             Inl e \<Rightarrow> Inl e
           | Inr vms \<Rightarrow>
               Inr \<lparr>sn_schema_version = 1, sn_zone = trim zone, sn_node_id = host_id facts,
                  sn_agent_id = agent_id facts, sn_collected_at = Some collected_at,
                  sn_node = Some (node_metrics env facts cpu_pct rates (length vms)), sn_vms = vms\<rparr>)
     in Done (result, current_cpu, current_io)))"

definition build_snapshot_for_test ::
  "bool \<Rightarrow> HostEnv \<Rightarrow> system_time \<Rightarrow> system_time \<Rightarrow> HostFacts \<Rightarrow> string \<Rightarrow> (error + Snapshot) exec" where
  "build_snapshot_for_test checks env now_io now facts zone =
     exec_bind (build_snapshot checks env now_io now facts zone None None) (\<lambda>r. Done (fst r))"

section \<open>The loop\<close>

text \<open>
  What the loop's \<open>select!\<close> meets: the end of the session, or a tick, with the host and the
  clock it finds and what the push returns. A warning is logged for a push or a collection
  that fails; the model keeps its error.
\<close>

datatype telemetry_event = TelShutdown | TelTick HostEnv system_time system_time "error option"

record telemetry_task =
  tt_cpu :: "CpuStats option"
  tt_io :: "IOMetrics option"
  tt_pushed :: "Snapshot list"
  tt_warnings :: "error list"

definition telemetry_period :: "duration \<Rightarrow> duration" where
  "telemetry_period interval_duration = max interval_duration (from_secs 5)"

definition telemetry_tick ::
  "bool \<Rightarrow> HostFacts \<Rightarrow> string \<Rightarrow> HostEnv \<Rightarrow> system_time \<Rightarrow> system_time \<Rightarrow> error option
     \<Rightarrow> telemetry_task \<Rightarrow> telemetry_task exec" where
  "telemetry_tick checks facts zone env now_io now push t =
     exec_bind (build_snapshot checks env now_io now facts zone (tt_cpu t) (tt_io t)) (\<lambda>(snapshot, cpu, io).
     let t1 = t\<lparr>tt_cpu := cpu, tt_io := io\<rparr>
     in Done (case snapshot of
         Inr item \<Rightarrow>
           t1\<lparr>tt_pushed := tt_pushed t1 @ [item],
              tt_warnings := tt_warnings t1 @ (case push of None \<Rightarrow> [] | Some err \<Rightarrow> [err])\<rparr>
       | Inl err \<Rightarrow> t1\<lparr>tt_warnings := tt_warnings t1 @ [err]\<rparr>))"

text \<open>The first component of the result says whether the loop has ended.\<close>

fun telemetry_loop ::
  "bool \<Rightarrow> HostFacts \<Rightarrow> string \<Rightarrow> telemetry_event list \<Rightarrow> telemetry_task \<Rightarrow> (bool \<times> telemetry_task) exec" where
  "telemetry_loop checks facts zone [] t = Done (False, t)"
| "telemetry_loop checks facts zone (TelShutdown # es) t = Done (True, t)"
| "telemetry_loop checks facts zone (TelTick env now_io now push # es) t =
     exec_bind (telemetry_tick checks facts zone env now_io now push t)
       (telemetry_loop checks facts zone es)"

definition run_telemetry_loop ::
  "bool \<Rightarrow> HostEnv \<Rightarrow> system_time \<Rightarrow> HostFacts \<Rightarrow> string \<Rightarrow> telemetry_event list
     \<Rightarrow> (bool \<times> telemetry_task) exec" where
  "run_telemetry_loop checks env now facts zone events =
     exec_bind (read_cpu_stats checks env) (\<lambda>cpu_result.
     exec_bind (read_io_stats checks env now) (\<lambda>last_io.
     telemetry_loop checks facts zone events
       \<lparr>tt_cpu = (case cpu_result of Inr c \<Rightarrow> Some c | Inl _ \<Rightarrow> None), tt_io = last_io,
        tt_pushed = [], tt_warnings = []\<rparr>))"

section \<open>The metric frame of the control stream\<close>

definition node_metric_frame ::
  "HostEnv \<Rightarrow> system_time \<Rightarrow> HostFacts \<Rightarrow> string \<Rightarrow> u64 \<Rightarrow> f64 \<Rightarrow> u64 \<Rightarrow> u64 \<Rightarrow> u64 \<Rightarrow> u64
     \<Rightarrow> AgentToHypervisor" where
  "node_metric_frame env now facts stream_id seq cpu_used_percent network_rx_bps network_tx_bps
       disk_read_bps disk_write_bps =
     (let (ram_used_gib, ssd_used_gib) = usage_snapshot_gib env;
          total_ram_gib = div_1024_3 (f64_of_int (memory_bytes facts));
          total_ssd_gib = div_1024_3 (f64_of_int (disk_bytes facts))
      in \<lparr>a2h_stream_id = stream_id, a2h_seq = seq,
          a2h_message = Some (NodeMetricMsg
            \<lparr>nm_agent_id = agent_id facts, nm_host_id = host_id facts,
             nm_cpu_used_percent = cpu_used_percent,
             nm_cpu_used_cores = f64_mul (f64_div cpu_used_percent (Fin 100)) (f64_of_int (cpu_cores facts)),
             nm_ram_used_gib = ram_used_gib, nm_ram_used_percent = percent_of ram_used_gib total_ram_gib,
             nm_ssd_used_gib = ssd_used_gib, nm_ssd_used_percent = percent_of ssd_used_gib total_ssd_gib,
             nm_gpu_used_percent = Fin 0, nm_gpu_used_gib = Fin 0,
             nm_network_rx_bps = sint network_rx_bps, nm_network_tx_bps = sint network_tx_bps,
             nm_disk_read_bps = unat disk_read_bps, nm_disk_write_bps = unat disk_write_bps,
             nm_sampled_at = Some (system_time_to_timestamp now)\<rparr>)\<rparr>)"

end
