(* ===== verification/Telemetry_Properties.thy ===== *)
theory Telemetry_Properties
  imports Telemetry
begin

text \<open>
  What telemetry guarantees: percentages and rates in range, snapshots that carry the host's
  identity, counters as sums over the lines of \<open>/proc\<close>, and a loop that only the end of the
  session ends.
\<close>

section \<open>Words and doubles\<close>

lemma sub_le: "u64_saturating_sub a b \<le> a"
  by (simp add: u64_saturating_sub_def word_sub_le)

lemma unat_less_64: "unat (a :: u64) < 2 ^ 64"
  using unsigned_less [of a] by simp

lemma u64_as_f64_Fin: "u64_as_f64 a = Fin (round_real (real (unat a)))"
  using f64_of_u64 [of "unat a"] unat_less_64 [of a] by (simp add: u64_as_f64_def)

lemma cpu_percent_range:
  "\<exists>p. calculate_cpu_percent prev cur = Fin p \<and> 0 \<le> p \<and> p \<le> 100"
proof -
  let ?t = "u64_saturating_sub (cs_total cur) (cs_total prev)"
  let ?u = "u64_saturating_sub ?t (u64_saturating_sub (cs_idle cur) (cs_idle prev))"
  show ?thesis
  proof (cases "?t = 0")
    case True
    then show ?thesis by (simp add: calculate_cpu_percent_def)
  next
    case False
    then have "0 < unat ?t" by (simp add: unat_gt_0)
    then have "1 \<le> real (unat ?t)" by linarith
    then have "round_real 1 \<le> round_real (real (unat ?t))" by (intro round_real_mono) simp_all
    then have t: "0 < round_real (real (unat ?t))" by simp
    have "unat ?u \<le> unat ?t" using sub_le word_le_nat_alt by blast
    then have "real (unat ?u) \<le> real (unat ?t)" by (simp only: of_nat_le_iff)
    then have u: "round_real (real (unat ?u)) \<le> round_real (real (unat ?t))"
      by (rule round_real_mono [OF of_nat_0_le_iff])
    have "0 \<le> round_real (real (unat ?u))" by (rule round_real_nonneg [OF of_nat_0_le_iff])
    show ?thesis
      using False f64_percent [OF \<open>0 \<le> round_real (real (unat ?u))\<close> u t]
      by (simp add: calculate_cpu_percent_def Let_def u64_as_f64_Fin)
  qed
qed

text \<open>Doubles that are not below zero, and those above it.\<close>

definition f64_nonneg :: "f64 \<Rightarrow> bool" where
  "f64_nonneg a \<longleftrightarrow> (case a of Fin x \<Rightarrow> 0 \<le> x | PosInf \<Rightarrow> True | _ \<Rightarrow> False)"

definition f64_pos :: "f64 \<Rightarrow> bool" where
  "f64_pos a \<longleftrightarrow> (case a of Fin x \<Rightarrow> 0 < x | PosInf \<Rightarrow> True | _ \<Rightarrow> False)"

lemma f64_of_real_nonneg: "0 \<le> x \<Longrightarrow> f64_nonneg (f64_of_real x)"
proof -
  assume "0 \<le> x"
  then have r: "0 \<le> round_real x" by (rule round_real_nonneg)
  have "- (2 ^ 1024) < (0 :: real)" by simp
  with r have "\<not> round_real x \<le> - (2 ^ 1024)" by linarith
  with r show ?thesis unfolding f64_of_real_def Let_def f64_nonneg_def by (simp split: if_split)
qed

lemma f64_add_nonneg: "f64_nonneg a \<Longrightarrow> f64_nonneg b \<Longrightarrow> f64_nonneg (f64_add a b)"
  by (cases a; cases b) (simp_all add: f64_nonneg_def [of "Fin _"] f64_nonneg_def [of PosInf]
      f64_nonneg_def [of NegInf] f64_nonneg_def [of NaN] f64_of_real_nonneg)

lemma f64_div_nonneg: "0 \<le> x \<Longrightarrow> f64_pos b \<Longrightarrow> f64_nonneg (f64_div (Fin x) b)"
  by (cases b) (simp_all add: f64_pos_def f64_of_real_nonneg f64_nonneg_def [of "Fin _"])

lemma f64_as_int_nonneg:
  assumes "f64_nonneg a" and "lo \<le> 0" and "0 \<le> hi"
  shows "0 \<le> f64_as_int lo hi a \<and> f64_as_int lo hi a \<le> hi"
proof (cases a)
  case (Fin x)
  with assms(1) have "0 \<le> trunc x" by (simp add: f64_nonneg_def trunc_def)
  with assms(2,3) show ?thesis by (simp add: Fin f64_as_int_def le_max_iff_disj)
qed (use assms in \<open>simp_all add: f64_nonneg_def f64_as_int_def\<close>)

lemma point_one_pos: "\<exists>p. point_one = Fin p \<and> 0 < p"
proof -
  have "round_real ((1 :: real) / 16) = 1 / 16"
    by (rule round_real_exact [of _ 1 "- 4"]) (simp_all add: power_int_def power_divide)
  then have "1 / 16 \<le> round_real (1 / 10)" by (intro round_real_lower) simp_all
  moreover have "(1 :: real) / 10 \<le> 2 ^ 1023" by (rule order_trans [of _ 1]) simp_all
  ultimately show ?thesis using f64_of_real_Fin [of "1 / 10"] by (simp add: point_one_def)
qed

lemma as_secs_f64_nonneg: "f64_nonneg (as_secs_f64 d)"
proof -
  have "f64_of_int (int nanos_per_sec) = Fin 1000000000"
    using f64_of_u64 [of nanos_per_sec] by (simp add: nanos_per_sec_def)
  moreover have "d mod nanos_per_sec < 2 ^ 64"
    by (rule less_trans [of _ nanos_per_sec]) (simp_all add: nanos_per_sec_def)
  note f64_of_u64 [OF this]
  moreover have "0 \<le> round_real (real (d mod nanos_per_sec))"
    by (rule round_real_nonneg [OF of_nat_0_le_iff])
  moreover have "f64_nonneg (f64_of_int (int (as_secs d)))"
    unfolding f64_of_int_def by (rule f64_of_real_nonneg) simp
  ultimately show ?thesis
    unfolding as_secs_f64_def by (intro f64_add_nonneg) (simp_all add: f64_of_real_nonneg)
qed

lemma elapsed_pos: "f64_pos (elapsed_secs prev cur)"
proof -
  obtain p where p: "point_one = Fin p" "0 < p" using point_one_pos by blast
  then have "f64_pos (f64_max a point_one)" if nn: "f64_nonneg a" for a
    using nn p(2) unfolding p(1)
    by (cases a) (simp_all add: f64_max_def f64_nonneg_def f64_pos_def)
  then show ?thesis unfolding elapsed_secs_def using as_secs_f64_nonneg by blast
qed

lemma rate_nonneg: "f64_nonneg (rate a b (elapsed_secs prev cur))"
  unfolding rate_def u64_as_f64_Fin
  by (rule f64_div_nonneg [OF round_real_nonneg [OF of_nat_0_le_iff] elapsed_pos])

lemma f64_as_u64_range: "f64_as_u64 a < 2 ^ 64"
proof -
  have le: "f64_as_int 0 (2 ^ 64 - 1) a \<le> 2 ^ 64 - 1" by (simp add: f64_as_int_def split: f64.split)
  have "0 \<le> f64_as_int 0 (2 ^ 64 - 1) a" by (simp add: f64_as_int_def split: f64.split)
  then show ?thesis
    unfolding f64_as_u64_def by (subst nat_less_iff) (use le in simp_all)
qed

lemma io_rates_range:
  assumes "io_rates last_io current_io = (rx, tx, rd, wr)"
  shows "0 \<le> rx \<and> rx \<le> 2 ^ 63 - 1 \<and> 0 \<le> tx \<and> tx \<le> 2 ^ 63 - 1 \<and> rd < 2 ^ 64 \<and> wr < 2 ^ 64"
proof -
  have i: "0 \<le> f64_as_i64 (rate a b (elapsed_secs p c)) \<and> f64_as_i64 (rate a b (elapsed_secs p c)) \<le> 2 ^ 63 - 1" for a b p c
    using f64_as_int_nonneg [OF rate_nonneg, of "- (2 ^ 63)" "2 ^ 63 - 1"] by (simp add: f64_as_i64_def)
  show ?thesis
    using assms i f64_as_u64_range by (auto simp: io_rates_def Let_def split: option.splits)
qed

section \<open>Counters of a release build\<close>

lemma u64_release [simp]:
  "u64_add False a b = Done (a + b)" "u64_mul False a b = Done (a * b)"
  by (simp_all add: u64_add_def u64_mul_def)

text \<open>The specification: sums over the lines, modulo \<open>2 ^ 64\<close>.\<close>

definition line_words :: "string \<Rightarrow> string list list" where
  "line_words contents = map split_whitespace (str_lines contents)"

definition net_sum :: "nat \<Rightarrow> string \<Rightarrow> u64" where
  "net_sum i contents =
     sum_list (map (\<lambda>ws. counter_of (ws ! i)) (filter (\<lambda>ws. 9 < length ws) (drop 2 (line_words contents))))"

definition disk_sum :: "nat \<Rightarrow> string \<Rightarrow> u64" where
  "disk_sum i contents =
     sum_list (map (\<lambda>ws. 512 * counter_of (ws ! i))
       (filter (\<lambda>ws. 9 < length ws \<and> disk_name (ws ! 2)) (line_words contents)))"

definition cpu_sum :: "string list \<Rightarrow> u64" where
  "cpu_sum parts = sum_list (map counter_of (drop 1 parts))"

lemma add_counters_release:
  "add_counters False i u parts (a, b) =
     Done (a + counter_of (parts ! i) * u, b + counter_of (parts ! 9) * u)"
  by (simp add: add_counters_def)

lemma net_fold:
  "fold_exec (net_line False) ls (a, b) =
     (let ws = filter (\<lambda>ws. 9 < length ws) (map split_whitespace ls)
      in Done (a + sum_list (map (\<lambda>w. counter_of (w ! 1)) ws), b + sum_list (map (\<lambda>w. counter_of (w ! 9)) ws)))"
  by (induction ls arbitrary: a b) (simp_all add: net_line_def Let_def add_counters_release add.assoc)

lemma disk_fold:
  "fold_exec (disk_line False) ls (a, b) =
     (let ws = filter (\<lambda>ws. 9 < length ws \<and> disk_name (ws ! 2)) (map split_whitespace ls)
      in Done (a + sum_list (map (\<lambda>w. 512 * counter_of (w ! 5)) ws),
               b + sum_list (map (\<lambda>w. 512 * counter_of (w ! 9)) ws)))"
  by (induction ls arbitrary: a b)
     (simp_all add: disk_line_def Let_def add_counters_release add.assoc mult.commute)

lemma cpu_sum_fold:
  "fold_exec (\<lambda>part t. Done (t + counter_of part)) ps a = Done (a + sum_list (map counter_of ps))"
  by (induction ps arbitrary: a) (simp_all add: add.assoc)

text \<open>
  The counters: the sums of the columns of \<open>/proc/net/dev\<close> after its two header lines, and
  of \<open>/proc/diskstats\<close> over every line whose name starts like a disk's, modulo \<open>2 ^ 64\<close>. A
  partition is such a line as well as its disk, so both are counted; so is \<open>lo\<close>.
\<close>

lemma read_io_stats_release:
  "read_io_stats False env now =
     (let net = read_or_empty env ''/proc/net/dev''; disk = read_or_empty env ''/proc/diskstats''
      in Done (Some \<lparr>io_net_rx = net_sum 1 net, io_net_tx = net_sum 9 net,
           io_disk_read = disk_sum 5 disk, io_disk_write = disk_sum 9 disk, io_timestamp = now\<rparr>))"
proof -
  have e: "line_words [] = []" by (simp add: line_words_def str_lines_def)
  show ?thesis
    by (cases "read_to_string env ''/proc/net/dev''"; cases "read_to_string env ''/proc/diskstats''")
       (simp_all add: read_io_stats_def read_or_empty_def unwrap_or_def net_fold disk_fold net_sum_def
         disk_sum_def e Let_def, simp_all add: line_words_def drop_map)
qed

lemma read_cpu_stats_release:
  "read_cpu_stats False env =
     Done (case read_to_string env ''/proc/stat'' of
         None \<Rightarrow> Inl [Io IoOther ''read /proc/stat'']
       | Some contents \<Rightarrow>
           (case str_lines contents of
              [] \<Rightarrow> Inl (anyhow ''empty /proc/stat'')
            | line # _ \<Rightarrow>
                if length (split_whitespace line) < 5 then Inl (anyhow ''invalid /proc/stat format'')
                else Inr \<lparr>cs_total = cpu_sum (split_whitespace line),
                       cs_idle = counter_of (split_whitespace line ! 4)\<rparr>))"
  by (simp add: read_cpu_stats_def cpu_sum_fold cpu_sum_def Let_def split: option.split list.split)

section \<open>The snapshot\<close>

text \<open>What every snapshot shows.\<close>

definition node_wf :: "nat \<Rightarrow> NodeTelemetryMetrics \<Rightarrow> bool" where
  "node_wf vms n \<longleftrightarrow>
     (case nt_cpu_used_percent n of Fin p \<Rightarrow> 0 \<le> p \<and> p \<le> 100 | _ \<Rightarrow> False)
     \<and> 0 \<le> nt_network_rx_bps n \<and> nt_network_rx_bps n \<le> 2 ^ 63 - 1
     \<and> 0 \<le> nt_network_tx_bps n \<and> nt_network_tx_bps n \<le> 2 ^ 63 - 1
     \<and> nt_disk_read_bps n < 2 ^ 64 \<and> nt_disk_write_bps n < 2 ^ 64
     \<and> nt_filesystem_used_bytes n < 2 ^ 64 \<and> nt_vm_count n = vms mod 2 ^ 32 \<and> nt_agent_healthy n"

lemma cpu_percent_fin:
  "case cpu_percent a b of Fin p \<Rightarrow> 0 \<le> p \<and> p \<le> 100 | _ \<Rightarrow> False"
proof (cases "a = None \<or> b = None")
  case True
  then show ?thesis by (auto simp: cpu_percent_def split: option.split)
next
  case False
  then obtain x y where "a = Some x" "b = Some y" by auto
  with cpu_percent_range [of x y] show ?thesis by (auto simp: cpu_percent_def)
qed

lemma node_metrics_wf:
  "node_wf vms (node_metrics env facts (cpu_percent a b) (io_rates c d) vms)"
proof -
  obtain rx tx rd wr where r: "io_rates c d = (rx, tx, rd, wr)" by (cases "io_rates c d")
  from io_rates_range [OF r] cpu_percent_fin [of a b] f64_as_u64_range show ?thesis
    by (simp add: node_wf_def node_metrics_def Let_def r split: prod.splits)
qed

definition snapshot_wf :: "HostFacts \<Rightarrow> string \<Rightarrow> system_time \<Rightarrow> Snapshot \<Rightarrow> bool" where
  "snapshot_wf facts zone now s \<longleftrightarrow> sn_schema_version s = 1 \<and> sn_zone s = trim zone
     \<and> sn_node_id s = host_id facts \<and> sn_agent_id s = agent_id facts
     \<and> sn_collected_at s = Some (system_time_to_timestamp now)
     \<and> list_all (\<lambda>v. vm_node_id v = trim (host_id facts) \<and> vm_zone v = trim zone
          \<and> vm_sampled_at v = sn_collected_at s) (sn_vms s)
     \<and> (case sn_node s of None \<Rightarrow> False | Some n \<Rightarrow> node_wf (length (sn_vms s)) n)"

lemma build_snapshot_release:
  "\<exists>snap cpu io. build_snapshot False env now_io now facts zone last_cpu last_io = Done (Inr snap, cpu, Some io)
     \<and> io_timestamp io = now_io \<and> snapshot_wf facts zone now snap"
proof -
  obtain cr where cr: "read_cpu_stats False env = Done cr" by (simp add: read_cpu_stats_release)
  obtain io where io: "read_io_stats False env now_io = Done (Some io)" "io_timestamp io = now_io"
    by (simp add: read_io_stats_release Let_def)
  obtain vms where vms: "collect_vm_metrics env (host_id facts) zone (system_time_to_timestamp now) = Inr vms"
    and l: "list_all (\<lambda>v. vm_node_id v = trim (host_id facts) \<and> vm_zone v = trim zone
          \<and> vm_sampled_at v = Some (system_time_to_timestamp now)) vms"
    by (cases "run_success env ''virsh'' [''list'', ''--all'', ''--name'']")
       (simp_all add: collect_vm_metrics_def vm_metrics_def list_all_iff)
  show ?thesis
    using l io(2) by (simp add: build_snapshot_def cr io(1) vms Let_def snapshot_wf_def node_metrics_wf)
qed

section \<open>The loop\<close>

lemma telemetry_tick_release:
  "\<exists>t'. telemetry_tick False facts zone env now_io now push t = Done t'
     \<and> length (tt_pushed t') = length (tt_pushed t) + 1 \<and> tt_io t' \<noteq> None
     \<and> length (tt_warnings t') = length (tt_warnings t) + (if push = None then 0 else 1)
     \<and> snapshot_wf facts zone now (last (tt_pushed t')) \<and> butlast (tt_pushed t') = tt_pushed t"
proof -
  obtain snap cpu io where "build_snapshot False env now_io now facts zone (tt_cpu t) (tt_io t)
      = Done (Inr snap, cpu, Some io)" "snapshot_wf facts zone now snap"
    using build_snapshot_release by blast
  then show ?thesis by (simp add: telemetry_tick_def Let_def split: option.split)
qed

definition before_shutdown :: "telemetry_event list \<Rightarrow> telemetry_event list" where
  "before_shutdown es = takeWhile (\<lambda>e. e \<noteq> TelShutdown) es"

definition failed_pushes :: "telemetry_event list \<Rightarrow> nat" where
  "failed_pushes es =
     length (filter (\<lambda>e. case e of TelTick _ _ _ push \<Rightarrow> push \<noteq> None | TelShutdown \<Rightarrow> False) es)"

lemma telemetry_loop_release:
  "\<exists>t'. telemetry_loop False facts zone es t = Done (TelShutdown \<in> set es, t')
     \<and> length (tt_pushed t') = length (tt_pushed t) + length (before_shutdown es)
     \<and> length (tt_warnings t') = length (tt_warnings t) + failed_pushes (before_shutdown es)"
proof (induction es arbitrary: t)
  case (Cons e es)
  show ?case
  proof (cases e)
    case (TelTick env now_io now push)
    obtain t1 where "telemetry_tick False facts zone env now_io now push t = Done t1"
      "length (tt_pushed t1) = length (tt_pushed t) + 1"
      "length (tt_warnings t1) = length (tt_warnings t) + (if push = None then 0 else 1)"
      using telemetry_tick_release by blast
    with Cons [of t1] TelTick show ?thesis
      by (auto simp: before_shutdown_def failed_pushes_def)
  qed (simp add: before_shutdown_def failed_pushes_def)
qed (simp add: before_shutdown_def failed_pushes_def)

section \<open>Properties\<close>

text \<open>
  C24. The load of the processors is always a number from 0 to 100, whatever the two samples
  are, also where a counter has gone back; the roundings of the division and of the
  multiplication do not take it out of the range.
\<close>

theorem cpu_percent_bounds:
  "\<exists>p. calculate_cpu_percent prev cur = Fin p \<and> 0 \<le> p \<and> p \<le> 100"
  by (rule cpu_percent_range)


text \<open>
  C23. The loop of a release build: it takes a tick for a push and logs exactly the pushes that
  fail; no failure of the host or of the network ends it or loses a later tick. It ends when
  the session's token is cancelled, and only then.
\<close>

theorem telemetry_survives_failures:
  "\<exists>t'. telemetry_loop False facts zone es t = Done (TelShutdown \<in> set es, t')
     \<and> length (tt_pushed t') = length (tt_pushed t) + length (before_shutdown es)
     \<and> length (tt_warnings t') = length (tt_warnings t) + failed_pushes (before_shutdown es)"
  by (rule telemetry_loop_release)

text \<open>A disk of 4 sectors read, all on its one partition, counts as 8.\<close>

lemma partition_counted_twice:
  "disk_sum 5 (''8 0 sda 1 0 4 0 0 0 0'' @ [CHR 0x0A] @ ''8 1 sda1 1 0 4 0 0 0 0'') = 512 * 8"
  by (simp add: disk_sum_def line_words_def text_simps disk_name_def counter_of_def)

end
