(* ===== verification/Memory_Usage.thy ===== *)
theory Memory_Usage
  imports Telemetry_Properties Host_Properties
begin

text \<open>
  Host discovery and telemetry together: the size that discovery rounds up and the usage that
  telemetry reads come from the same \<open>/proc/meminfo\<close>, and the percentage made of both is one.
\<close>

section \<open>The kernel's file\<close>

text \<open>
  \<open>/proc/meminfo\<close> starts with the total and has one line for the available memory further on,
  each a number of KiB.
\<close>

definition other_line :: "string \<Rightarrow> bool" where
  "other_line l \<longleftrightarrow> \<not> starts_with ''MemTotal:'' l \<and> \<not> starts_with ''MemAvailable:'' l"

definition meminfo_gives :: "string \<Rightarrow> nat \<Rightarrow> nat \<Rightarrow> bool" where
  "meminfo_gives contents tot avail \<longleftrightarrow>
     (\<exists>v w mid others. str_lines contents = (''MemTotal:'' @ v) # mid @ (''MemAvailable:'' @ w) # others
        \<and> split_whitespace v = [show_nat tot, ''kB''] \<and> split_whitespace w = [show_nat avail, ''kB'']
        \<and> list_all other_line mid \<and> list_all other_line others)"

section \<open>Reading it\<close>

lemma f64_gib_of_kb:
  assumes "n \<le> 2 ^ 53"
  shows "f64_of_int (int n) = Fin (real n)"
    and "f64_div (f64_div (Fin (real n)) (Fin 1024)) (Fin 1024) = Fin (real n / 2 ^ 20)"
proof -
  have n: "\<bar>int n\<bar> \<le> 2 ^ 53" using assms by (simp flip: of_nat_le_iff)
  show "f64_of_int (int n) = Fin (real n)"
    unfolding f64_of_int_def of_int_of_nat_eq by (rule f64_exact_64 [of _ "int n" 0]) (use n in simp_all)
  have "f64_of_real (real n / 1024) = Fin (real n / 1024)"
    by (rule f64_exact_64 [of _ "int n" "- 10"]) (use n in \<open>simp_all add: power_int_def field_simps\<close>)
  moreover have "f64_of_real (real n / 1024 / 1024) = Fin (real n / 1024 / 1024)"
    by (rule f64_exact_64 [of _ "int n" "- 20"]) (use n in \<open>simp_all add: power_int_def field_simps\<close>)
  ultimately show "f64_div (f64_div (Fin (real n)) (Fin 1024)) (Fin 1024) = Fin (real n / 2 ^ 20)"
    by simp
qed

lemma meminfo_gib_number:
  assumes "split_whitespace v = [show_nat n, unit]" and "n \<le> 2 ^ 53"
  shows "meminfo_gib key (key @ v) old = Some (Fin (real n / 2 ^ 20))"
  using assms(1) f64_gib_of_kb [OF assms(2)] by (simp add: meminfo_gib_def parse_f64_show_nat)

lemma meminfo_gib_skip: "\<not> starts_with key line \<Longrightarrow> meminfo_gib key line old = Some old"
  by (simp add: meminfo_gib_def starts_with_def)

lemma ram_lines_skip:
  "list_all other_line ls \<Longrightarrow> ram_lines (ls @ more_lines) t a = ram_lines more_lines t a"
  by (induction ls) (simp_all add: other_line_def meminfo_gib_skip)

lemma prefix_clash [simp]:
  "\<not> starts_with ''MemAvailable:'' (''MemTotal:'' @ v)" "\<not> starts_with ''MemTotal:'' (''MemAvailable:'' @ v)"
  by (simp_all add: starts_with_def)

lemma read_ram_lines:
  assumes "meminfo_gives contents tot avail" and "tot \<le> 2 ^ 53" and "avail \<le> 2 ^ 53"
  shows "ram_lines (str_lines contents) t a = Some (Fin (real tot / 2 ^ 20), Fin (real avail / 2 ^ 20))"
proof -
  from assms(1) obtain v w mid others where
    l: "str_lines contents = (''MemTotal:'' @ v) # mid @ (''MemAvailable:'' @ w) # others"
    and v: "split_whitespace v = [show_nat tot, ''kB'']" and w: "split_whitespace w = [show_nat avail, ''kB'']"
    and o: "list_all other_line mid" "list_all other_line others"
    unfolding meminfo_gives_def by blast
  show ?thesis
    unfolding l using ram_lines_skip [OF o(2), of "[]"]
    by (simp add: meminfo_gib_number [OF v assms(2)] meminfo_gib_number [OF w assms(3)]
        meminfo_gib_skip ram_lines_skip [OF o(1)] del: append_Cons)
qed

lemma read_total:
  assumes "meminfo_gives contents tot avail" and "tot < 2 ^ 53"
  shows "meminfo_total (str_lines contents) = Some (physical_ram (1024 * int tot))"
proof -
  from assms(1) obtain v rest where
    l: "str_lines contents = (''MemTotal:'' @ v) # rest" and v: "split_whitespace v = [show_nat tot, ''kB'']"
    unfolding meminfo_gives_def by blast
  have "parse_i64 (show_nat tot) = Some (int tot)"
    unfolding parse_i64_def by (rule parse_signed_show_nat) (use assms(2) in simp_all)
  moreover have "i64_saturating_mul (int tot) 1024 = 1024 * int tot"
    using assms(2) by (simp add: i64_saturating_mul_def)
  ultimately show ?thesis
    unfolding l using v round_kb [of "int tot"] by (simp del: append_Cons)
qed

section \<open>The percentage\<close>

lemma gib_to_bytes_kb:
  assumes "d \<le> 2 ^ 53"
  shows "gib_to_bytes (Fin (real d / 2 ^ 20)) = Fin (real d * 1024)"
proof -
  have d: "\<bar>int d\<bar> \<le> 2 ^ 53" using assms by (simp flip: of_nat_le_iff)
  have 1: "f64_of_real (real d / 2 ^ 20 * 1024) = Fin (real d / 2 ^ 20 * 1024)"
    by (rule f64_exact_64 [of _ "int d" "- 10"]) (use d in \<open>simp_all add: power_int_def field_simps\<close>)
  have 2: "f64_of_real (real d / 2 ^ 20 * 1024 * 1024) = Fin (real d)"
  proof -
    have "f64_of_real (real d) = Fin (real d)"
      by (rule f64_exact_64 [of _ "int d" 0]) (use d in simp_all)
    then show ?thesis by simp
  qed
  have 3: "f64_of_real (real d * 1024) = Fin (real d * 1024)"
    by (rule f64_exact_64 [of _ "int d" 10]) (use d in \<open>simp_all add: power_int_def\<close>)
  show ?thesis unfolding gib_to_bytes_def by (simp only: f64_mul.simps 1 2 3)
qed

lemma used_memory:
  assumes "avail \<le> tot" and "tot \<le> 2 ^ 53"
  shows "f64_sub (Fin (real tot / 2 ^ 20)) (Fin (real avail / 2 ^ 20)) = Fin (real (tot - avail) / 2 ^ 20)"
proof -
  have d: "\<bar>int (tot - avail)\<bar> \<le> 2 ^ 53" using assms(2) by (simp flip: of_nat_le_iff)
  have "f64_of_real (real (tot - avail) / 2 ^ 20) = Fin (real (tot - avail) / 2 ^ 20)"
    by (rule f64_exact_64 [of _ "int (tot - avail)" "- 20"])
       (use d in \<open>simp_all add: power_int_def field_simps\<close>)
  moreover have "real tot / 2 ^ 20 + - (real avail / 2 ^ 20) = real (tot - avail) / 2 ^ 20"
    using assms(1) by (simp add: of_nat_diff diff_divide_distrib)
  ultimately show ?thesis by (simp only: f64_sub_def f64_neg.simps f64_add.simps)
qed

lemma memory_percent:
  assumes "avail \<le> tot" and "tot < 2 ^ 53"
  shows "\<exists>p. percent_of (gib_to_bytes (Fin (real (tot - avail) / 2 ^ 20)))
       (f64_of_int (max (physical_ram (1024 * int tot)) 0)) = Fin p \<and> 0 \<le> p \<and> p \<le> 100"
proof -
  let ?d = "tot - avail" and ?m = "physical_ram (1024 * int tot)"
  have d: "?d \<le> 2 ^ 53" using assms(2) by simp
  have "1024 * int tot \<le> 2 ^ 63 - 1" using assms(2) by simp
  note m = physical_ram_ge [OF this]
  obtain n where n: "?m = int n" using m(2) nonneg_int_cases [of ?m] by auto
  then have "n < 2 ^ 64" using m(3) by simp
  from f64_of_u64 [OF this] have tot: "f64_of_int (max ?m 0) = Fin (round_real (real n))" by (simp add: n)
  have "real ?d * 1024 \<le> real n"
  proof -
    have "int (?d * 1024) \<le> int n" using m(1) n by simp
    then have "?d * 1024 \<le> n" by (simp only: of_nat_le_iff)
    then have "real (?d * 1024) \<le> real n" by (simp only: of_nat_le_iff)
    then show ?thesis by simp
  qed
  then have "round_real (real ?d * 1024) \<le> round_real (real n)" by (intro round_real_mono) simp_all
  moreover have "round_real (real ?d * 1024) = real ?d * 1024"
  proof -
    have d': "\<bar>int ?d\<bar> \<le> 2 ^ 53" using d by (simp flip: of_nat_le_iff)
    show ?thesis by (rule round_real_exact [of _ "int ?d" 10]) (use d' in \<open>simp_all add: power_int_def\<close>)
  qed
  ultimately have le: "real ?d * 1024 \<le> round_real (real n)" by simp
  have "1 \<le> ?m" using m(2) by simp
  then have "1 \<le> real n" unfolding n by linarith
  then have pos: "0 < round_real (real n)" using round_real_lower [of 1 "real n"] by simp
  have "f64_lt (Fin 0) (Fin (round_real (real n)))" using pos by (simp add: f64_lt_def)
  with f64_percent [OF _ le pos] show ?thesis
    unfolding gib_to_bytes_kb [OF d] tot percent_of_def by simp
qed

section \<open>Properties\<close>

text \<open>
  C15. From the kernel's file to the percentage: where \<open>/proc/meminfo\<close> gives a total and an
  available amount not above it, discovery reports the total rounded up to a size memory is
  sold in, telemetry reads exactly the difference as the usage, and the percentage of the two
  is from 0 to 100, with every rounding of the doubles in between.
\<close>

theorem memory_usage_percent:
  assumes "read_to_string env ''/proc/meminfo'' = Some contents"
    and "meminfo_gives contents tot avail" and "avail \<le> tot" and "0 < tot" and "tot < 2 ^ 53"
  shows "discover_memory_bytes env = Some (physical_ram (1024 * int tot))
    \<and> read_ram_used_gib env = Some (Fin (real (tot - avail) / 2 ^ 20))
    \<and> (\<exists>p. percent_of (gib_to_bytes (Fin (real (tot - avail) / 2 ^ 20)))
          (f64_of_int (max (physical_ram (1024 * int tot)) 0)) = Fin p \<and> 0 \<le> p \<and> p \<le> 100)"
proof -
  have b: "tot \<le> 2 ^ 53" "avail \<le> 2 ^ 53" using assms(3,5) by simp_all
  have "read_ram_used_gib env = Some (Fin (real (tot - avail) / 2 ^ 20))"
    unfolding used_memory [OF assms(3) b(1), symmetric] using assms(4)
    by (simp add: read_ram_used_gib_def assms(1) read_ram_lines [OF assms(2) b] f64_lt_def)
  with read_total [OF assms(2,5)] memory_percent [OF assms(3,5)] show ?thesis
    by (simp add: discover_memory_bytes_def assms(1))
qed

definition demo_meminfo :: string where
  "demo_meminfo = ''MemTotal: 3000000 kB'' @ lf @ ''MemFree: 5 kB'' @ lf @ ''MemAvailable: 1000000 kB'' @ lf"

definition memory_host :: HostEnv where
  "memory_host = (demo_host demo_df)
     \<lparr>he_file := (\<lambda>p. if p = ''/proc/meminfo'' then Some demo_meminfo else None)\<rparr>"

theorem memory_usage_percent_witness:
  "discover_memory_bytes memory_host = Some (2 ^ 30 * 4)
   \<and> read_ram_used_gib memory_host = Some (Fin (2000000 / 2 ^ 20))"
proof -
  have "str_lines demo_meminfo = (''MemTotal:'' @ '' 3000000 kB'') # [''MemFree: 5 kB''] @ (''MemAvailable:'' @ '' 1000000 kB'') # []"
    by (simp add: demo_meminfo_def lf_def text_simps)
  moreover have "show_nat 3000000 = ''3000000''" "show_nat 1000000 = ''1000000''"
    by (simp_all add: show_nat.simps digit_char_def char_of_def bit_Suc bit_0)
  then have "split_whitespace '' 3000000 kB'' = [show_nat 3000000, ''kB'']"
    "split_whitespace '' 1000000 kB'' = [show_nat 1000000, ''kB'']"
    by (simp_all add: text_simps)
  moreover have "list_all other_line [''MemFree: 5 kB'']" "list_all other_line []"
    by (simp_all add: other_line_def text_simps)
  ultimately have g: "meminfo_gives demo_meminfo 3000000 1000000"
    unfolding meminfo_gives_def by blast
  have "read_to_string memory_host ''/proc/meminfo'' = Some demo_meminfo"
    by (simp add: read_to_string_def memory_host_def demo_host_def demo_meminfo_def lf_def)
  from memory_usage_percent [OF this g] show ?thesis by (simp add: physical_ram_def physical_gib_def)
qed

end
