(* ===== verification/Grpc_Server.thy ===== *)
theory Grpc_Server
  imports Agent_Prelude
begin

text \<open>
  The health server (\<open>src/src/transport/grpc/server.rs\<close>): its task, the task that
  \<open>stop_accepting\<close> spawns, and a caller of \<open>shutdown\<close>, interleaved at each access to what they
  share. What serving meets (an error of the socket) and when the caller's timeout strikes are
  left open.
\<close>

section \<open>The server and its tasks\<close>

text \<open>
  \<open>gs_slot\<close>: whether \<open>shutdown_tx\<close> holds the sender; \<open>gs_sent\<close>: whether the receiver is ready,
  the sender having been used or dropped; \<open>gs_takes\<close>: how many spawned tasks have yet to run.
\<close>

datatype server_pc = SrvStart | SrvStored | SrvServing | SrvReturned | SrvStopped | SrvDone

datatype waiter_pc = WaitIdle | WaitCheck | WaitRegister | Waiting | WaitDone bool

record GrpcServer =
  gs_bind_ok :: bool
  gs_accepting :: bool
  gs_running :: bool
  gs_slot :: bool
  gs_sent :: bool
  gs_takes :: nat
  gs_cancelled :: bool
  gs_server :: server_pc
  gs_waiter :: waiter_pc

text \<open>The argument says whether the address parses.\<close>

definition GrpcServer_new :: "bool \<Rightarrow> GrpcServer" where
  "GrpcServer_new ok = \<lparr>gs_bind_ok = ok, gs_accepting = True, gs_running = False, gs_slot = False,
     gs_sent = False, gs_takes = 0, gs_cancelled = False, gs_server = SrvStart,
     gs_waiter = WaitIdle\<rparr>"

definition grpc_stop_accepting :: "GrpcServer \<Rightarrow> GrpcServer" where
  "grpc_stop_accepting s = s\<lparr>gs_accepting := False, gs_takes := gs_takes s + 1\<rparr>"

text \<open>
  \<open>stop_accepting\<close> is called on its own as well, when the application shuts down.
  \<open>notify_waiters\<close> wakes a waiter that is registered, and is lost on any other.
\<close>

definition notify_waiters :: "GrpcServer \<Rightarrow> GrpcServer" where
  "notify_waiters s = (if gs_waiter s = Waiting then s\<lparr>gs_waiter := WaitCheck\<rparr> else s)"

inductive grpc_step :: "GrpcServer \<Rightarrow> GrpcServer \<Rightarrow> bool" where
  cancel: "grpc_step s (s\<lparr>gs_cancelled := True\<rparr>)"
| stop: "grpc_step s (grpc_stop_accepting s)"
| take_sender: "0 < gs_takes s \<Longrightarrow>
    grpc_step s (s\<lparr>gs_takes := gs_takes s - 1, gs_slot := False, gs_sent := gs_sent s \<or> gs_slot s\<rparr>)"
| bad_address: "gs_server s = SrvStart \<Longrightarrow> \<not> gs_bind_ok s \<Longrightarrow>
    grpc_step s (notify_waiters (s\<lparr>gs_server := SrvDone\<rparr>))"
| store_sender: "gs_server s = SrvStart \<Longrightarrow> gs_bind_ok s \<Longrightarrow>
    grpc_step s (s\<lparr>gs_server := SrvStored, gs_slot := True\<rparr>)"
| set_running: "gs_server s = SrvStored \<Longrightarrow>
    grpc_step s (s\<lparr>gs_server := SrvServing, gs_running := True\<rparr>)"
| serve_stopped: "gs_server s = SrvServing \<Longrightarrow> gs_cancelled s \<or> gs_sent s \<Longrightarrow>
    grpc_step s (s\<lparr>gs_server := SrvReturned\<rparr>)"
| serve_error: "gs_server s = SrvServing \<Longrightarrow> grpc_step s (s\<lparr>gs_server := SrvReturned\<rparr>)"
| unset_running: "gs_server s = SrvReturned \<Longrightarrow>
    grpc_step s (s\<lparr>gs_server := SrvStopped, gs_running := False\<rparr>)"
| notify: "gs_server s = SrvStopped \<Longrightarrow> grpc_step s (notify_waiters (s\<lparr>gs_server := SrvDone\<rparr>))"
| call_shutdown: "gs_waiter s = WaitIdle \<Longrightarrow>
    grpc_step s ((grpc_stop_accepting s)\<lparr>gs_waiter := WaitCheck\<rparr>)"
| check_stopped: "gs_waiter s = WaitCheck \<Longrightarrow> \<not> gs_running s \<Longrightarrow>
    grpc_step s (s\<lparr>gs_waiter := WaitDone True\<rparr>)"
| check_running: "gs_waiter s = WaitCheck \<Longrightarrow> gs_running s \<Longrightarrow>
    grpc_step s (s\<lparr>gs_waiter := WaitRegister\<rparr>)"
| register: "gs_waiter s = WaitRegister \<Longrightarrow> grpc_step s (s\<lparr>gs_waiter := Waiting\<rparr>)"
| timed_out: "gs_waiter s = Waiting \<Longrightarrow> grpc_step s (s\<lparr>gs_waiter := WaitDone False\<rparr>)"

inductive grpc_reachable :: "bool \<Rightarrow> GrpcServer \<Rightarrow> bool" for ok where
  start: "grpc_reachable ok (GrpcServer_new ok)"
| step: "grpc_reachable ok s \<Longrightarrow> grpc_step s s' \<Longrightarrow> grpc_reachable ok s'"

lemmas grpc_simps [state_simps] = GrpcServer_new_def grpc_stop_accepting_def notify_waiters_def

section \<open>Invariant\<close>

text \<open>
  The flag says where the server stands; a server whose address is bad never runs; who waits
  has closed the door first, and whoever is sent the signal was asked to stop.
\<close>

definition grpc_inv :: "bool \<Rightarrow> GrpcServer \<Rightarrow> bool" where
  "grpc_inv ok s \<longleftrightarrow> gs_bind_ok s = ok
     \<and> gs_running s = (gs_server s = SrvServing \<or> gs_server s = SrvReturned)
     \<and> (if ok then True else gs_server s = SrvStart \<or> gs_server s = SrvDone)
     \<and> (if gs_waiter s \<noteq> WaitIdle then \<not> gs_accepting s else True)
     \<and> (if gs_sent s \<or> 0 < gs_takes s then \<not> gs_accepting s else True)
     \<and> (if gs_slot s then gs_server s \<noteq> SrvStart else True)"

lemma grpc_inv_step: "grpc_step s s' \<Longrightarrow> grpc_inv ok s \<Longrightarrow> grpc_inv ok s'"
  by (induction rule: grpc_step.induct) (auto simp: grpc_inv_def state_simps split: if_splits)

lemma grpc_inv_reachable: "grpc_reachable ok s \<Longrightarrow> grpc_inv ok s"
proof (induction rule: grpc_reachable.induct)
  case start
  show ?case by (simp add: grpc_inv_def state_simps)
next
  case (step s s')
  then show ?case using grpc_inv_step by blast
qed

text \<open>What a step can do to a caller that waits for a server that is done.\<close>

inductive_cases grpc_stepE: "grpc_step s s'"

definition grpc_lost :: "GrpcServer \<Rightarrow> bool" where
  "grpc_lost s \<longleftrightarrow> gs_server s = SrvDone \<and> \<not> gs_running s \<and> gs_waiter s = Waiting"

lemma grpc_lost_step: "grpc_step s s' \<Longrightarrow> grpc_lost s \<Longrightarrow> grpc_lost s' \<or> gs_waiter s' = WaitDone False"
  by (induction rule: grpc_step.induct) (auto simp: grpc_lost_def state_simps)

inductive grpc_steps :: "GrpcServer \<Rightarrow> GrpcServer \<Rightarrow> bool" where
  refl: "grpc_steps s s"
| more_steps: "grpc_steps s s1 \<Longrightarrow> grpc_step s1 s2 \<Longrightarrow> grpc_steps s s2"

lemma grpc_done_final: "grpc_step s s' \<Longrightarrow> gs_waiter s = WaitDone b \<Longrightarrow> gs_waiter s' = WaitDone b"
  by (induction rule: grpc_step.induct) (auto simp: state_simps)

lemma grpc_lost_steps:
  "grpc_steps s s' \<Longrightarrow> grpc_lost s \<Longrightarrow> grpc_lost s' \<or> gs_waiter s' = WaitDone False"
proof (induction rule: grpc_steps.induct)
  case (more_steps s s1 s2)
  then show ?case using grpc_lost_step grpc_done_final by blast
qed simp

section \<open>The lost notification\<close>

definition lost_state :: GrpcServer where
  "lost_state = \<lparr>gs_bind_ok = True, gs_accepting = False, gs_running = False, gs_slot = True,
     gs_sent = False, gs_takes = 1, gs_cancelled = True, gs_server = SrvDone, gs_waiter = Waiting\<rparr>"

lemma lost_reachable: "grpc_reachable True lost_state"
proof -
  let ?s = "\<lambda>run pc w c. \<lparr>gs_bind_ok = True, gs_accepting = c = False, gs_running = run,
      gs_slot = pc \<noteq> SrvStart, gs_sent = False, gs_takes = (if c then 1 else 0), gs_cancelled = c, gs_server = pc, gs_waiter = w\<rparr>"
  have 0: "grpc_reachable True (?s False SrvStart WaitIdle False)"
    using grpc_reachable.start [of True] by (simp add: state_simps)
  have 1: "grpc_reachable True (?s False SrvStored WaitIdle False)"
    using grpc_reachable.step [OF 0 grpc_step.store_sender] by simp
  have 2: "grpc_reachable True (?s True SrvServing WaitIdle False)"
    using grpc_reachable.step [OF 1 grpc_step.set_running] by simp
  have 3: "grpc_reachable True (?s True SrvServing WaitCheck True)"
    using grpc_reachable.step [OF grpc_reachable.step [OF 2 grpc_step.call_shutdown] grpc_step.cancel]
    by (simp add: state_simps)
  have 4: "grpc_reachable True (?s True SrvServing WaitRegister True)"
    using grpc_reachable.step [OF 3 grpc_step.check_running] by simp
  have 5: "grpc_reachable True (?s True SrvReturned WaitRegister True)"
    using grpc_reachable.step [OF 4 grpc_step.serve_stopped] by simp
  have 6: "grpc_reachable True (?s False SrvStopped WaitRegister True)"
    using grpc_reachable.step [OF 5 grpc_step.unset_running] by simp
  have 7: "grpc_reachable True (?s False SrvDone WaitRegister True)"
    using grpc_reachable.step [OF 6 grpc_step.notify] by (simp add: state_simps)
  have 8: "grpc_reachable True (?s False SrvDone Waiting True)"
    using grpc_reachable.step [OF 7 grpc_step.register] by simp
  then show ?thesis by (simp add: lost_state_def)
qed

section \<open>Properties\<close>

text \<open>
  C25. The state of the server under every interleaving of its tasks: the flag \<open>running\<close> is set
  exactly while it serves or has just returned; a server with a bad address never serves;
  nothing is accepted once a shutdown was called, and the server is sent the signal only then.
\<close>

theorem grpc_server_invariant:
  assumes "grpc_reachable ok s"
  shows "grpc_inv ok s"
  using grpc_inv_reachable assms by blast

theorem grpc_server_invariant_witness: "grpc_inv True lost_state"
  by (rule grpc_server_invariant [OF lost_reachable])

text \<open>
  C39. A shutdown can miss the server's end: it reads the flag, the server clears it and
  notifies nobody, and only then the caller starts to wait. From there on no step of any task
  wakes it; it reports a timeout, although the server has long stopped.
\<close>

theorem grpc_shutdown_misses_stop:
  "\<exists>s. grpc_reachable True s \<and> grpc_lost s
     \<and> {gs_waiter s' |s'. grpc_steps s s'} \<subseteq> {Waiting, WaitDone False}"
proof -
  have l: "grpc_lost lost_state" by (simp add: grpc_lost_def lost_state_def)
  have "gs_waiter s' = Waiting \<or> gs_waiter s' = WaitDone False" if "grpc_steps lost_state s'" for s'
    using grpc_lost_steps [OF that l] by (auto simp: grpc_lost_def)
  with lost_reachable l show ?thesis by blast
qed

end
