(* ===== verification/Stream_Interleaving.thy ===== *)
theory Stream_Interleaving
  imports Frame_Stream
begin

text \<open>
  The session's tasks at the grain of their shared operations. A task takes a number and
  builds its frame (\<open>seq.fetch_add\<close>), later hands the frame to the channel
  (\<open>tx.send(frame).await\<close>), and may be aborted in between; the heartbeat task and the session's loop
  (\<open>src/src/agent/heartbeat.rs\<close>, \<open>registration.rs\<close>) run so on several threads.
\<close>

record tasks =
  tk_stream :: stream
  tk_pending :: "nat \<Rightarrow> AgentToHypervisor option"

text \<open>One step: task \<open>t\<close> takes a number, sends its frame, or is aborted.\<close>

inductive task_step :: "tasks \<Rightarrow> tasks \<Rightarrow> bool" where
  take_seq: "tk_pending s t = None \<Longrightarrow> a2h_seq f = fst (seq_fetch_add (tk_stream s)) \<Longrightarrow>
    task_step s (s\<lparr>tk_stream := snd (seq_fetch_add (tk_stream s)), tk_pending := (tk_pending s)(t := Some f)\<rparr>)"
| send_frame: "tk_pending s t = Some f \<Longrightarrow>
    task_step s (s\<lparr>tk_stream := snd (tx_send f (tk_stream s)), tk_pending := (tk_pending s)(t := None)\<rparr>)"
| abort_task: "tk_pending s t = Some f \<Longrightarrow>
    task_step s (s\<lparr>tk_pending := (tk_pending s)(t := None)\<rparr>)"

definition tasks_start :: "bool list \<Rightarrow> tasks" where
  "tasks_start script = \<lparr>tk_stream = new_stream script, tk_pending = (\<lambda>t. None)\<rparr>"

text \<open>
  No number is held twice, by the frames sent and the frames pending, and all are below the
  counter, which has counted every number taken.
\<close>

definition tasks_inv :: "nat \<Rightarrow> tasks \<Rightarrow> bool" where
  "tasks_inv n s \<longleftrightarrow> unat (st_seq (tk_stream s)) \<le> n + 1
     \<and> distinct (map a2h_seq (st_outbox (tk_stream s)))
     \<and> (\<forall>f\<in>set (st_outbox (tk_stream s)). a2h_seq f < st_seq (tk_stream s))
     \<and> (\<forall>t f. tk_pending s t = Some f \<longrightarrow> a2h_seq f < st_seq (tk_stream s)
          \<and> a2h_seq f \<notin> a2h_seq ` set (st_outbox (tk_stream s))
          \<and> (\<forall>t' f'. tk_pending s t' = Some f' \<longrightarrow> t' \<noteq> t \<longrightarrow> a2h_seq f' \<noteq> a2h_seq f))"

lemma tasks_inv_start: "tasks_inv 0 (tasks_start script)"
  by (simp add: tasks_inv_def tasks_start_def new_stream_def)

lemma tasks_inv_step:
  assumes "tasks_inv n s" and "task_step s s'" and "n + 2 < 2 ^ 64"
  shows "tasks_inv (Suc n) s'"
  using assms(2)
proof (cases rule: task_step.cases)
  case (take_seq t f)
  let ?c = "st_seq (tk_stream s)"
  have ne: "?c \<noteq> -1" using assms(1,3) by (intro seq_not_max) (simp add: tasks_inv_def)
  have lt: "?c < ?c + 1" using ne by (rule word_less_Suc)
  have up: "x < ?c + 1" if "x < ?c" for x using that lt by (rule order.strict_trans)
  have succ: "unat (?c + 1) = Suc (unat ?c)"
    using ne by (simp add: add.commute unatSuc add_eq_0_iff)
  have pend: "a2h_seq g \<noteq> ?c" if "tk_pending s t' = Some g" for t' g
  proof -
    have "a2h_seq g < ?c" using assms(1) that unfolding tasks_inv_def by blast
    then show ?thesis by simp
  qed
  show ?thesis
    using assms(1) take_seq lt up succ
    by (auto simp: tasks_inv_def dest: pend)
next
  case (send_frame t f)
  then show ?thesis
    using assms(1)
    by (cases rule: tx_send_cases [of f "tk_stream s"]) (auto simp: tasks_inv_def image_iff)
next
  case (abort_task t f)
  with assms(1) show ?thesis by (auto simp: tasks_inv_def)
qed

lemma tasks_inv_run:
  "(task_step ^^ n) (tasks_start script) s \<Longrightarrow> n + 1 < 2 ^ 64 \<Longrightarrow> tasks_inv n s"
proof (induction n arbitrary: s)
  case 0
  then show ?case using tasks_inv_start [of script] by auto
next
  case (Suc n)
  then obtain s1 where "(task_step ^^ n) (tasks_start script) s1" "task_step s1 s" by auto
  with Suc tasks_inv_step [of n s1 s] show ?case by simp
qed

text \<open>
  C20. Numbers are unique under every interleaving: in a session of fewer than \<open>2 ^ 64 - 1\<close>
  steps of its tasks, no two frames that reach the channel have the same number, and the
  counter is above all of them.
\<close>

theorem interleaved_numbers_unique:
  assumes "(task_step ^^ n) (tasks_start script) s" and "n + 1 < 2 ^ 64"
  shows "distinct (map a2h_seq (st_outbox (tk_stream s)))
    \<and> (\<forall>f\<in>set (st_outbox (tk_stream s)). a2h_seq f < st_seq (tk_stream s))"
  using tasks_inv_run [OF assms] by (simp add: tasks_inv_def)

text \<open>A frame that carries its number and nothing else.\<close>

definition bare_frame :: "u64 \<Rightarrow> AgentToHypervisor" where
  "bare_frame n = \<lparr>a2h_stream_id = ''s'', a2h_seq = n, a2h_message = None\<rparr>"

text \<open>Task 0 takes 1, task 1 takes 2 and sends, task 0 sends.\<close>

lemma overtaking_run:
  "\<exists>s. (task_step ^^ 4) (tasks_start []) s \<and> st_outbox (tk_stream s) = [bare_frame 2, bare_frame 1]"
proof -
  let ?s0 = "tasks_start []"
  let ?s1 = "?s0\<lparr>tk_stream := snd (seq_fetch_add (tk_stream ?s0)), tk_pending := (tk_pending ?s0)(0 := Some (bare_frame 1))\<rparr>"
  let ?s2 = "?s1\<lparr>tk_stream := snd (seq_fetch_add (tk_stream ?s1)), tk_pending := (tk_pending ?s1)(1 := Some (bare_frame 2))\<rparr>"
  let ?s3 = "?s2\<lparr>tk_stream := snd (tx_send (bare_frame 2) (tk_stream ?s2)), tk_pending := (tk_pending ?s2)(1 := None)\<rparr>"
  let ?s4 = "?s3\<lparr>tk_stream := snd (tx_send (bare_frame 1) (tk_stream ?s3)), tk_pending := (tk_pending ?s3)(0 := None)\<rparr>"
  have "task_step ?s0 ?s1" by (rule take_seq) (simp_all add: tasks_start_def new_stream_def bare_frame_def)
  moreover have "task_step ?s1 ?s2" by (rule take_seq) (simp_all add: tasks_start_def new_stream_def bare_frame_def)
  moreover have "task_step ?s2 ?s3" by (rule send_frame) simp
  moreover have "task_step ?s3 ?s4" by (rule send_frame) simp
  ultimately have "(task_step ^^ 4) ?s0 ?s4" by (auto simp: numeral_eq_Suc intro!: relcomppI)
  moreover have "st_outbox (tk_stream ?s4) = [bare_frame 2, bare_frame 1]"
    by (simp add: tasks_start_def new_stream_def tx_send_def Let_def)
  ultimately show ?thesis by blast
qed

theorem interleaved_numbers_unique_witness:
  "\<exists>s. (task_step ^^ 4) (tasks_start []) s \<and> length (st_outbox (tk_stream s)) = 2
     \<and> distinct (map a2h_seq (st_outbox (tk_stream s)))"
proof -
  obtain s where s: "(task_step ^^ 4) (tasks_start []) s" "st_outbox (tk_stream s) = [bare_frame 2, bare_frame 1]"
    using overtaking_run by blast
  with interleaved_numbers_unique [OF s(1)] show ?thesis by auto
qed

text \<open>
  The order of the numbers is not that of the frames: since taking a number and sending
  its frame are two operations, a task can be overtaken, and the channel then holds frames
  whose numbers decrease.
\<close>

lemma interleaved_frames_overtake:
  "\<exists>s. task_step\<^sup>*\<^sup>* (tasks_start []) s \<and> \<not> sorted_wrt (<) (map a2h_seq (st_outbox (tk_stream s)))"
proof -
  obtain s where "(task_step ^^ 4) (tasks_start []) s" "st_outbox (tk_stream s) = [bare_frame 2, bare_frame 1]"
    using overtaking_run by blast
  then show ?thesis by (intro exI [of _ s]) (auto simp: bare_frame_def dest: relpowp_imp_rtranclp)
qed

end
