(* ===== verification/Spec2Isabelle.thy ===== *)
theory Spec2Isabelle
  imports Agent_Main Memory_Usage Grpc_Server Stream_Interleaving
begin

text \<open>
  A verification library of the KVM agent (\<open>vm-agent\<close>, crate under \<open>src/src\<close>): the program that
  runs on a host, enrolls it with a control plane, keeps a stream to a data plane and executes
  the commands it is sent.

  \<^bold>\<open>The program.\<close> \<open>main\<close> loads the configuration from the environment, starts the gRPC health
  server, the worker dispatcher and the agent task, waits for a signal and shuts down. The agent
  task is \<open>connect_hypervisor\<close> (\<open>agent/registry.rs\<close>): it makes sure of a client certificate
  (\<open>agent/bootstrap.rs\<close>, \<open>repository/vm.rs\<close>), asks the control plane for an assignment, and
  runs a session with one candidate after the other. A session spawns the heartbeat,
  telemetry and refresh tasks and answers the server's messages (\<open>agent/registration.rs\<close>);
  commands go through the ledger (\<open>agent/command_ledger.rs\<close>), a SQLite table that makes sure
  each is executed at most once.

  \<^bold>\<open>The theories\<close>, in the order they build on each other:

  \<^item> \<open>Agent_Prelude\<close>: errors as chains of causes, panics, scripts of outcomes, hint collections;
  \<^item> \<open>Rust_Text\<close>, \<open>Rust_Lines\<close>, \<open>Rust_Path\<close>, \<open>Rust_Time\<close>: the parts of Rust's standard library
    the program uses, on bytes, path components and nanoseconds; \<open>Rust_Float\<close>: its doubles, with
    the rounding of IEEE 754 and what ratios need of it (locale \<open>rounding\<close>);
  \<^item> \<open>App_Config\<close>: \<open>config/*.rs\<close>, the sections, their \<open>validate\<close> and \<open>load_from_env\<close>;
  \<^item> \<open>Host_Model\<close>, \<open>Agent_Frames\<close>: \<open>model/host.rs\<close>, the protobuf messages and \<open>agent/frames.rs\<close>;
  \<^item> \<open>Host_Discovery\<close>: \<open>service/host.rs\<close>, the readers of \<open>/proc\<close>, \<open>/sys\<close> and of programs on a
    record of what the host answers (\<open>HostEnv\<close>); \<open>Host_Properties\<close>: what the facts guarantee;
  \<^item> \<open>Telemetry\<close>: \<open>agent/telemetry.rs\<close> and the metric frame, the counters, rates, virtual
    machines, the snapshot and its loop; \<open>Telemetry_Properties\<close>; \<open>Memory_Usage\<close>: discovery and
    telemetry on the same \<open>/proc/meminfo\<close>;
  \<^item> \<open>Command_Ledger\<close>: the table and its statements, \<open>open\<close>, \<open>begin_or_get\<close>, \<open>complete\<close>;
    \<open>Command_Store\<close>: the contract of a command store (locale \<open>command_store\<close>), runs of a
    store, the ledger's interpretation and its properties;
  \<^item> \<open>Command_Handler\<close>: \<open>agent/command_handler.rs\<close>;
  \<^item> \<open>Frame_Stream\<close>: the channel and the sequence counter a session's tasks share (locale
    \<open>frame_stream\<close>); \<open>Stream_Interleaving\<close>: the same at the grain of single atomic operations;
  \<^item> \<open>Heartbeat\<close>, \<open>Registration\<close>: the heartbeat task and the handler of the server's messages;
  \<^item> \<open>Identity_Store\<close>: \<open>repository/vm.rs\<close> on a file system with failing calls;
    \<open>Identity_Safety\<close>: the contract of a replaceable file (locale \<open>atomic_files\<close>), its
    interpretation and the properties of the store;
  \<^item> \<open>Bootstrap\<close>: \<open>agent/bootstrap.rs\<close>, the endpoints, the channels, the enrollment, the
    classification of errors;
  \<^item> \<open>Assignment\<close>, \<open>Target_Selector\<close>: \<open>resolve_assignment\<close> and the selector of the runtime
    target (locale \<open>target_cursor\<close>) of \<open>agent/registry.rs\<close>;
  \<^item> \<open>Session\<close>: \<open>run_session\<close> as a machine on the events its \<open>select!\<close> meets;
  \<^item> \<open>Registry\<close>: \<open>connect_hypervisor\<close> as a machine of turns that calls all of the above;
  \<^item> \<open>Worker_Pool\<close>: \<open>worker/pool.rs\<close>, for one thread and for interleaved threads, as a
    refinement of an atomic counter;
  \<^item> \<open>Lifecycle\<close>: \<open>app/state.rs\<close>, \<open>worker/dispatcher.rs\<close>, \<open>app/lifecycle.rs\<close> and the shutdown
    of \<open>transport/grpc/server.rs\<close>, with time;
  \<^item> \<open>Grpc_Server\<close>: \<open>transport/grpc/server.rs\<close> as a machine of its tasks, interleaved at each
    shared access;
  \<^item> \<open>Logging\<close>: \<open>telemetry/logging.rs\<close>; \<open>Agent_Main\<close>: \<open>main.rs\<close> and \<open>app/context.rs\<close>, which
    compose the configuration, the logger, the facts, the agent's task and the shutdown.

  \<^bold>\<open>How the code is modelled.\<close> Definitions keep the names of the functions and follow their
  statements in order. A fallible function returns \<open>error + 'a\<close>; an effectful one takes its
  state and returns it changed; arithmetic that may panic returns \<open>'a exec\<close>. What is logged is
  kept in \<open>Agent_Main\<close> and the telemetry loop, and left out elsewhere. What the program awaits
  or reads from outside is an input: the clock, the environment, the host (\<open>HostEnv\<close>), the
  network (\<open>net\<close>, \<open>plane\<close>), the events of a \<open>select!\<close>, and scripts that say which calls fail. An empty script means that no further call fails. Code that is not in the
  repository (SHA-256, serde_json, OpenSSL, tonic) is a parameter; no law of it is assumed
  but that the strings it returns are UTF-8 (\<open>net_text\<close>), and of the \<open>tracing\<close> crate that its
  levels are ordered as documented (\<open>documented_order\<close>). An \<open>async\<close> function is modelled between
  its awaits; \<open>Stream_Interleaving\<close> and \<open>Worker_Pool\<close> split operations further, to single
  atomic accesses. No model needs fuel: loops that wait recurse on the list of their events,
  and the functions return where the list is used up with the loop still running.

  \<^bold>\<open>What the properties say.\<close> Commands: at most one execution over redeliveries, failures and
  restarts; a complete answer to each; exact replay of recorded results. Frames: numbered
  in order, uniquely under every interleaving. Identity: files replaced as a whole, enrollment
  stored and reloaded exactly, refused enrollments without effect, no plaintext after the
  enrollment. Connection: every candidate tried in order, bounded pauses, no panic under sane
  inputs. Workers: the compare-and-exchange loops implement a bounded counter. Shutdown:
  bounded in time, and when it is clean. Configuration: when it loads, what it guarantees.
  Host: the rounding of the memory size equals an integer specification; facts and storage
  pools are well formed. Telemetry: percentages and rates in range, snapshots that can always
  be built, a loop no failure ends. Process: its exit status, and that it stops in time.
  Some theorems and lemmas state defects: a panic on large refresh intervals, the missing pause
  after the last candidate, the untrimmed comparison of the refresh, the plaintext dial of
  \<open>HTTPS://\<close>, the overwritten unreadable key, the late start of a job, frames out of order, the
  inverted filters of the log streams, the notification a shutdown can miss, the wrapped line
  of \<open>df\<close>, the partitions counted twice.

  \<^bold>\<open>Bounds.\<close> Numbers are unique and ordered while a session takes fewer than \<open>2 ^ 64\<close> of them;
  \<open>usize\<close> has 64 bits; durations are at most \<open>dur_max\<close> nanoseconds. \<open>to_lowercase\<close> treats
  ASCII letters, which is exact for the comparisons the program makes.
  An \<open>f64\<close> is exact up to the sign of zero. Counters of lines are not bounded at \<open>2 ^ 31\<close>.
  The telemetry properties are of a release build, where \<open>u64\<close> sums wrap; the model also has
  the panics of a build with overflow checks.

  \<^bold>\<open>Not modelled.\<close> The layers of \<open>tracing_subscriber\<close> and the fields of single log lines, the
  span of \<open>app_span\<close>, the health service that tonic serves, \<open>wait_for_shutdown_signal\<close> outside
  Unix, the installation of the crypto provider, and the generated protobuf code. In a
  session the telemetry task is a flag; its loop, which shares only a token with the session,
  is modelled on its own. The storage pools of an inventory frame are an argument there.
\<close>

end
